theory Spec2Isabelle
  imports Main "HOL-Library.Word" "HOL-Library.Signed_Division"
begin

unbundle bit_operations_syntax

section \<open>Accounting policy enforcement of slurmctld (src/slurmctld/acct\_policy.c)\<close>

text \<open>
  A shallow embedding of \<^verbatim>\<open>acct_policy.c\<close>. Static C functions whose names start with
  an underscore keep their names without it (\<^verbatim>\<open>_set_qos_order\<close> is \<open>set_qos_order\<close>).
  Fields that several structures share (\<^verbatim>\<open>grp_nodes\<close>, \<^verbatim>\<open>usage\<close>, ...) are written with
  the record's name in front: \<open>qos_rec.grp_nodes\<close>, \<open>assoc_rec.grp_nodes\<close>.
\<close>

subsection \<open>Machine integers and the constants of the headers\<close>

type_synonym uint16 = "16 word"
type_synonym uint32 = "32 word"
type_synonym uint64 = "64 word"
type_synonym time_t = int

text \<open>Modelled from the spec: the sentinel \<^verbatim>\<open>INFINITE\<close> ("INF, all ones, no limit") of
  slurm.h, a header that is not among the sources.\<close>
definition INFINITE :: uint32 where
  "INFINITE = 0xffffffff"

text \<open>Modelled from the spec: the sentinel \<^verbatim>\<open>NO_VAL\<close> ("unspecified on inputs") of slurm.h,
  a header that is not among the sources; slurm.h gives it the value below.\<close>
definition NO_VAL :: uint32 where
  "NO_VAL = 0xfffffffe"

text \<open>Modelled from the spec: the \<^verbatim>\<open>MEM_PER_CPU\<close> flag bit of \<^verbatim>\<open>pn_min_memory\<close>, declared in
  slurm.h (not among the sources) as the top bit.\<close>
definition MEM_PER_CPU :: uint32 where
  "MEM_PER_CPU = 0x80000000"

text \<open>Modelled from the spec: the \<^verbatim>\<open>ADMIN_SET\<close> value of a limit-set slot, declared in
  acct\_policy.h (not among the sources) as \<^verbatim>\<open>ADMIN_SET_LIMIT\<close>; 0 is unset and 1 is set by
  policy.\<close>
definition ADMIN_SET_LIMIT :: uint16 where
  "ADMIN_SET_LIMIT = 0xffff"

text \<open>Modelled from the spec: the positions of cpu and memory in the ordered TRES catalogue
  (\<^verbatim>\<open>TRES_ARRAY_CPU\<close>, \<^verbatim>\<open>TRES_ARRAY_MEM\<close> of a header that is not among the sources).\<close>
definition TRES_ARRAY_CPU :: nat where
  "TRES_ARRAY_CPU = 0"

definition TRES_ARRAY_MEM :: nat where
  "TRES_ARRAY_MEM = 1"

text \<open>The bit masks \<^verbatim>\<open>accounting_enforce\<close> and \<^verbatim>\<open>qos->flags\<close>: the values of the flags are
  declared in headers that are not among the sources, so a mask is the set of the flags
  it has set, \<^verbatim>\<open>mask & FLAG\<close> is membership and \<^verbatim>\<open>!mask\<close> is emptiness.\<close>

datatype enforce_flag =
    ACCOUNTING_ENFORCE_ASSOCS
  | ACCOUNTING_ENFORCE_LIMITS
  | ACCOUNTING_ENFORCE_WCKEYS
  | ACCOUNTING_ENFORCE_QOS
  | ACCOUNTING_ENFORCE_SAFE
  | ACCOUNTING_ENFORCE_NO_JOBS
  | ACCOUNTING_ENFORCE_NO_STEPS

datatype qos_flag =
    QOS_FLAG_PART_QOS
  | QOS_FLAG_DENY_LIMIT
  | QOS_FLAG_OTHER nat

text \<open>\<^verbatim>\<open>enum job_state_reason\<close>: the codes this file reads or writes, and one constructor
  for every other code.\<close>

datatype job_state_reason =
    WAIT_NO_REASON
  | FAIL_TIMEOUT
  | FAIL_ACCOUNT
  | WAIT_ASSOC_JOB_LIMIT
  | WAIT_ASSOC_RESOURCE_LIMIT
  | WAIT_ASSOC_TIME_LIMIT
  | WAIT_QOS_JOB_LIMIT
  | WAIT_QOS_TIME_LIMIT
  | WAIT_QOS_GRP_CPU
  | WAIT_QOS_GRP_CPU_MIN
  | WAIT_QOS_GRP_CPU_RUN_MIN
  | WAIT_QOS_GRP_JOB
  | WAIT_QOS_GRP_MEMORY
  | WAIT_QOS_GRP_NODES
  | WAIT_QOS_GRP_SUB_JOB
  | WAIT_QOS_GRP_WALL
  | WAIT_QOS_MAX_CPUS_PER_JOB
  | WAIT_QOS_MAX_CPU_MINS_PER_JOB
  | WAIT_QOS_MAX_NODE_PER_JOB
  | WAIT_QOS_MAX_WALL_PER_JOB
  | WAIT_QOS_MAX_CPU_PER_USER
  | WAIT_QOS_MAX_JOB_PER_USER
  | WAIT_QOS_MAX_NODE_PER_USER
  | WAIT_QOS_MAX_SUB_JOB
  | WAIT_QOS_MIN_CPUS
  | WAIT_ASSOC_GRP_CPU
  | WAIT_ASSOC_GRP_CPU_MIN
  | WAIT_ASSOC_GRP_CPU_RUN_MIN
  | WAIT_ASSOC_GRP_JOB
  | WAIT_ASSOC_GRP_MEMORY
  | WAIT_ASSOC_GRP_NODES
  | WAIT_ASSOC_GRP_SUB_JOB
  | WAIT_ASSOC_GRP_WALL
  | WAIT_ASSOC_MAX_JOBS
  | WAIT_ASSOC_MAX_CPUS_PER_JOB
  | WAIT_ASSOC_MAX_CPU_MINS_PER_JOB
  | WAIT_ASSOC_MAX_NODE_PER_JOB
  | WAIT_ASSOC_MAX_WALL_PER_JOB
  | WAIT_ASSOC_MAX_SUB_JOB
  | REASON_OTHER nat

datatype tres_type = TRES_CPU | TRES_MEM | TRES_ENERGY | TRES_NODE

datatype acct_policy_type =
    ACCT_POLICY_ADD_SUBMIT
  | ACCT_POLICY_REM_SUBMIT
  | ACCT_POLICY_JOB_BEGIN
  | ACCT_POLICY_JOB_FINI

subsection \<open>The data model\<close>

text \<open>\<^verbatim>\<open>slurmdb_used_limits_t\<close>: what one user holds of a QOS.\<close>

record used_limits =
  cpus :: uint32
  jobs :: uint32
  nodes :: uint32
  submit_jobs :: uint32
  uid :: uint32

text \<open>\<^verbatim>\<open>slurmdb_qos_usage_t\<close>. \<^verbatim>\<open>usage_raw\<close> (long double) and \<^verbatim>\<open>grp_used_wall\<close> (double) are
  read only through \<^verbatim>\<open>(uint64_t)(x / 60.0)\<close> and \<^verbatim>\<open>x / 60\<close> stored in an unsigned integer,
  which depend on the whole seconds of \<^verbatim>\<open>x\<close> only: the fields hold these whole seconds.
  \<^verbatim>\<open>user_limit_list\<close> is \<open>None\<close> for a NULL list.\<close>

record qos_usage =
  grp_used_cpus :: uint32
  grp_used_cpu_run_secs :: uint64
  grp_used_jobs :: uint32
  grp_used_mem :: uint32
  grp_used_nodes :: uint32
  grp_used_submit_jobs :: uint32
  grp_used_wall :: nat
  usage_raw :: nat
  user_limit_list :: "used_limits list option"

text \<open>\<^verbatim>\<open>slurmdb_qos_rec_t\<close>.\<close>

record qos_rec =
  name :: string
  flags :: "qos_flag set"
  grp_cpu_mins :: uint64
  grp_cpu_run_mins :: uint64
  grp_cpus :: uint32
  grp_jobs :: uint32
  grp_mem :: uint32
  grp_nodes :: uint32
  grp_submit_jobs :: uint32
  grp_wall :: uint32
  max_cpu_mins_pj :: uint64
  max_cpus_pj :: uint32
  max_cpus_pu :: uint32
  max_jobs_pu :: uint32
  max_nodes_pj :: uint32
  max_nodes_pu :: uint32
  max_submit_jobs_pu :: uint32
  max_wall_pj :: uint32
  min_cpus_pj :: uint32
  usage :: qos_usage

text \<open>\<^verbatim>\<open>slurmdb_assoc_usage_t\<close>; its \<^verbatim>\<open>parent_assoc_ptr\<close> is the next element of the chain
  (see \<open>job_record.assoc_ptr\<close>).\<close>

record assoc_usage =
  grp_used_cpus :: uint32
  grp_used_cpu_run_secs :: uint64
  grp_used_mem :: uint32
  grp_used_nodes :: uint32
  grp_used_wall :: nat
  usage_raw :: nat
  used_jobs :: uint32
  used_submit_jobs :: uint32

text \<open>\<^verbatim>\<open>slurmdb_assoc_rec_t\<close>. The TRES limits kept as strings are read through
  \<^verbatim>\<open>slurmdb_find_tres_count_in_string\<close> only; the arrays indexed by TRES position are
  functions of the position.\<close>

record assoc_rec =
  acct :: string
  grp_jobs :: uint32
  grp_mem :: uint32
  grp_nodes :: uint32
  grp_submit_jobs :: uint32
  grp_tres :: string
  grp_tres_ctld :: "nat \<Rightarrow> uint64"
  grp_tres_mins :: string
  grp_tres_run_mins :: string
  grp_wall :: uint32
  id :: uint32
  max_jobs :: uint32
  max_nodes_pj :: uint32
  max_submit_jobs :: uint32
  max_tres_ctld :: "nat \<Rightarrow> uint64"
  max_tres_mins_pj :: string
  max_tres_pj :: string
  max_wall_pj :: uint32
  uid :: uint32
  usage :: assoc_usage
  user :: string

text \<open>\<^verbatim>\<open>struct part_record\<close>; a QOS pointer is the address of a QOS record in \<open>qos_heap\<close>,
  \<open>None\<close> for NULL.\<close>

record part_record =
  max_time :: uint32
  name :: string
  qos_ptr :: "nat option"

text \<open>\<^verbatim>\<open>acct_policy_limit_set_t\<close>.\<close>

record acct_policy_limit_set =
  max_nodes :: uint16
  max_tres :: "nat \<Rightarrow> uint16"
  min_nodes :: uint16
  min_tres :: "nat \<Rightarrow> uint16"
  time :: uint16

record job_details =
  min_nodes :: uint32
  pn_min_memory :: uint32

text \<open>\<^verbatim>\<open>struct job_record\<close>, the fields this file reads or writes. \<open>assoc_ptr\<close> is the
  chain that \<^verbatim>\<open>assoc_ptr\<close> and the \<^verbatim>\<open>usage->parent_assoc_ptr\<close> links span: the job's
  association first, then its parent, up to the association whose parent is NULL (the
  root); the empty list is the NULL pointer. The loops \<^verbatim>\<open>while (assoc_ptr)\<close> of the file
  are recursions over this list.\<close>

record job_record =
  account :: string
  assoc_id :: uint32
  assoc_ptr :: "assoc_rec list"
  details :: "job_details option"
  end_time_exp :: time_t
  job_id :: uint32
  limit_set :: acct_policy_limit_set
  node_cnt :: uint32
  part_ptr :: "part_record option"
  qos_ptr :: "nat option"
  start_time :: time_t
  state_desc :: "string option"
  state_reason :: job_state_reason
  time_limit :: uint32
  tot_sus_time :: time_t
  total_cpus :: uint32
  user_id :: uint32

text \<open>\<^verbatim>\<open>job_desc_msg_t\<close>; \<open>array_bitmap\<close> is \<open>None\<close> for NULL.\<close>

record job_desc_msg =
  array_bitmap :: "bool list option"
  max_nodes :: uint32
  min_nodes :: uint32
  time_limit :: uint32
  tres_req_cnt :: "nat \<Rightarrow> uint64"
  user_id :: uint32

text \<open>The underflow messages (\<^verbatim>\<open>debug2\<close>) of the usage adjuster: the counter, the name of
  the QOS or account, and the user for a per-user counter.\<close>

datatype counter = Submit_jobs | Used_jobs | Used_cpus | Used_mem | Used_nodes

datatype debug_msg =
    Qos_underflow counter string
  | Qos_user_underflow counter string uint32
  | Assoc_underflow counter string

text \<open>The process-wide state the file reads and writes (\<^verbatim>\<open>accounting_enforce\<close>,
  \<^verbatim>\<open>assoc_mgr_root_assoc\<close>, \<^verbatim>\<open>g_tres_count\<close>, \<^verbatim>\<open>last_job_update\<close>), the QOS records by
  address, the underflow messages logged so far, and the collaborators the file calls,
  none of which is among the sources:
  \<^item> \<open>time_now\<close> is what \<^verbatim>\<open>time(NULL)\<close> returns;
  \<^item> \<open>slurmdb_find_tres_count_in_string\<close> parses a TRES string;
  \<^item> \<open>assoc_mgr_fill_in_assoc\<close>, given the account, the partition name and the user,
    returns its return code, the association pointer it stores and the id it fills in;
  \<^item> \<open>reason_code\<close> is the numeric value of each \<^verbatim>\<open>enum job_state_reason\<close> code.
  The root association is known by its id (\<open>None\<close> for a NULL pointer).\<close>

record ctld =
  accounting_enforce :: "enforce_flag set"
  assoc_mgr_root_assoc :: "uint32 option"
  g_tres_count :: nat
  last_job_update :: time_t
  qos_heap :: "nat \<Rightarrow> qos_rec"
  debug_log :: "debug_msg list"
  time_now :: time_t
  slurmdb_find_tres_count_in_string :: "string \<Rightarrow> tres_type \<Rightarrow> uint64"
  assoc_mgr_fill_in_assoc :: "string \<Rightarrow> string option \<Rightarrow> uint32 \<Rightarrow> int \<times> assoc_rec list \<times> uint32"
  reason_code :: "job_state_reason \<Rightarrow> nat"

subsection \<open>QOS order, per-user records, association binding\<close>

text \<open>The QOS of the job's partition: what \<^verbatim>\<open>job_ptr->part_ptr->qos_ptr\<close> holds under the
  guard \<^verbatim>\<open>job_ptr->part_ptr && job_ptr->part_ptr->qos_ptr\<close>, NULL where the guard fails.\<close>

definition part_qos_ptr :: "job_record \<Rightarrow> nat option" where
  "part_qos_ptr job_ptr =
     (case part_ptr job_ptr of None \<Rightarrow> None | Some p \<Rightarrow> part_record.qos_ptr p)"

text \<open>\<^verbatim>\<open>_set_qos_order\<close>: the pair \<^verbatim>\<open>(*qos_ptr_1, *qos_ptr_2)\<close>.\<close>

definition set_qos_order :: "ctld \<Rightarrow> job_record \<Rightarrow> nat option \<times> nat option" where
  "set_qos_order s job_ptr =
     (case job_record.qos_ptr job_ptr of
        Some jq \<Rightarrow>
          (case part_qos_ptr job_ptr of
             Some pq \<Rightarrow>
               (let (q1, q2) =
                      (if QOS_FLAG_PART_QOS \<in> flags (qos_heap s jq)
                       then (Some jq, Some pq) else (Some pq, Some jq))
                in if q1 = q2 then (q1, None) else (q1, q2))
           | None \<Rightarrow> (Some jq, None))
      | None \<Rightarrow>
          (case part_qos_ptr job_ptr of
             Some pq \<Rightarrow> (Some pq, None)
           | None \<Rightarrow> (None, None)))"

text \<open>\<^verbatim>\<open>_get_used_limits_for_user\<close>: the loop over the list, which stops at the first
  record with the user's uid (\<open>list_find_uid\<close>, its position), and the record the
  pointer returned points to; \<open>None\<close> for NULL.\<close>

fun list_find_uid :: "used_limits list \<Rightarrow> uint32 \<Rightarrow> nat option" where
  "list_find_uid [] u = None"
| "list_find_uid (x # xs) u =
     (if used_limits.uid x = u then Some 0 else map_option Suc (list_find_uid xs u))"

definition get_used_limits_for_user :: "used_limits list option \<Rightarrow> uint32 \<Rightarrow> used_limits option" where
  "get_used_limits_for_user lst u =
     (case lst of
        None \<Rightarrow> None
      | Some l \<Rightarrow> (case list_find_uid l u of None \<Rightarrow> None | Some i \<Rightarrow> Some (l ! i)))"

text \<open>What \<^verbatim>\<open>xmalloc(sizeof(slurmdb_used_limits_t))\<close> followed by the assignment of the
  uid gives: \<^verbatim>\<open>xmalloc\<close> clears the memory.\<close>

definition new_used_limits :: "uint32 \<Rightarrow> used_limits" where
  "new_used_limits u = \<lparr>cpus = 0, jobs = 0, nodes = 0, submit_jobs = 0, uid = u\<rparr>"

text \<open>\<^verbatim>\<open>_valid_job_assoc\<close>: the result and the job, whose binding may be renewed.\<close>

definition valid_job_assoc :: "ctld \<Rightarrow> job_record \<Rightarrow> bool \<times> job_record" where
  "valid_job_assoc s job_ptr =
     (if (case assoc_ptr job_ptr of
            [] \<Rightarrow> True
          | a # _ \<Rightarrow> assoc_rec.id a \<noteq> assoc_id job_ptr \<or>
                     assoc_rec.uid a \<noteq> job_record.user_id job_ptr)
      then
        (case assoc_mgr_fill_in_assoc s (account job_ptr)
                (case part_ptr job_ptr of None \<Rightarrow> None | Some p \<Rightarrow> Some (part_record.name p))
                (job_record.user_id job_ptr) of
           (rc, ptr, new_id) \<Rightarrow>
             if rc \<noteq> 0 then (False, job_ptr\<lparr>assoc_ptr := ptr\<rparr>)
             else (True, job_ptr\<lparr>assoc_ptr := ptr, assoc_id := new_id\<rparr>))
      else (True, job_ptr))"

subsection \<open>The usage adjuster\<close>

text \<open>The idiom \<^verbatim>\<open>x -= d; if ((int32_t)x < 0) { x = 0; debug2(...); }\<close> of the
  \<^verbatim>\<open>ACCT_POLICY_JOB_FINI\<close> branches: the value stored and the message logged.\<close>

definition sub_clamp :: "uint32 \<Rightarrow> uint32 \<Rightarrow> uint32" where
  "sub_clamp x d = (if sint (x - d) < 0 then 0 else x - d)"

definition sub_clamp_log :: "uint32 \<Rightarrow> uint32 \<Rightarrow> debug_msg \<Rightarrow> debug_msg list" where
  "sub_clamp_log x d m = (if sint (x - d) < 0 then [m] else [])"

text \<open>The \<^verbatim>\<open>switch\<close> of \<^verbatim>\<open>_qos_adjust_limit_usage\<close> on the usage block of the QOS and the
  user's record (\<open>nm\<close> is \<^verbatim>\<open>qos_ptr->name\<close>): the two after the update, and the messages.\<close>

fun qos_usage_switch ::
  "acct_policy_type \<Rightarrow> job_record \<Rightarrow> string \<Rightarrow> uint32 \<Rightarrow> uint64 \<Rightarrow> uint32 \<Rightarrow>
   qos_usage \<Rightarrow> used_limits \<Rightarrow> qos_usage \<times> used_limits \<times> debug_msg list" where
  "qos_usage_switch ACCT_POLICY_ADD_SUBMIT job_ptr nm nodecnt secs mem g u =
     (g\<lparr>grp_used_submit_jobs := grp_used_submit_jobs g + 1\<rparr>,
      u\<lparr>submit_jobs := submit_jobs u + 1\<rparr>,
      [])"
| "qos_usage_switch ACCT_POLICY_REM_SUBMIT job_ptr nm nodecnt secs mem g u =
     ((if grp_used_submit_jobs g \<noteq> 0
       then g\<lparr>grp_used_submit_jobs := grp_used_submit_jobs g - 1\<rparr> else g),
      (if submit_jobs u \<noteq> 0 then u\<lparr>submit_jobs := submit_jobs u - 1\<rparr> else u),
      (if grp_used_submit_jobs g \<noteq> 0 then [] else [Qos_underflow Submit_jobs nm]) @
      (if submit_jobs u \<noteq> 0 then []
       else [Qos_user_underflow Submit_jobs nm (used_limits.uid u)]))"
| "qos_usage_switch ACCT_POLICY_JOB_BEGIN job_ptr nm nodecnt secs mem g u =
     (g\<lparr>grp_used_jobs := grp_used_jobs g + 1,
        qos_usage.grp_used_cpus := qos_usage.grp_used_cpus g + total_cpus job_ptr,
        qos_usage.grp_used_mem := qos_usage.grp_used_mem g + mem,
        qos_usage.grp_used_nodes := qos_usage.grp_used_nodes g + nodecnt,
        qos_usage.grp_used_cpu_run_secs := qos_usage.grp_used_cpu_run_secs g + secs\<rparr>,
      u\<lparr>jobs := jobs u + 1,
        cpus := cpus u + total_cpus job_ptr,
        nodes := nodes u + nodecnt\<rparr>,
      [])"
| "qos_usage_switch ACCT_POLICY_JOB_FINI job_ptr nm nodecnt secs mem g u =
     (g\<lparr>grp_used_jobs := sub_clamp (grp_used_jobs g) 1,
        qos_usage.grp_used_cpus := sub_clamp (qos_usage.grp_used_cpus g) (total_cpus job_ptr),
        qos_usage.grp_used_mem := sub_clamp (qos_usage.grp_used_mem g) mem,
        qos_usage.grp_used_nodes := sub_clamp (qos_usage.grp_used_nodes g) nodecnt\<rparr>,
      u\<lparr>cpus := sub_clamp (cpus u) (total_cpus job_ptr),
        jobs := sub_clamp (jobs u) 1,
        nodes := sub_clamp (nodes u) nodecnt\<rparr>,
      sub_clamp_log (grp_used_jobs g) 1 (Qos_underflow Used_jobs nm) @
      sub_clamp_log (qos_usage.grp_used_cpus g) (total_cpus job_ptr)
        (Qos_underflow Used_cpus nm) @
      sub_clamp_log (qos_usage.grp_used_mem g) mem (Qos_underflow Used_mem nm) @
      sub_clamp_log (qos_usage.grp_used_nodes g) nodecnt (Qos_underflow Used_nodes nm) @
      sub_clamp_log (cpus u) (total_cpus job_ptr)
        (Qos_user_underflow Used_cpus nm (used_limits.uid u)) @
      sub_clamp_log (jobs u) 1 (Qos_user_underflow Used_jobs nm (used_limits.uid u)) @
      sub_clamp_log (nodes u) nodecnt
        (Qos_user_underflow Used_nodes nm (used_limits.uid u)))"

text \<open>\<^verbatim>\<open>_qos_adjust_limit_usage\<close> on the record \<^verbatim>\<open>*qos_ptr\<close>: the list is created when it is
  NULL, the user's record is appended when the list has none, then the \<^verbatim>\<open>switch\<close> runs
  on the usage block and on that record, which is written back at its position.\<close>

definition qos_adjust_rec ::
  "acct_policy_type \<Rightarrow> job_record \<Rightarrow> uint32 \<Rightarrow> uint64 \<Rightarrow> uint32 \<Rightarrow> qos_rec \<Rightarrow>
   qos_rec \<times> debug_msg list" where
  "qos_adjust_rec ty job_ptr nodecnt secs mem q =
     (let l0 = (case user_limit_list (qos_rec.usage q) of None \<Rightarrow> [] | Some l \<Rightarrow> l);
          (l1, i) = (case list_find_uid l0 (job_record.user_id job_ptr) of
                       None \<Rightarrow> (l0 @ [new_used_limits (job_record.user_id job_ptr)], length l0)
                     | Some k \<Rightarrow> (l0, k));
          (g, u, msgs) = qos_usage_switch ty job_ptr (qos_rec.name q) nodecnt secs mem
                           (qos_rec.usage q) (l1 ! i)
      in (q\<lparr>qos_rec.usage := g\<lparr>user_limit_list := Some (l1[i := u])\<rparr>\<rparr>, msgs))"

definition qos_adjust_limit_usage ::
  "acct_policy_type \<Rightarrow> job_record \<Rightarrow> nat option \<Rightarrow> uint32 \<Rightarrow> uint64 \<Rightarrow> uint32 \<Rightarrow>
   ctld \<Rightarrow> ctld" where
  "qos_adjust_limit_usage ty job_ptr qos nodecnt secs mem s =
     (case qos of
        None \<Rightarrow> s
      | Some p \<Rightarrow>
          (let (q, msgs) = qos_adjust_rec ty job_ptr nodecnt secs mem (qos_heap s p)
           in s\<lparr>qos_heap := (qos_heap s)(p := q), debug_log := debug_log s @ msgs\<rparr>))"

text \<open>The \<^verbatim>\<open>switch\<close> of the loop of \<^verbatim>\<open>_adjust_limit_usage\<close> on the usage block of one
  association (\<open>nm\<close> is \<^verbatim>\<open>assoc_ptr->acct\<close>).\<close>

fun assoc_usage_switch ::
  "acct_policy_type \<Rightarrow> job_record \<Rightarrow> string \<Rightarrow> uint32 \<Rightarrow> uint64 \<Rightarrow> uint32 \<Rightarrow>
   assoc_usage \<Rightarrow> assoc_usage \<times> debug_msg list" where
  "assoc_usage_switch ACCT_POLICY_ADD_SUBMIT job_ptr nm nodecnt secs mem g =
     (g\<lparr>used_submit_jobs := used_submit_jobs g + 1\<rparr>, [])"
| "assoc_usage_switch ACCT_POLICY_REM_SUBMIT job_ptr nm nodecnt secs mem g =
     (if used_submit_jobs g \<noteq> 0
      then (g\<lparr>used_submit_jobs := used_submit_jobs g - 1\<rparr>, [])
      else (g, [Assoc_underflow Submit_jobs nm]))"
| "assoc_usage_switch ACCT_POLICY_JOB_BEGIN job_ptr nm nodecnt secs mem g =
     (g\<lparr>used_jobs := used_jobs g + 1,
        assoc_usage.grp_used_cpus := assoc_usage.grp_used_cpus g + total_cpus job_ptr,
        assoc_usage.grp_used_mem := assoc_usage.grp_used_mem g + mem,
        assoc_usage.grp_used_nodes := assoc_usage.grp_used_nodes g + nodecnt,
        assoc_usage.grp_used_cpu_run_secs := assoc_usage.grp_used_cpu_run_secs g + secs\<rparr>,
      [])"
| "assoc_usage_switch ACCT_POLICY_JOB_FINI job_ptr nm nodecnt secs mem g =
     (g\<lparr>used_jobs := (if used_jobs g \<noteq> 0 then used_jobs g - 1 else used_jobs g),
        assoc_usage.grp_used_cpus :=
          sub_clamp (assoc_usage.grp_used_cpus g) (total_cpus job_ptr),
        assoc_usage.grp_used_mem := sub_clamp (assoc_usage.grp_used_mem g) mem,
        assoc_usage.grp_used_nodes := sub_clamp (assoc_usage.grp_used_nodes g) nodecnt\<rparr>,
      (if used_jobs g \<noteq> 0 then [] else [Assoc_underflow Used_jobs nm]) @
      sub_clamp_log (assoc_usage.grp_used_cpus g) (total_cpus job_ptr)
        (Assoc_underflow Used_cpus nm) @
      sub_clamp_log (assoc_usage.grp_used_mem g) mem (Assoc_underflow Used_mem nm) @
      sub_clamp_log (assoc_usage.grp_used_nodes g) nodecnt (Assoc_underflow Used_nodes nm))"

text \<open>The loop \<^verbatim>\<open>while (assoc_ptr) { switch ...; assoc_ptr =
  assoc_ptr->usage->parent_assoc_ptr; }\<close> of \<^verbatim>\<open>_adjust_limit_usage\<close>.\<close>

fun adjust_assoc_chain ::
  "acct_policy_type \<Rightarrow> job_record \<Rightarrow> uint32 \<Rightarrow> uint64 \<Rightarrow> uint32 \<Rightarrow> assoc_rec list \<Rightarrow>
   assoc_rec list \<times> debug_msg list" where
  "adjust_assoc_chain ty job_ptr nodecnt secs mem [] = ([], [])"
| "adjust_assoc_chain ty job_ptr nodecnt secs mem (a # parents) =
     (let (g, msgs) = assoc_usage_switch ty job_ptr (acct a) nodecnt secs mem
                        (assoc_rec.usage a);
          (parents', msgs') = adjust_assoc_chain ty job_ptr nodecnt secs mem parents
      in (a\<lparr>assoc_rec.usage := g\<rparr> # parents', msgs @ msgs'))"

text \<open>\<^verbatim>\<open>job_memory\<close> as \<^verbatim>\<open>_adjust_limit_usage\<close> computes it (32-bit arithmetic).\<close>

definition adjust_job_memory :: "job_record \<Rightarrow> uint32 \<Rightarrow> uint32" where
  "adjust_job_memory job_ptr nodecnt =
     (case details job_ptr of
        None \<Rightarrow> 0
      | Some d \<Rightarrow>
          if pn_min_memory d = 0 then 0
          else if pn_min_memory d AND MEM_PER_CPU \<noteq> 0
               then (pn_min_memory d AND NOT MEM_PER_CPU) * total_cpus job_ptr
               else pn_min_memory d * nodecnt)"

text \<open>\<^verbatim>\<open>used_cpu_run_secs\<close> as \<^verbatim>\<open>_adjust_limit_usage\<close> computes it (64-bit arithmetic): set
  for \<^verbatim>\<open>ACCT_POLICY_JOB_BEGIN\<close> only, 0 otherwise.\<close>

definition adjust_used_cpu_run_secs :: "acct_policy_type \<Rightarrow> job_record \<Rightarrow> uint64" where
  "adjust_used_cpu_run_secs ty job_ptr =
     (if ty = ACCT_POLICY_JOB_BEGIN
      then (ucast (total_cpus job_ptr) :: uint64) * ucast (job_record.time_limit job_ptr) * 60
      else 0)"

text \<open>\<^verbatim>\<open>_adjust_limit_usage\<close>. \<open>job_end\<close> is the plugin call \<^verbatim>\<open>priority_g_job_end\<close>, which
  receives the job and may change it and the accounting state; it is not among the
  sources and is a parameter. The job comes back with the chain of its association
  updated.\<close>

definition adjust_limit_usage ::
  "(job_record \<Rightarrow> ctld \<Rightarrow> job_record \<times> ctld) \<Rightarrow> acct_policy_type \<Rightarrow> job_record \<Rightarrow> ctld \<Rightarrow>
   job_record \<times> ctld" where
  "adjust_limit_usage job_end ty job_ptr s =
     (if ACCOUNTING_ENFORCE_LIMITS \<notin> accounting_enforce s then (job_ptr, s)
      else
        (case valid_job_assoc s job_ptr of
           (False, job1) \<Rightarrow> (job1, s)
         | (True, job1) \<Rightarrow>
             (let nodecnt = node_cnt job1;
                  (job2, s2) = (if ty = ACCT_POLICY_JOB_FINI then job_end job1 s else (job1, s));
                  secs = adjust_used_cpu_run_secs ty job2;
                  mem = adjust_job_memory job2 nodecnt;
                  (qos_ptr_1, qos_ptr_2) = set_qos_order s2 job2;
                  s3 = qos_adjust_limit_usage ty job2 qos_ptr_1 nodecnt secs mem s2;
                  s4 = qos_adjust_limit_usage ty job2 qos_ptr_2 nodecnt secs mem s3;
                  (chain, msgs) = adjust_assoc_chain ty job2 nodecnt secs mem (assoc_ptr job2)
              in (job2\<lparr>assoc_ptr := chain\<rparr>, s4\<lparr>debug_log := debug_log s4 @ msgs\<rparr>))))"

text \<open>The four entry points.\<close>

definition acct_policy_add_job_submit ::
  "(job_record \<Rightarrow> ctld \<Rightarrow> job_record \<times> ctld) \<Rightarrow> job_record \<Rightarrow> ctld \<Rightarrow> job_record \<times> ctld" where
  "acct_policy_add_job_submit job_end job_ptr s =
     adjust_limit_usage job_end ACCT_POLICY_ADD_SUBMIT job_ptr s"

definition acct_policy_remove_job_submit ::
  "(job_record \<Rightarrow> ctld \<Rightarrow> job_record \<times> ctld) \<Rightarrow> job_record \<Rightarrow> ctld \<Rightarrow> job_record \<times> ctld" where
  "acct_policy_remove_job_submit job_end job_ptr s =
     adjust_limit_usage job_end ACCT_POLICY_REM_SUBMIT job_ptr s"

definition acct_policy_job_begin ::
  "(job_record \<Rightarrow> ctld \<Rightarrow> job_record \<times> ctld) \<Rightarrow> job_record \<Rightarrow> ctld \<Rightarrow> job_record \<times> ctld" where
  "acct_policy_job_begin job_end job_ptr s =
     adjust_limit_usage job_end ACCT_POLICY_JOB_BEGIN job_ptr s"

definition acct_policy_job_fini ::
  "(job_record \<Rightarrow> ctld \<Rightarrow> job_record \<times> ctld) \<Rightarrow> job_record \<Rightarrow> ctld \<Rightarrow> job_record \<times> ctld" where
  "acct_policy_job_fini job_end job_ptr s =
     (if end_time_exp job_ptr \<noteq> uint NO_VAL
      then adjust_limit_usage job_end ACCT_POLICY_JOB_FINI job_ptr s
      else (job_ptr, s))"

subsection \<open>The submit-time validator\<close>

text \<open>What stops a C function short of returning: the file divides by a count that may
  be zero and reads \<^verbatim>\<open>part_ptr->max_time\<close> without testing the pointer.\<close>

datatype fault = Division_by_zero | Null_dereference

text \<open>Modelled from the spec: \<^verbatim>\<open>slurmdb_init_qos_rec(&qos_rec, 0, INFINITE)\<close> of
  slurmdb\_defs.c, which is not among the sources: the scratch record "initialised to
  INF" in every limit. Its usage block is never read.\<close>

definition slurmdb_init_qos_rec :: qos_rec where
  "slurmdb_init_qos_rec =
     \<lparr>qos_rec.name = [], flags = {},
      grp_cpu_mins = ucast INFINITE, grp_cpu_run_mins = ucast INFINITE,
      grp_cpus = INFINITE, grp_jobs = INFINITE, grp_mem = INFINITE, grp_nodes = INFINITE,
      grp_submit_jobs = INFINITE, grp_wall = INFINITE,
      max_cpu_mins_pj = ucast INFINITE, max_cpus_pj = INFINITE, max_cpus_pu = INFINITE,
      max_jobs_pu = INFINITE, max_nodes_pj = INFINITE, max_nodes_pu = INFINITE,
      max_submit_jobs_pu = INFINITE, max_wall_pj = INFINITE, min_cpus_pj = INFINITE,
      usage = \<lparr>qos_usage.grp_used_cpus = 0, grp_used_cpu_run_secs = 0, grp_used_jobs = 0,
               grp_used_mem = 0, grp_used_nodes = 0, grp_used_submit_jobs = 0,
               grp_used_wall = 0, usage_raw = 0, user_limit_list = None\<rparr>\<rparr>"

text \<open>What the validator reads and writes through its pointer arguments: \<^verbatim>\<open>*job_desc\<close>,
  the scratch record \<^verbatim>\<open>*qos_out_ptr\<close>, \<^verbatim>\<open>reason\<close> (\<open>None\<close> for a NULL pointer, else what it
  points to) and \<^verbatim>\<open>*acct_policy_limit_set\<close>.\<close>

record validate_vars =
  v_job_desc :: job_desc_msg
  v_qos_out :: qos_rec
  v_reason :: "job_state_reason option"
  v_limit_set :: acct_policy_limit_set

text \<open>\<^verbatim>\<open>if (reason) *reason = r;\<close>\<close>

definition set_reason :: "job_state_reason \<Rightarrow> validate_vars \<Rightarrow> validate_vars" where
  "set_reason r v = v\<lparr>v_reason := (case v_reason v of None \<Rightarrow> None | Some x \<Rightarrow> Some r)\<rparr>"

text \<open>The checks of \<^verbatim>\<open>_qos_policy_validate\<close>, in the order of the source. Each gives
  \<open>(go_on, vars)\<close>: \<open>go_on\<close> is false where the source sets \<^verbatim>\<open>rc = false\<close> and jumps to
  \<^verbatim>\<open>end_it\<close>.\<close>

text \<open>Lines 442 to 494: the per-user and the group cpu limits.\<close>

definition qos_validate_cpus ::
  "qos_rec \<Rightarrow> bool \<Rightarrow> bool \<Rightarrow> validate_vars \<Rightarrow> bool \<times> validate_vars" where
  "qos_validate_cpus q update_call strict_checking v =
     (let out = v_qos_out v;
          req = tres_req_cnt (v_job_desc v) TRES_ARRAY_CPU;
          qos_max_cpus_limit = min (qos_rec.grp_cpus q) (max_cpus_pu q);
          qos_out_max_cpus_limit = min (qos_rec.grp_cpus out) (max_cpus_pu out)
      in if max_tres (v_limit_set v) TRES_ARRAY_CPU = ADMIN_SET_LIMIT
            \<or> qos_out_max_cpus_limit \<noteq> INFINITE
            \<or> qos_max_cpus_limit = INFINITE
            \<or> (update_call \<and> req = ucast NO_VAL)
         then (True, v)
         else if strict_checking \<and> req \<noteq> ucast NO_VAL
         then
           (let out1 = (if max_cpus_pu out = INFINITE
                        then out\<lparr>max_cpus_pu := max_cpus_pu q\<rparr> else out);
                out2 = (if qos_rec.grp_cpus out1 = INFINITE
                        then out1\<lparr>qos_rec.grp_cpus := qos_rec.grp_cpus q\<rparr> else out1);
                v2 = v\<lparr>v_qos_out := out2\<rparr>
            in if req > ucast (max_cpus_pu q)
               then (False, set_reason WAIT_QOS_MAX_CPU_PER_USER v2)
               else if req > ucast (qos_rec.grp_cpus q)
               then (False, set_reason WAIT_QOS_GRP_CPU v2)
               else (True, v2))
         else (True, v))"

text \<open>Lines 499 to 519: the group memory limit.\<close>

definition qos_validate_mem ::
  "qos_rec \<Rightarrow> uint32 \<Rightarrow> bool \<Rightarrow> validate_vars \<Rightarrow> bool \<times> validate_vars" where
  "qos_validate_mem q job_memory strict_checking v =
     (let out = v_qos_out v
      in if max_tres (v_limit_set v) TRES_ARRAY_MEM = 0 \<and> strict_checking
            \<and> qos_rec.grp_mem out = INFINITE \<and> qos_rec.grp_mem q \<noteq> INFINITE
         then
           (let v2 = v\<lparr>v_qos_out := out\<lparr>qos_rec.grp_mem := qos_rec.grp_mem q\<rparr>\<rparr>
            in if job_memory > qos_rec.grp_mem q
               then (False, set_reason WAIT_QOS_GRP_MEMORY v2)
               else (True, v2))
         else (True, v))"

text \<open>Lines 521 to 566: the per-user and the group node limits.\<close>

definition qos_validate_nodes ::
  "qos_rec \<Rightarrow> bool \<Rightarrow> bool \<Rightarrow> validate_vars \<Rightarrow> bool \<times> validate_vars" where
  "qos_validate_nodes q update_call strict_checking v =
     (let out = v_qos_out v;
          jd = v_job_desc v;
          qos_max_nodes_limit = min (qos_rec.grp_nodes q) (max_nodes_pu q);
          qos_out_max_nodes_limit = min (qos_rec.grp_nodes out) (max_nodes_pu out)
      in if acct_policy_limit_set.max_nodes (v_limit_set v) = ADMIN_SET_LIMIT
            \<or> qos_out_max_nodes_limit \<noteq> INFINITE
            \<or> qos_max_nodes_limit = INFINITE
            \<or> (update_call \<and> job_desc_msg.max_nodes jd = NO_VAL)
         then (True, v)
         else if strict_checking \<and> job_desc_msg.min_nodes jd \<noteq> NO_VAL
         then
           (let out1 = (if max_nodes_pu out = INFINITE
                        then out\<lparr>max_nodes_pu := max_nodes_pu q\<rparr> else out);
                out2 = (if qos_rec.grp_nodes out1 = INFINITE
                        then out1\<lparr>qos_rec.grp_nodes := qos_rec.grp_nodes q\<rparr> else out1);
                v2 = v\<lparr>v_qos_out := out2\<rparr>
            in if job_desc_msg.min_nodes jd > max_nodes_pu q
               then (False, set_reason WAIT_QOS_MAX_NODE_PER_USER v2)
               else if job_desc_msg.min_nodes jd > qos_rec.grp_nodes q
               then (False, set_reason WAIT_QOS_GRP_NODES v2)
               else (True, v2))
         else (True, v))"

text \<open>Lines 568 to 587: the group limit of submitted jobs; \<^verbatim>\<open>job_cnt\<close> is an \<^verbatim>\<open>int\<close> added
  to an unsigned counter.\<close>

definition qos_validate_grp_submit_jobs ::
  "qos_rec \<Rightarrow> int \<Rightarrow> validate_vars \<Rightarrow> bool \<times> validate_vars" where
  "qos_validate_grp_submit_jobs q job_cnt v =
     (let out = v_qos_out v
      in if qos_rec.grp_submit_jobs out = INFINITE \<and> qos_rec.grp_submit_jobs q \<noteq> INFINITE
         then
           (let v2 = v\<lparr>v_qos_out := out\<lparr>qos_rec.grp_submit_jobs := qos_rec.grp_submit_jobs q\<rparr>\<rparr>
            in if grp_used_submit_jobs (qos_rec.usage q) + word_of_int job_cnt
                  > qos_rec.grp_submit_jobs q
               then (False, set_reason WAIT_QOS_GRP_SUB_JOB v2)
               else (True, v2))
         else (True, v))"

text \<open>Lines 599 to 611: the cpu minutes per job, which give \<^verbatim>\<open>qos_time_limit\<close> (the
  second component); the division traps when \<^verbatim>\<open>cpu_cnt\<close> is 0.\<close>

definition qos_validate_cpu_mins ::
  "qos_rec \<Rightarrow> uint32 \<Rightarrow> validate_vars \<Rightarrow> fault + (uint32 \<times> validate_vars)" where
  "qos_validate_cpu_mins q qos_time_limit v =
     (let out = v_qos_out v;
          jd = v_job_desc v;
          req = tres_req_cnt jd TRES_ARRAY_CPU
      in if (req \<noteq> ucast NO_VAL \<or> job_desc_msg.min_nodes jd \<noteq> NO_VAL)
            \<and> max_cpu_mins_pj out = ucast INFINITE
            \<and> max_cpu_mins_pj q \<noteq> ucast INFINITE
         then
           (let v2 = v\<lparr>v_qos_out := out\<lparr>max_cpu_mins_pj := max_cpu_mins_pj q\<rparr>\<rparr>;
                cpu_cnt = (if job_desc_msg.min_nodes jd = NO_VAL
                              \<or> req > ucast (job_desc_msg.min_nodes jd)
                           then (ucast req :: uint32) else job_desc_msg.min_nodes jd)
            in if cpu_cnt = 0 then Inl Division_by_zero
               else Inr (ucast (max_cpu_mins_pj q div ucast cpu_cnt), v2))
         else Inr (qos_time_limit, v))"

text \<open>Lines 613 to 637: the cpus per job. The second operand of the guard is the
  assignment \<^verbatim>\<open>qos_out_ptr->max_cpus_pj |= INFINITE\<close>, evaluated when the first operand is
  false; its value is what it stores.\<close>

definition qos_validate_max_cpus_pj ::
  "qos_rec \<Rightarrow> bool \<Rightarrow> bool \<Rightarrow> validate_vars \<Rightarrow> bool \<times> validate_vars" where
  "qos_validate_max_cpus_pj q update_call strict_checking v =
     (let req = tres_req_cnt (v_job_desc v) TRES_ARRAY_CPU
      in if max_tres (v_limit_set v) TRES_ARRAY_CPU = ADMIN_SET_LIMIT then (True, v)
         else
           (let out = (v_qos_out v)\<lparr>max_cpus_pj := max_cpus_pj (v_qos_out v) OR INFINITE\<rparr>;
                v1 = v\<lparr>v_qos_out := out\<rparr>
            in if max_cpus_pj out \<noteq> 0
                  \<or> max_cpus_pj q = INFINITE
                  \<or> (update_call \<and> req = ucast NO_VAL)
               then (True, v1)
               else if strict_checking \<and> req \<noteq> ucast NO_VAL
               then
                 (let v2 = v1\<lparr>v_qos_out := out\<lparr>max_cpus_pj := max_cpus_pj q\<rparr>\<rparr>
                  in if req > ucast (max_cpus_pj q)
                     then (False, set_reason WAIT_QOS_MAX_CPUS_PER_JOB v2)
                     else (True, v2))
               else (True, v1)))"

text \<open>Lines 643 to 665: the nodes per job.\<close>

definition qos_validate_max_nodes_pj ::
  "qos_rec \<Rightarrow> bool \<Rightarrow> bool \<Rightarrow> validate_vars \<Rightarrow> bool \<times> validate_vars" where
  "qos_validate_max_nodes_pj q update_call strict_checking v =
     (let out = v_qos_out v;
          jd = v_job_desc v
      in if acct_policy_limit_set.max_nodes (v_limit_set v) = ADMIN_SET_LIMIT
            \<or> qos_rec.max_nodes_pj out \<noteq> INFINITE
            \<or> qos_rec.max_nodes_pj q = INFINITE
            \<or> (update_call \<and> job_desc_msg.max_nodes jd = NO_VAL)
         then (True, v)
         else if strict_checking \<and> job_desc_msg.min_nodes jd \<noteq> NO_VAL
         then
           (let v2 = v\<lparr>v_qos_out := out\<lparr>qos_rec.max_nodes_pj := qos_rec.max_nodes_pj q\<rparr>\<rparr>
            in if job_desc_msg.min_nodes jd > qos_rec.max_nodes_pj q
               then (False, set_reason WAIT_QOS_MAX_NODE_PER_JOB v2)
               else (True, v2))
         else (True, v))"

text \<open>Lines 667 to 689: the submitted jobs per user.\<close>

definition qos_validate_max_submit_jobs_pu ::
  "qos_rec \<Rightarrow> int \<Rightarrow> validate_vars \<Rightarrow> bool \<times> validate_vars" where
  "qos_validate_max_submit_jobs_pu q job_cnt v =
     (let out = v_qos_out v
      in if max_submit_jobs_pu out = INFINITE \<and> max_submit_jobs_pu q \<noteq> INFINITE
         then
           (let used = get_used_limits_for_user (user_limit_list (qos_rec.usage q))
                         (job_desc_msg.user_id (v_job_desc v));
                v2 = v\<lparr>v_qos_out := out\<lparr>max_submit_jobs_pu := max_submit_jobs_pu q\<rparr>\<rparr>
            in if (case used of
                     None \<Rightarrow> max_submit_jobs_pu q = 0
                   | Some u \<Rightarrow> submit_jobs u + word_of_int job_cnt > max_submit_jobs_pu q)
               then (False, set_reason WAIT_QOS_MAX_SUB_JOB v2)
               else (True, v2))
         else (True, v))"

text \<open>Lines 691 to 702: the wall time per job lowers \<^verbatim>\<open>qos_time_limit\<close>.\<close>

definition qos_validate_max_wall_pj ::
  "qos_rec \<Rightarrow> bool \<Rightarrow> uint32 \<Rightarrow> validate_vars \<Rightarrow> uint32 \<times> validate_vars" where
  "qos_validate_max_wall_pj q update_call qos_time_limit v =
     (let out = v_qos_out v
      in if acct_policy_limit_set.time (v_limit_set v) = ADMIN_SET_LIMIT
            \<or> qos_rec.max_wall_pj out \<noteq> INFINITE
            \<or> qos_rec.max_wall_pj q = INFINITE
            \<or> (update_call \<and> job_desc_msg.time_limit (v_job_desc v) = NO_VAL)
         then (qos_time_limit, v)
         else
           (if qos_time_limit > qos_rec.max_wall_pj q then qos_rec.max_wall_pj q
            else qos_time_limit,
            v\<lparr>v_qos_out := out\<lparr>qos_rec.max_wall_pj := qos_rec.max_wall_pj q\<rparr>\<rparr>))"

text \<open>The clipping of the job's time limit against a cap \<open>cap\<close>, which lines 704 to 729
  (cap \<^verbatim>\<open>qos_time_limit\<close>, reason \<^verbatim>\<open>WAIT_QOS_MAX_WALL_PER_JOB\<close>) and lines 1808 to 1831 (cap
  \<^verbatim>\<open>assoc_ptr->max_wall_pj\<close>, reason \<^verbatim>\<open>WAIT_ASSOC_MAX_WALL_PER_JOB\<close>) write out alike.
  \<^verbatim>\<open>part_ptr->max_time\<close> is read without a test of \<^verbatim>\<open>part_ptr\<close>.\<close>

definition clip_time_limit ::
  "part_record option \<Rightarrow> uint32 \<Rightarrow> job_state_reason \<Rightarrow> bool \<Rightarrow> validate_vars \<Rightarrow>
   fault + (bool \<times> validate_vars)" where
  "clip_time_limit part cap r strict_checking v =
     (let jd = v_job_desc v;
          lim = v_limit_set v
      in if job_desc_msg.time_limit jd = NO_VAL
         then
           (case part of
              None \<Rightarrow> Inl Null_dereference
            | Some p \<Rightarrow>
                Inr (True,
                     v\<lparr>v_job_desc :=
                         jd\<lparr>job_desc_msg.time_limit :=
                              (if max_time p = INFINITE then cap else min cap (max_time p))\<rparr>,
                       v_limit_set := lim\<lparr>acct_policy_limit_set.time := 1\<rparr>\<rparr>))
         else if acct_policy_limit_set.time lim \<noteq> 0 \<and> job_desc_msg.time_limit jd > cap
         then Inr (True, v\<lparr>v_job_desc := jd\<lparr>job_desc_msg.time_limit := cap\<rparr>\<rparr>)
         else if strict_checking \<and> job_desc_msg.time_limit jd > cap
         then Inr (False, set_reason r v)
         else Inr (True, v))"

text \<open>Lines 704 to 729.\<close>

definition qos_validate_time ::
  "part_record option \<Rightarrow> bool \<Rightarrow> uint32 \<Rightarrow> validate_vars \<Rightarrow> fault + (bool \<times> validate_vars)" where
  "qos_validate_time part strict_checking qos_time_limit v =
     (if qos_time_limit \<noteq> INFINITE
      then clip_time_limit part qos_time_limit WAIT_QOS_MAX_WALL_PER_JOB strict_checking v
      else Inr (True, v))"

text \<open>Lines 731 to 750: the minimum of cpus per job.\<close>

definition qos_validate_min_cpus ::
  "qos_rec \<Rightarrow> bool \<Rightarrow> validate_vars \<Rightarrow> bool \<times> validate_vars" where
  "qos_validate_min_cpus q strict_checking v =
     (let out = v_qos_out v
      in if strict_checking \<and> min_cpus_pj out = INFINITE \<and> min_cpus_pj q \<noteq> INFINITE
         then
           (let v2 = v\<lparr>v_qos_out := out\<lparr>min_cpus_pj := min_cpus_pj q\<rparr>\<rparr>
            in if tres_req_cnt (v_job_desc v) TRES_ARRAY_CPU < ucast (min_cpus_pj q)
               then (False, set_reason WAIT_QOS_MIN_CPUS v2)
               else (True, v2))
         else (True, v))"

text \<open>\<^verbatim>\<open>_qos_policy_validate\<close>: \<open>qos\<close> is \<^verbatim>\<open>qos_ptr\<close>; \<^verbatim>\<open>qos_out_ptr\<close> is the address of the
  caller's scratch record and never NULL. The result is \<^verbatim>\<open>rc\<close> with the variables written
  through the pointers.\<close>

definition qos_policy_validate ::
  "ctld \<Rightarrow> part_record option \<Rightarrow> nat option \<Rightarrow> bool \<Rightarrow> uint32 \<Rightarrow> int \<Rightarrow> bool \<Rightarrow>
   validate_vars \<Rightarrow> fault + (bool \<times> validate_vars)" where
  "qos_policy_validate s part qos update_call job_memory job_cnt strict_checking v0 =
     (case qos of
        None \<Rightarrow> Inr (True, v0)
      | Some p \<Rightarrow>
          (let q = qos_heap s p;
               (ok1, v1) = qos_validate_cpus q update_call strict_checking v0
           in if \<not> ok1 then Inr (False, v1) else
          (let (ok2, v2) = qos_validate_mem q job_memory strict_checking v1
           in if \<not> ok2 then Inr (False, v2) else
          (let (ok3, v3) = qos_validate_nodes q update_call strict_checking v2
           in if \<not> ok3 then Inr (False, v3) else
          (let (ok4, v4) = qos_validate_grp_submit_jobs q job_cnt v3
           in if \<not> ok4 then Inr (False, v4) else
          (case qos_validate_cpu_mins q INFINITE v4 of
             Inl f \<Rightarrow> Inl f
           | Inr (t5, v5) \<Rightarrow>
          (let (ok6, v6) = qos_validate_max_cpus_pj q update_call strict_checking v5
           in if \<not> ok6 then Inr (False, v6) else
          (let (ok7, v7) = qos_validate_max_nodes_pj q update_call strict_checking v6
           in if \<not> ok7 then Inr (False, v7) else
          (let (ok8, v8) = qos_validate_max_submit_jobs_pu q job_cnt v7
           in if \<not> ok8 then Inr (False, v8) else
          (let (t9, v9) = qos_validate_max_wall_pj q update_call t5 v8
           in (case qos_validate_time part strict_checking t9 v9 of
                 Inl f \<Rightarrow> Inl f
               | Inr (ok10, v10) \<Rightarrow>
                   if \<not> ok10 then Inr (False, v10)
                   else Inr (qos_validate_min_cpus q strict_checking v10))))))))))))"

text \<open>\<^verbatim>\<open>_validate_tres_limits\<close>: the result and \<^verbatim>\<open>*tres_pos\<close>. The loop over the positions
  below \<^verbatim>\<open>g_tres_count\<close> stops at the first limit the request exceeds.\<close>

fun validate_tres_scan ::
  "nat list \<Rightarrow> (nat \<Rightarrow> uint64) \<Rightarrow> (nat \<Rightarrow> uint64) \<Rightarrow> (nat \<Rightarrow> uint64) \<Rightarrow> (nat \<Rightarrow> uint16) \<Rightarrow> bool \<Rightarrow>
   nat option" where
  "validate_tres_scan [] job_tres assoc_tres qos_tres admin_set update_call = None"
| "validate_tres_scan (pos # rest) job_tres assoc_tres qos_tres admin_set update_call =
     (if admin_set pos \<noteq> ADMIN_SET_LIMIT
         \<and> qos_tres pos = ucast INFINITE
         \<and> assoc_tres pos \<noteq> ucast INFINITE
         \<and> (job_tres pos \<noteq> 0 \<or> \<not> update_call)
         \<and> job_tres pos > assoc_tres pos
      then Some pos
      else validate_tres_scan rest job_tres assoc_tres qos_tres admin_set update_call)"

definition validate_tres_limits ::
  "ctld \<Rightarrow> nat \<Rightarrow> (nat \<Rightarrow> uint64) \<Rightarrow> (nat \<Rightarrow> uint64) \<Rightarrow> (nat \<Rightarrow> uint64) \<Rightarrow> (nat \<Rightarrow> uint16) \<Rightarrow>
   bool \<Rightarrow> bool \<Rightarrow> bool \<times> nat" where
  "validate_tres_limits s tres_pos job_tres assoc_tres qos_tres admin_set strict_checking
     update_call =
     (if \<not> strict_checking then (True, tres_pos)
      else
        (case validate_tres_scan [0..<g_tres_count s] job_tres assoc_tres qos_tres admin_set
                update_call of
           None \<Rightarrow> (True, g_tres_count s)
         | Some pos \<Rightarrow> (False, pos)))"

text \<open>The body of the loop of \<^verbatim>\<open>acct_policy_validate\<close> up to the test of \<^verbatim>\<open>parent\<close>
  (lines 1645 to 1714): the group limits, checked at every association of the chain.
  \<^verbatim>\<open>qos_tres_ctld\<close> is cleared before the loop, its positions cpu and memory are written
  before every use, and no other position is ever written.\<close>

definition validate_assoc_grp ::
  "ctld \<Rightarrow> assoc_rec \<Rightarrow> bool \<Rightarrow> int \<Rightarrow> bool \<Rightarrow> validate_vars \<Rightarrow> bool \<times> validate_vars" where
  "validate_assoc_grp s a update_call job_cnt strict_checking v =
     (let qrec = v_qos_out v;
          jd = v_job_desc v;
          qos_tres1 = (\<lambda>pos. 0)(TRES_ARRAY_CPU := ucast (qos_rec.grp_cpus qrec),
                               TRES_ARRAY_MEM := ucast (qos_rec.grp_mem qrec))
      in if \<not> fst (validate_tres_limits s 0 (tres_req_cnt jd) (grp_tres_ctld a) qos_tres1
                     (max_tres (v_limit_set v)) strict_checking update_call)
         then (False, set_reason WAIT_ASSOC_GRP_CPU v)
         else if \<not> (acct_policy_limit_set.max_nodes (v_limit_set v) = ADMIN_SET_LIMIT
                     \<or> qos_rec.grp_nodes qrec \<noteq> INFINITE
                     \<or> assoc_rec.grp_nodes a = INFINITE
                     \<or> (update_call \<and> job_desc_msg.max_nodes jd = NO_VAL))
                 \<and> strict_checking \<and> job_desc_msg.min_nodes jd \<noteq> NO_VAL
                 \<and> job_desc_msg.min_nodes jd > assoc_rec.grp_nodes a
         then (False, set_reason WAIT_ASSOC_GRP_NODES v)
         else if qos_rec.grp_submit_jobs qrec = INFINITE
                 \<and> assoc_rec.grp_submit_jobs a \<noteq> INFINITE
                 \<and> used_submit_jobs (assoc_rec.usage a) + word_of_int job_cnt
                     > assoc_rec.grp_submit_jobs a
         then (False, set_reason WAIT_ASSOC_GRP_SUB_JOB v)
         else (True, v))"

text \<open>The rest of the body (lines 1734 to 1832): the limits of the job's own
  association, which the source skips for its parents.\<close>

definition validate_assoc_max ::
  "ctld \<Rightarrow> part_record option \<Rightarrow> assoc_rec \<Rightarrow> bool \<Rightarrow> int \<Rightarrow> bool \<Rightarrow> validate_vars \<Rightarrow>
   fault + (bool \<times> validate_vars)" where
  "validate_assoc_max s part a update_call job_cnt strict_checking v =
     (let qrec = v_qos_out v;
          jd = v_job_desc v;
          qos_tres2 = (\<lambda>pos. 0)(TRES_ARRAY_CPU := ucast (max_cpus_pj qrec),
                               TRES_ARRAY_MEM := ucast INFINITE)
      in if \<not> fst (validate_tres_limits s 0 (tres_req_cnt jd) (max_tres_ctld a) qos_tres2
                     (max_tres (v_limit_set v)) strict_checking update_call)
         then Inr (False, set_reason WAIT_ASSOC_MAX_CPUS_PER_JOB v)
         else if \<not> (acct_policy_limit_set.max_nodes (v_limit_set v) = ADMIN_SET_LIMIT
                     \<or> qos_rec.max_nodes_pj qrec \<noteq> INFINITE
                     \<or> assoc_rec.max_nodes_pj a = INFINITE
                     \<or> (update_call \<and> job_desc_msg.max_nodes jd = NO_VAL))
                 \<and> strict_checking \<and> job_desc_msg.min_nodes jd \<noteq> NO_VAL
                 \<and> job_desc_msg.min_nodes jd > assoc_rec.max_nodes_pj a
         then Inr (False, set_reason WAIT_ASSOC_MAX_NODE_PER_JOB v)
         else if max_submit_jobs_pu qrec = INFINITE
                 \<and> max_submit_jobs a \<noteq> INFINITE
                 \<and> used_submit_jobs (assoc_rec.usage a) + word_of_int job_cnt
                     > max_submit_jobs a
         then Inr (False, set_reason WAIT_ASSOC_MAX_SUB_JOB v)
         else if acct_policy_limit_set.time (v_limit_set v) = ADMIN_SET_LIMIT
                 \<or> qos_rec.max_wall_pj qrec \<noteq> INFINITE
                 \<or> assoc_rec.max_wall_pj a = INFINITE
                 \<or> (update_call \<and> job_desc_msg.time_limit jd = NO_VAL)
         then Inr (True, v)
         else clip_time_limit part (assoc_rec.max_wall_pj a) WAIT_ASSOC_MAX_WALL_PER_JOB
                strict_checking v)"

text \<open>The loop \<^verbatim>\<open>while (assoc_ptr)\<close> of \<^verbatim>\<open>acct_policy_validate\<close>; \<open>parent\<close> is the flag of
  the source.\<close>

fun validate_assoc_chain ::
  "ctld \<Rightarrow> part_record option \<Rightarrow> bool \<Rightarrow> int \<Rightarrow> bool \<Rightarrow> bool \<Rightarrow> assoc_rec list \<Rightarrow>
   validate_vars \<Rightarrow> fault + (bool \<times> validate_vars)" where
  "validate_assoc_chain s part update_call job_cnt strict_checking parent [] v = Inr (True, v)"
| "validate_assoc_chain s part update_call job_cnt strict_checking parent (a # parents) v =
     (case validate_assoc_grp s a update_call job_cnt strict_checking v of
        (False, v1) \<Rightarrow> Inr (False, v1)
      | (True, v1) \<Rightarrow>
          if parent
          then validate_assoc_chain s part update_call job_cnt strict_checking True parents v1
          else
            (case validate_assoc_max s part a update_call job_cnt strict_checking v1 of
               Inl f \<Rightarrow> Inl f
             | Inr (False, v2) \<Rightarrow> Inr (False, v2)
             | Inr (True, v2) \<Rightarrow>
                 validate_assoc_chain s part update_call job_cnt strict_checking True parents
                   v2))"

text \<open>\<^verbatim>\<open>bit_set_count\<close> of bitstring.c, which is not among the sources: the number of bits
  that are set.\<close>

definition bit_set_count :: "bool list \<Rightarrow> int" where
  "bit_set_count b = int (length (filter (\<lambda>x. x) b))"

text \<open>The local \<^verbatim>\<open>struct job_record job_rec\<close> of \<^verbatim>\<open>acct_policy_validate\<close>, of which only
  \<^verbatim>\<open>qos_ptr\<close> and \<^verbatim>\<open>part_ptr\<close> are assigned and read.\<close>

definition validate_job_rec :: "nat option \<Rightarrow> part_record option \<Rightarrow> job_record" where
  "validate_job_rec qos part =
     \<lparr>account = [], assoc_id = 0, assoc_ptr = [], details = None, end_time_exp = 0,
      job_id = 0,
      limit_set = \<lparr>acct_policy_limit_set.max_nodes = 0, max_tres = (\<lambda>pos. 0), min_nodes = 0, min_tres = (\<lambda>pos. 0),
                   time = 0\<rparr>,
      node_cnt = 0, part_ptr = part, qos_ptr = qos, start_time = 0, state_desc = None,
      state_reason = WAIT_NO_REASON, time_limit = 0, tot_sus_time = 0, total_cpus = 0,
      user_id = 0\<rparr>"

text \<open>\<^verbatim>\<open>acct_policy_validate\<close>. \<open>assoc_in\<close> is the chain of the association given (empty
  for NULL), \<open>qos\<close> the QOS pointer, \<open>reason\<close> what \<^verbatim>\<open>reason\<close> points to (\<open>None\<close> for NULL).
  The result is the return value with \<^verbatim>\<open>*job_desc\<close>, \<^verbatim>\<open>*reason\<close> and
  \<^verbatim>\<open>*acct_policy_limit_set\<close> as the call leaves them.\<close>

definition acct_policy_validate ::
  "ctld \<Rightarrow> job_desc_msg \<Rightarrow> part_record option \<Rightarrow> assoc_rec list \<Rightarrow> nat option \<Rightarrow>
   job_state_reason option \<Rightarrow> acct_policy_limit_set \<Rightarrow> bool \<Rightarrow>
   fault + (bool \<times> job_desc_msg \<times> job_state_reason option \<times> acct_policy_limit_set)" where
  "acct_policy_validate s job_desc part assoc_in qos reason lim update_call =
     (if assoc_in = [] then Inr (False, job_desc, reason, lim)
      else
        (let job_cnt = (case array_bitmap job_desc of None \<Rightarrow> 1 | Some b \<Rightarrow> bit_set_count b);
             v0 = \<lparr>v_job_desc = job_desc, v_qos_out = slurmdb_init_qos_rec,
                   v_reason = reason, v_limit_set = lim\<rparr>;
             (qos_ptr_1, qos_ptr_2) = set_qos_order s (validate_job_rec qos part);
             job_memory = (ucast (tres_req_cnt job_desc TRES_ARRAY_MEM) :: uint32);
             strict_checking =
               (case qos_ptr_1 of
                  None \<Rightarrow> reason \<noteq> None
                | Some p1 \<Rightarrow>
                    (let sc = (reason \<noteq> None \<or> QOS_FLAG_DENY_LIMIT \<in> flags (qos_heap s p1))
                     in case qos_ptr_2 of
                          None \<Rightarrow> sc
                        | Some p2 \<Rightarrow>
                            if \<not> sc then QOS_FLAG_DENY_LIMIT \<in> flags (qos_heap s p2)
                            else sc));
             r = (case qos_ptr_1 of
                    None \<Rightarrow> validate_assoc_chain s part update_call job_cnt strict_checking False
                              assoc_in v0
                  | Some p1 \<Rightarrow>
                      (case qos_policy_validate s part qos_ptr_1 update_call job_memory job_cnt
                              strict_checking v0 of
                         Inl f \<Rightarrow> Inl f
                       | Inr (False, v1) \<Rightarrow> Inr (False, v1)
                       | Inr (True, v1) \<Rightarrow>
                           (case qos_policy_validate s part qos_ptr_2 update_call job_memory
                                   job_cnt strict_checking v1 of
                              Inl f \<Rightarrow> Inl f
                            | Inr (False, v2) \<Rightarrow> Inr (False, v2)
                            | Inr (True, v2) \<Rightarrow>
                                validate_assoc_chain s part update_call job_cnt strict_checking
                                  False assoc_in v2)))
         in (case r of
               Inl f \<Rightarrow> Inl f
             | Inr (rc, v) \<Rightarrow> Inr (rc, v_job_desc v, v_reason v, v_limit_set v))))"

subsection \<open>The runnable checks\<close>

text \<open>\<^verbatim>\<open>acct_policy_job_runnable_state\<close>: the range test compares the numeric values of
  the codes.\<close>

definition acct_policy_job_runnable_state :: "ctld \<Rightarrow> job_record \<Rightarrow> bool" where
  "acct_policy_job_runnable_state s job_ptr =
     (if (reason_code s (state_reason job_ptr) \<ge> reason_code s WAIT_QOS_GRP_CPU
          \<and> reason_code s (state_reason job_ptr) \<le> reason_code s WAIT_ASSOC_MAX_SUB_JOB)
         \<or> state_reason job_ptr = WAIT_ASSOC_JOB_LIMIT
         \<or> state_reason job_ptr = WAIT_ASSOC_RESOURCE_LIMIT
         \<or> state_reason job_ptr = WAIT_ASSOC_TIME_LIMIT
         \<or> state_reason job_ptr = WAIT_QOS_JOB_LIMIT
         \<or> state_reason job_ptr = WAIT_QOS_TIME_LIMIT
      then False else True)"

text \<open>\<^verbatim>\<open>xfree(job_ptr->state_desc); job_ptr->state_reason = r;\<close>\<close>

definition hold_job :: "job_state_reason \<Rightarrow> job_record \<Rightarrow> job_record" where
  "hold_job r job_ptr = job_ptr\<lparr>state_desc := None, state_reason := r\<rparr>"

text \<open>The "clear old state reason" block of both checks.\<close>

definition clear_old_state_reason :: "ctld \<Rightarrow> job_record \<Rightarrow> job_record" where
  "clear_old_state_reason s job_ptr =
     (if \<not> acct_policy_job_runnable_state s job_ptr then hold_job WAIT_NO_REASON job_ptr
      else job_ptr)"

text \<open>The user's record as both QOS checks obtain it: the record of the list, or a
  cleared record allocated for the call (\<^verbatim>\<open>free_used_limits = true\<close>), which is released
  at \<^verbatim>\<open>end_it\<close> and never linked into the list.\<close>

definition used_limits_or_scratch :: "qos_rec \<Rightarrow> uint32 \<Rightarrow> used_limits \<times> bool" where
  "used_limits_or_scratch q u =
     (case get_used_limits_for_user (user_limit_list (qos_rec.usage q)) u of
        None \<Rightarrow> (new_used_limits u, True)
      | Some r \<Rightarrow> (r, False))"

text \<open>\<^verbatim>\<open>_qos_job_runnable_pre_select\<close>, for a \<^verbatim>\<open>qos_ptr\<close> that is not NULL (\<open>q\<close> is the record
  it points to; the callers test the pointer). Each check gives the reason of the hold, if
  any, and the scratch record \<^verbatim>\<open>*qos_out_ptr\<close>.\<close>

definition qos_pre_grp_jobs :: "qos_rec \<Rightarrow> qos_rec \<Rightarrow> job_state_reason option \<times> qos_rec" where
  "qos_pre_grp_jobs q out =
     (if qos_rec.grp_jobs out = INFINITE \<and> qos_rec.grp_jobs q \<noteq> INFINITE
      then (if grp_used_jobs (qos_rec.usage q) \<ge> qos_rec.grp_jobs q
            then Some WAIT_QOS_GRP_JOB else None,
            out\<lparr>qos_rec.grp_jobs := qos_rec.grp_jobs q\<rparr>)
      else (None, out))"

definition qos_pre_grp_wall :: "qos_rec \<Rightarrow> qos_rec \<Rightarrow> job_state_reason option \<times> qos_rec" where
  "qos_pre_grp_wall q out =
     (let wall_mins = (of_nat (qos_usage.grp_used_wall (qos_rec.usage q) div 60) :: uint32)
      in if qos_rec.grp_wall out = INFINITE \<and> qos_rec.grp_wall q \<noteq> INFINITE
         then (if wall_mins \<ge> qos_rec.grp_wall q then Some WAIT_QOS_GRP_WALL else None,
               out\<lparr>qos_rec.grp_wall := qos_rec.grp_wall q\<rparr>)
         else (None, out))"

definition qos_pre_max_jobs_pu ::
  "used_limits \<Rightarrow> qos_rec \<Rightarrow> qos_rec \<Rightarrow> job_state_reason option \<times> qos_rec" where
  "qos_pre_max_jobs_pu used q out =
     (if max_jobs_pu out = INFINITE \<and> max_jobs_pu q \<noteq> INFINITE
      then (if jobs used \<ge> max_jobs_pu q then Some WAIT_QOS_MAX_JOB_PER_USER else None,
            out\<lparr>max_jobs_pu := max_jobs_pu q\<rparr>)
      else (None, out))"

definition qos_pre_max_wall_pj ::
  "job_record \<Rightarrow> qos_rec \<Rightarrow> qos_rec \<Rightarrow> job_state_reason option \<times> qos_rec" where
  "qos_pre_max_wall_pj job_ptr q out =
     (if acct_policy_limit_set.time (limit_set job_ptr) \<noteq> ADMIN_SET_LIMIT
         \<and> qos_rec.max_wall_pj out = INFINITE \<and> qos_rec.max_wall_pj q \<noteq> INFINITE
      then (if job_record.time_limit job_ptr \<noteq> NO_VAL
               \<and> job_record.time_limit job_ptr > qos_rec.max_wall_pj q
            then Some WAIT_QOS_MAX_WALL_PER_JOB else None,
            out\<lparr>qos_rec.max_wall_pj := qos_rec.max_wall_pj q\<rparr>)
      else (None, out))"

definition qos_job_runnable_pre_select ::
  "job_record \<Rightarrow> qos_rec \<Rightarrow> qos_rec \<Rightarrow> bool \<times> job_record \<times> qos_rec" where
  "qos_job_runnable_pre_select job_ptr q out0 =
     (let (used, free_used_limits) = used_limits_or_scratch q (job_record.user_id job_ptr)
      in case qos_pre_grp_jobs q out0 of
           (Some r, out1) \<Rightarrow> (False, hold_job r job_ptr, out1)
         | (None, out1) \<Rightarrow>
      (case qos_pre_grp_wall q out1 of
           (Some r, out2) \<Rightarrow> (False, hold_job r job_ptr, out2)
         | (None, out2) \<Rightarrow>
      (case qos_pre_max_jobs_pu used q out2 of
           (Some r, out3) \<Rightarrow> (False, hold_job r job_ptr, out3)
         | (None, out3) \<Rightarrow>
      (case qos_pre_max_wall_pj job_ptr q out3 of
           (Some r, out4) \<Rightarrow> (False, hold_job r job_ptr, out4)
         | (None, out4) \<Rightarrow> (True, job_ptr, out4)))))"

text \<open>The body of the loop of \<^verbatim>\<open>acct_policy_job_runnable_pre_select\<close> on one association:
  the reason of the hold, if any. \<open>qrec\<close> is the local \<^verbatim>\<open>qos_rec\<close>, \<open>parent\<close> the flag of the
  source.\<close>

definition pre_select_assoc ::
  "job_record \<Rightarrow> qos_rec \<Rightarrow> bool \<Rightarrow> assoc_rec \<Rightarrow> job_state_reason option" where
  "pre_select_assoc job_ptr qrec parent a =
     (let wall_mins = (of_nat (assoc_usage.grp_used_wall (assoc_rec.usage a) div 60) :: uint32)
      in if qos_rec.grp_jobs qrec = INFINITE \<and> assoc_rec.grp_jobs a \<noteq> INFINITE
            \<and> used_jobs (assoc_rec.usage a) \<ge> assoc_rec.grp_jobs a
         then Some WAIT_ASSOC_GRP_JOB
         else if qos_rec.grp_wall qrec = INFINITE \<and> assoc_rec.grp_wall a \<noteq> INFINITE
                 \<and> wall_mins \<ge> assoc_rec.grp_wall a
         then Some WAIT_ASSOC_GRP_WALL
         else if parent then None
         else if max_jobs_pu qrec = INFINITE \<and> max_jobs a \<noteq> INFINITE
                 \<and> used_jobs (assoc_rec.usage a) \<ge> max_jobs a
         then Some WAIT_ASSOC_MAX_JOBS
         else if acct_policy_limit_set.time (limit_set job_ptr) \<noteq> ADMIN_SET_LIMIT
                 \<and> qos_rec.max_wall_pj qrec = INFINITE \<and> assoc_rec.max_wall_pj a \<noteq> INFINITE
                 \<and> job_record.time_limit job_ptr \<noteq> NO_VAL
                 \<and> job_record.time_limit job_ptr > assoc_rec.max_wall_pj a
         then Some WAIT_ASSOC_MAX_WALL_PER_JOB
         else None)"

text \<open>The loop \<^verbatim>\<open>while (assoc_ptr)\<close> shared in shape by both checks: \<open>body parent a\<close> is the
  body of the loop on one association; the first hold ends the walk.\<close>

fun select_assoc_chain ::
  "(bool \<Rightarrow> assoc_rec \<Rightarrow> job_state_reason option) \<Rightarrow> bool \<Rightarrow> assoc_rec list \<Rightarrow>
   job_state_reason option" where
  "select_assoc_chain body parent [] = None"
| "select_assoc_chain body parent (a # parents) =
     (case body parent a of
        Some r \<Rightarrow> Some r
      | None \<Rightarrow> select_assoc_chain body True parents)"

text \<open>\<^verbatim>\<open>acct_policy_job_runnable_pre_select\<close>: the result, the job and the state.\<close>

definition acct_policy_job_runnable_pre_select ::
  "ctld \<Rightarrow> job_record \<Rightarrow> bool \<times> job_record \<times> ctld" where
  "acct_policy_job_runnable_pre_select s job_ptr =
     (if accounting_enforce s = {} then (True, job_ptr, s)
      else
        (case valid_job_assoc s job_ptr of
           (False, job1) \<Rightarrow> (False, hold_job FAIL_ACCOUNT job1, s)
         | (True, job1) \<Rightarrow>
             if ACCOUNTING_ENFORCE_LIMITS \<notin> accounting_enforce s then (True, job1, s)
             else
               (let job2 = clear_old_state_reason s job1;
                    (qos_ptr_1, qos_ptr_2) = set_qos_order s job2;
                    (rc1, job3, qrec1) =
                      (case qos_ptr_1 of
                         None \<Rightarrow> (True, job2, slurmdb_init_qos_rec)
                       | Some p \<Rightarrow>
                           qos_job_runnable_pre_select job2 (qos_heap s p) slurmdb_init_qos_rec)
                in if \<not> rc1 then (False, job3, s)
                   else
                     (let (rc2, job4, qrec2) =
                            (case qos_ptr_2 of
                               None \<Rightarrow> (True, job3, qrec1)
                             | Some p \<Rightarrow> qos_job_runnable_pre_select job3 (qos_heap s p) qrec1)
                      in if \<not> rc2 then (False, job4, s)
                         else
                           (case select_assoc_chain (pre_select_assoc job4 qrec2) False
                                   (assoc_ptr job4) of
                              Some r \<Rightarrow> (False, hold_job r job4, s)
                            | None \<Rightarrow> (True, job4, s))))))"

text \<open>\<^verbatim>\<open>_qos_job_runnable_post_select\<close>, for a \<^verbatim>\<open>qos_ptr\<close> that is not NULL. \<open>safe_limits\<close> is
  what the function reads from \<^verbatim>\<open>accounting_enforce\<close>.\<close>

definition qos_post_grp_cpu_mins ::
  "bool \<Rightarrow> uint64 \<Rightarrow> qos_rec \<Rightarrow> qos_rec \<Rightarrow> job_state_reason option \<times> qos_rec" where
  "qos_post_grp_cpu_mins safe_limits job_cpu_time_limit q out =
     (let usage_mins = (of_nat (qos_usage.usage_raw (qos_rec.usage q) div 60) :: uint64);
          cpu_run_mins = qos_usage.grp_used_cpu_run_secs (qos_rec.usage q) div 60
      in if grp_cpu_mins out = ucast INFINITE \<and> grp_cpu_mins q \<noteq> ucast INFINITE
         then (if usage_mins \<ge> grp_cpu_mins q then Some WAIT_QOS_GRP_CPU_MIN
               else if safe_limits
                       \<and> job_cpu_time_limit + cpu_run_mins > grp_cpu_mins q - usage_mins
               then Some WAIT_QOS_GRP_CPU_MIN
               else None,
               out\<lparr>grp_cpu_mins := grp_cpu_mins q\<rparr>)
         else (None, out))"

definition qos_post_grp_cpus ::
  "job_record \<Rightarrow> uint32 \<Rightarrow> qos_rec \<Rightarrow> qos_rec \<Rightarrow> job_state_reason option \<times> qos_rec" where
  "qos_post_grp_cpus job_ptr cpu_cnt q out =
     (if min_tres (limit_set job_ptr) TRES_ARRAY_CPU \<noteq> ADMIN_SET_LIMIT
         \<and> qos_rec.grp_cpus out = INFINITE \<and> qos_rec.grp_cpus q \<noteq> INFINITE
      then (if cpu_cnt > qos_rec.grp_cpus q then Some WAIT_QOS_GRP_CPU
            else if qos_usage.grp_used_cpus (qos_rec.usage q) + cpu_cnt > qos_rec.grp_cpus q
            then Some WAIT_QOS_GRP_CPU
            else None,
            out\<lparr>qos_rec.grp_cpus := qos_rec.grp_cpus q\<rparr>)
      else (None, out))"

definition qos_post_grp_mem ::
  "bool \<Rightarrow> uint32 \<Rightarrow> qos_rec \<Rightarrow> qos_rec \<Rightarrow> job_state_reason option \<times> qos_rec" where
  "qos_post_grp_mem admin_set_memory_limit job_memory q out =
     (if \<not> admin_set_memory_limit
         \<and> qos_rec.grp_mem out = INFINITE \<and> qos_rec.grp_mem q \<noteq> INFINITE
      then (if job_memory > qos_rec.grp_mem q then Some WAIT_QOS_GRP_MEMORY
            else if qos_usage.grp_used_mem (qos_rec.usage q) + job_memory > qos_rec.grp_mem q
            then Some WAIT_QOS_GRP_MEMORY
            else None,
            out\<lparr>qos_rec.grp_mem := qos_rec.grp_mem q\<rparr>)
      else (None, out))"

definition qos_post_grp_cpu_run_mins ::
  "uint64 \<Rightarrow> qos_rec \<Rightarrow> qos_rec \<Rightarrow> job_state_reason option \<times> qos_rec" where
  "qos_post_grp_cpu_run_mins job_cpu_time_limit q out =
     (let cpu_run_mins = qos_usage.grp_used_cpu_run_secs (qos_rec.usage q) div 60
      in if grp_cpu_run_mins out = ucast INFINITE \<and> grp_cpu_run_mins q \<noteq> ucast INFINITE
         then (if cpu_run_mins + job_cpu_time_limit > grp_cpu_run_mins q
               then Some WAIT_QOS_GRP_CPU_RUN_MIN else None,
               out\<lparr>grp_cpu_run_mins := grp_cpu_run_mins q\<rparr>)
         else (None, out))"

definition qos_post_grp_nodes ::
  "job_record \<Rightarrow> uint32 \<Rightarrow> qos_rec \<Rightarrow> qos_rec \<Rightarrow> job_state_reason option \<times> qos_rec" where
  "qos_post_grp_nodes job_ptr nodecnt q out =
     (if acct_policy_limit_set.min_nodes (limit_set job_ptr) \<noteq> ADMIN_SET_LIMIT
         \<and> qos_rec.grp_nodes out = INFINITE \<and> qos_rec.grp_nodes q \<noteq> INFINITE
      then (if nodecnt > qos_rec.grp_nodes q then Some WAIT_QOS_GRP_NODES
            else if qos_usage.grp_used_nodes (qos_rec.usage q) + nodecnt > qos_rec.grp_nodes q
            then Some WAIT_QOS_GRP_NODES
            else None,
            out\<lparr>qos_rec.grp_nodes := qos_rec.grp_nodes q\<rparr>)
      else (None, out))"

definition qos_post_max_cpu_mins_pj ::
  "job_record \<Rightarrow> uint64 \<Rightarrow> qos_rec \<Rightarrow> qos_rec \<Rightarrow> job_state_reason option \<times> qos_rec" where
  "qos_post_max_cpu_mins_pj job_ptr job_cpu_time_limit q out =
     (if max_cpu_mins_pj out = ucast INFINITE \<and> max_cpu_mins_pj q \<noteq> ucast INFINITE
      then (if job_record.time_limit job_ptr \<noteq> NO_VAL
               \<and> job_cpu_time_limit > max_cpu_mins_pj q
            then Some WAIT_QOS_MAX_CPU_MINS_PER_JOB else None,
            out\<lparr>max_cpu_mins_pj := max_cpu_mins_pj q\<rparr>)
      else (None, out))"

definition qos_post_max_cpus_pj ::
  "job_record \<Rightarrow> uint32 \<Rightarrow> qos_rec \<Rightarrow> qos_rec \<Rightarrow> job_state_reason option \<times> qos_rec" where
  "qos_post_max_cpus_pj job_ptr cpu_cnt q out =
     (if min_tres (limit_set job_ptr) TRES_ARRAY_CPU \<noteq> ADMIN_SET_LIMIT
         \<and> max_cpus_pj out = INFINITE \<and> max_cpus_pj q \<noteq> INFINITE
      then (if cpu_cnt > max_cpus_pj q then Some WAIT_QOS_MAX_CPUS_PER_JOB else None,
            out\<lparr>max_cpus_pj := max_cpus_pj q\<rparr>)
      else (None, out))"

definition qos_post_min_cpus_pj ::
  "job_record \<Rightarrow> uint32 \<Rightarrow> qos_rec \<Rightarrow> qos_rec \<Rightarrow> job_state_reason option \<times> qos_rec" where
  "qos_post_min_cpus_pj job_ptr cpu_cnt q out =
     (if min_tres (limit_set job_ptr) TRES_ARRAY_CPU \<noteq> ADMIN_SET_LIMIT
         \<and> min_cpus_pj out = INFINITE \<and> min_cpus_pj q \<noteq> INFINITE
      then (if cpu_cnt \<noteq> 0 \<and> cpu_cnt < min_cpus_pj q then Some WAIT_QOS_MIN_CPUS else None,
            out\<lparr>min_cpus_pj := min_cpus_pj q\<rparr>)
      else (None, out))"

definition qos_post_max_cpus_pu ::
  "job_record \<Rightarrow> used_limits \<Rightarrow> uint32 \<Rightarrow> qos_rec \<Rightarrow> qos_rec \<Rightarrow>
   job_state_reason option \<times> qos_rec" where
  "qos_post_max_cpus_pu job_ptr used cpu_cnt q out =
     (if min_tres (limit_set job_ptr) TRES_ARRAY_CPU \<noteq> ADMIN_SET_LIMIT
         \<and> max_cpus_pu out = INFINITE \<and> max_cpus_pu q \<noteq> INFINITE
      then (if cpu_cnt > max_cpus_pu q then Some WAIT_QOS_MAX_CPU_PER_USER
            else if cpus used + cpu_cnt > max_cpus_pu q then Some WAIT_QOS_MAX_CPU_PER_USER
            else None,
            out\<lparr>max_cpus_pu := max_cpus_pu q\<rparr>)
      else (None, out))"

definition qos_post_max_nodes_pj ::
  "job_record \<Rightarrow> uint32 \<Rightarrow> qos_rec \<Rightarrow> qos_rec \<Rightarrow> job_state_reason option \<times> qos_rec" where
  "qos_post_max_nodes_pj job_ptr nodecnt q out =
     (if acct_policy_limit_set.min_nodes (limit_set job_ptr) \<noteq> ADMIN_SET_LIMIT
         \<and> qos_rec.max_nodes_pj out = INFINITE \<and> qos_rec.max_nodes_pj q \<noteq> INFINITE
      then (if nodecnt > qos_rec.max_nodes_pj q then Some WAIT_QOS_MAX_NODE_PER_JOB else None,
            out\<lparr>qos_rec.max_nodes_pj := qos_rec.max_nodes_pj q\<rparr>)
      else (None, out))"

definition qos_post_max_nodes_pu ::
  "job_record \<Rightarrow> used_limits \<Rightarrow> uint32 \<Rightarrow> qos_rec \<Rightarrow> qos_rec \<Rightarrow>
   job_state_reason option \<times> qos_rec" where
  "qos_post_max_nodes_pu job_ptr used nodecnt q out =
     (if acct_policy_limit_set.min_nodes (limit_set job_ptr) \<noteq> ADMIN_SET_LIMIT
         \<and> max_nodes_pu out = INFINITE \<and> max_nodes_pu q \<noteq> INFINITE
      then (if nodecnt > max_nodes_pu q then Some WAIT_QOS_MAX_NODE_PER_USER
            else if nodes used + nodecnt > max_nodes_pu q then Some WAIT_QOS_MAX_NODE_PER_USER
            else None,
            out\<lparr>max_nodes_pu := max_nodes_pu q\<rparr>)
      else (None, out))"

definition qos_job_runnable_post_select ::
  "ctld \<Rightarrow> job_record \<Rightarrow> qos_rec \<Rightarrow> qos_rec \<Rightarrow> uint32 \<Rightarrow> uint32 \<Rightarrow> uint32 \<Rightarrow> uint64 \<Rightarrow> bool \<Rightarrow>
   bool \<times> job_record \<times> qos_rec" where
  "qos_job_runnable_post_select s job_ptr q out0 nodecnt cpu_cnt job_memory job_cpu_time_limit
     admin_set_memory_limit =
     (let safe_limits = (ACCOUNTING_ENFORCE_SAFE \<in> accounting_enforce s);
          (used, free_used_limits) = used_limits_or_scratch q (job_record.user_id job_ptr)
      in case qos_post_grp_cpu_mins safe_limits job_cpu_time_limit q out0 of
           (Some r, out1) \<Rightarrow> (False, hold_job r job_ptr, out1)
         | (None, out1) \<Rightarrow>
      (case qos_post_grp_cpus job_ptr cpu_cnt q out1 of
           (Some r, out2) \<Rightarrow> (False, hold_job r job_ptr, out2)
         | (None, out2) \<Rightarrow>
      (case qos_post_grp_mem admin_set_memory_limit job_memory q out2 of
           (Some r, out3) \<Rightarrow> (False, hold_job r job_ptr, out3)
         | (None, out3) \<Rightarrow>
      (case qos_post_grp_cpu_run_mins job_cpu_time_limit q out3 of
           (Some r, out4) \<Rightarrow> (False, hold_job r job_ptr, out4)
         | (None, out4) \<Rightarrow>
      (case qos_post_grp_nodes job_ptr nodecnt q out4 of
           (Some r, out5) \<Rightarrow> (False, hold_job r job_ptr, out5)
         | (None, out5) \<Rightarrow>
      (case qos_post_max_cpu_mins_pj job_ptr job_cpu_time_limit q out5 of
           (Some r, out6) \<Rightarrow> (False, hold_job r job_ptr, out6)
         | (None, out6) \<Rightarrow>
      (case qos_post_max_cpus_pj job_ptr cpu_cnt q out6 of
           (Some r, out7) \<Rightarrow> (False, hold_job r job_ptr, out7)
         | (None, out7) \<Rightarrow>
      (case qos_post_min_cpus_pj job_ptr cpu_cnt q out7 of
           (Some r, out8) \<Rightarrow> (False, hold_job r job_ptr, out8)
         | (None, out8) \<Rightarrow>
      (case qos_post_max_cpus_pu job_ptr used cpu_cnt q out8 of
           (Some r, out9) \<Rightarrow> (False, hold_job r job_ptr, out9)
         | (None, out9) \<Rightarrow>
      (case qos_post_max_nodes_pj job_ptr nodecnt q out9 of
           (Some r, out10) \<Rightarrow> (False, hold_job r job_ptr, out10)
         | (None, out10) \<Rightarrow>
      (case qos_post_max_nodes_pu job_ptr used nodecnt q out10 of
           (Some r, out11) \<Rightarrow> (False, hold_job r job_ptr, out11)
         | (None, out11) \<Rightarrow> (True, job_ptr, out11))))))))))))"

text \<open>The body of the loop of \<^verbatim>\<open>acct_policy_job_runnable_post_select\<close> on one
  association: the reason of the hold, if any. First the check of the group cpu minutes,
  the only one that reads \<^verbatim>\<open>safe_limits\<close>, then the checks that follow it.\<close>

definition post_select_assoc_grp_cpu_mins ::
  "ctld \<Rightarrow> qos_rec \<Rightarrow> bool \<Rightarrow> uint64 \<Rightarrow> assoc_rec \<Rightarrow> job_state_reason option" where
  "post_select_assoc_grp_cpu_mins s qrec safe_limits job_cpu_time_limit a =
     (let usage_mins = (of_nat (assoc_usage.usage_raw (assoc_rec.usage a) div 60) :: uint64);
          cpu_run_mins = assoc_usage.grp_used_cpu_run_secs (assoc_rec.usage a) div 60;
          limit1 = slurmdb_find_tres_count_in_string s (grp_tres_mins a) TRES_CPU
      in if grp_cpu_mins qrec = ucast INFINITE \<and> limit1 \<noteq> ucast INFINITE
            \<and> usage_mins \<ge> limit1
         then Some WAIT_ASSOC_GRP_CPU_MIN
         else if grp_cpu_mins qrec = ucast INFINITE \<and> limit1 \<noteq> ucast INFINITE
                 \<and> safe_limits \<and> job_cpu_time_limit + cpu_run_mins > limit1 - usage_mins
         then Some WAIT_ASSOC_GRP_CPU_MIN
         else None)"

definition post_select_assoc_others ::
  "ctld \<Rightarrow> job_record \<Rightarrow> qos_rec \<Rightarrow> uint32 \<Rightarrow> uint32 \<Rightarrow> uint32 \<Rightarrow> uint64 \<Rightarrow> bool \<Rightarrow>
   bool \<Rightarrow> assoc_rec \<Rightarrow> job_state_reason option" where
  "post_select_assoc_others s job_ptr qrec nodecnt cpu_cnt job_memory job_cpu_time_limit
     admin_set_memory_limit parent a =
     (let cpu_run_mins = assoc_usage.grp_used_cpu_run_secs (assoc_rec.usage a) div 60;
          limit2 = slurmdb_find_tres_count_in_string s (grp_tres a) TRES_CPU;
          limit3 = slurmdb_find_tres_count_in_string s (grp_tres_run_mins a) TRES_CPU;
          limit4 = slurmdb_find_tres_count_in_string s (max_tres_mins_pj a) TRES_CPU;
          limit5 = slurmdb_find_tres_count_in_string s (max_tres_pj a) TRES_CPU
      in if min_tres (limit_set job_ptr) TRES_ARRAY_CPU \<noteq> ADMIN_SET_LIMIT
            \<and> qos_rec.grp_cpus qrec = INFINITE \<and> limit2 \<noteq> ucast INFINITE
            \<and> cpu_cnt > (ucast limit2 :: uint32)
         then Some WAIT_ASSOC_GRP_CPU
         else if min_tres (limit_set job_ptr) TRES_ARRAY_CPU \<noteq> ADMIN_SET_LIMIT
                 \<and> qos_rec.grp_cpus qrec = INFINITE \<and> limit2 \<noteq> ucast INFINITE
                 \<and> ucast (assoc_usage.grp_used_cpus (assoc_rec.usage a) + cpu_cnt) > limit2
         then Some WAIT_ASSOC_GRP_CPU
         else if \<not> admin_set_memory_limit
                 \<and> qos_rec.grp_mem qrec = INFINITE \<and> assoc_rec.grp_mem a \<noteq> INFINITE
                 \<and> job_memory > assoc_rec.grp_mem a
         then Some WAIT_ASSOC_GRP_MEMORY
         else if \<not> admin_set_memory_limit
                 \<and> qos_rec.grp_mem qrec = INFINITE \<and> assoc_rec.grp_mem a \<noteq> INFINITE
                 \<and> assoc_usage.grp_used_mem (assoc_rec.usage a) + job_memory
                     > assoc_rec.grp_mem a
         then Some WAIT_ASSOC_GRP_MEMORY
         else if grp_cpu_run_mins qrec = ucast INFINITE \<and> limit3 \<noteq> ucast INFINITE
                 \<and> cpu_run_mins + job_cpu_time_limit > ucast (ucast limit3 :: uint32)
         then Some WAIT_ASSOC_GRP_CPU_RUN_MIN
         else if acct_policy_limit_set.min_nodes (limit_set job_ptr) \<noteq> ADMIN_SET_LIMIT
                 \<and> qos_rec.grp_nodes qrec = INFINITE \<and> assoc_rec.grp_nodes a \<noteq> INFINITE
                 \<and> nodecnt > assoc_rec.grp_nodes a
         then Some WAIT_ASSOC_GRP_NODES
         else if acct_policy_limit_set.min_nodes (limit_set job_ptr) \<noteq> ADMIN_SET_LIMIT
                 \<and> qos_rec.grp_nodes qrec = INFINITE \<and> assoc_rec.grp_nodes a \<noteq> INFINITE
                 \<and> assoc_usage.grp_used_nodes (assoc_rec.usage a) + nodecnt
                     > assoc_rec.grp_nodes a
         then Some WAIT_ASSOC_GRP_NODES
         else if parent then None
         else if max_cpu_mins_pj qrec = ucast INFINITE \<and> limit4 \<noteq> ucast INFINITE
                 \<and> job_record.time_limit job_ptr \<noteq> NO_VAL
                 \<and> job_cpu_time_limit > limit4
         then Some WAIT_ASSOC_MAX_CPU_MINS_PER_JOB
         else if max_cpus_pj qrec = INFINITE \<and> limit5 \<noteq> ucast INFINITE
                 \<and> ucast cpu_cnt > limit5
         then Some WAIT_ASSOC_MAX_CPUS_PER_JOB
         else if qos_rec.max_nodes_pj qrec = INFINITE \<and> assoc_rec.max_nodes_pj a \<noteq> INFINITE
                 \<and> nodecnt > assoc_rec.max_nodes_pj a
         then Some WAIT_ASSOC_MAX_NODE_PER_JOB
         else None)"

definition post_select_assoc ::
  "ctld \<Rightarrow> job_record \<Rightarrow> qos_rec \<Rightarrow> bool \<Rightarrow> uint32 \<Rightarrow> uint32 \<Rightarrow> uint32 \<Rightarrow> uint64 \<Rightarrow> bool \<Rightarrow>
   bool \<Rightarrow> assoc_rec \<Rightarrow> job_state_reason option" where
  "post_select_assoc s job_ptr qrec safe_limits nodecnt cpu_cnt job_memory job_cpu_time_limit
     admin_set_memory_limit parent a =
     (case post_select_assoc_grp_cpu_mins s qrec safe_limits job_cpu_time_limit a of
        Some r \<Rightarrow> Some r
      | None \<Rightarrow>
          post_select_assoc_others s job_ptr qrec nodecnt cpu_cnt job_memory job_cpu_time_limit
            admin_set_memory_limit parent a)"

text \<open>\<^verbatim>\<open>acct_policy_job_runnable_post_select\<close>: the result, the job and the state.\<close>

definition acct_policy_job_runnable_post_select ::
  "ctld \<Rightarrow> job_record \<Rightarrow> uint32 \<Rightarrow> uint32 \<Rightarrow> uint32 \<Rightarrow> bool \<times> job_record \<times> ctld" where
  "acct_policy_job_runnable_post_select s job_ptr nodecnt cpu_cnt pn_min_mem =
     (if accounting_enforce s = {} then (True, job_ptr, s)
      else if ACCOUNTING_ENFORCE_LIMITS \<notin> accounting_enforce s then (True, job_ptr, s)
      else
        (let safe_limits = (ACCOUNTING_ENFORCE_SAFE \<in> accounting_enforce s);
             job1 = clear_old_state_reason s job_ptr;
             job_cpu_time_limit = (ucast (job_record.time_limit job1) :: uint64) * ucast cpu_cnt;
             admin_set_memory_limit =
               (pn_min_mem \<noteq> 0
                \<and> (max_tres (limit_set job1) TRES_ARRAY_MEM = ADMIN_SET_LIMIT
                    \<or> min_tres (limit_set job1) TRES_ARRAY_CPU = ADMIN_SET_LIMIT));
             job_memory =
               (if pn_min_mem = 0 then 0
                else if pn_min_mem AND MEM_PER_CPU \<noteq> 0
                     then (pn_min_mem AND NOT MEM_PER_CPU) * cpu_cnt
                     else pn_min_mem * nodecnt);
             (qos_ptr_1, qos_ptr_2) = set_qos_order s job1;
             (rc1, job2, qrec1) =
               (case qos_ptr_1 of
                  None \<Rightarrow> (True, job1, slurmdb_init_qos_rec)
                | Some p \<Rightarrow>
                    qos_job_runnable_post_select s job1 (qos_heap s p) slurmdb_init_qos_rec
                      nodecnt cpu_cnt job_memory job_cpu_time_limit admin_set_memory_limit)
         in if \<not> rc1 then (False, job2, s)
            else
              (let (rc2, job3, qrec2) =
                     (case qos_ptr_2 of
                        None \<Rightarrow> (True, job2, qrec1)
                      | Some p \<Rightarrow>
                          qos_job_runnable_post_select s job2 (qos_heap s p) qrec1 nodecnt
                            cpu_cnt job_memory job_cpu_time_limit admin_set_memory_limit)
               in if \<not> rc2 then (False, job3, s)
                  else
                    (case select_assoc_chain
                            (post_select_assoc s job3 qrec2 safe_limits nodecnt cpu_cnt job_memory
                               job_cpu_time_limit admin_set_memory_limit)
                            False (assoc_ptr job3) of
                       Some r \<Rightarrow> (False, hold_job r job3, s)
                     | None \<Rightarrow> (True, job3, s)))))"

subsection \<open>The time-out evaluator\<close>

text \<open>\<^verbatim>\<open>_qos_job_time_out\<close>, for a \<^verbatim>\<open>qos_ptr\<close> that is not NULL: the three limits in the
  order of the source; \<open>True\<close> with the scratch record when one is reached (where the
  source sets \<^verbatim>\<open>last_job_update\<close> and \<^verbatim>\<open>state_reason\<close>, and \<^verbatim>\<open>rc = false\<close>).\<close>

definition qos_time_out_limits :: "uint64 \<Rightarrow> qos_rec \<Rightarrow> qos_rec \<Rightarrow> bool \<times> qos_rec" where
  "qos_time_out_limits job_cpu_usage_mins q out0 =
     (let usage_mins = (of_nat (qos_usage.usage_raw (qos_rec.usage q) div 60) :: uint64);
          wall_mins = (of_nat (qos_usage.grp_used_wall (qos_rec.usage q) div 60) :: uint32);
          g1 = (grp_cpu_mins out0 = ucast INFINITE \<and> grp_cpu_mins q \<noteq> ucast INFINITE);
          out1 = (if g1 then out0\<lparr>grp_cpu_mins := grp_cpu_mins q\<rparr> else out0)
      in if g1 \<and> usage_mins \<ge> grp_cpu_mins q then (True, out1)
         else
           (let g2 = (qos_rec.grp_wall out1 = INFINITE \<and> qos_rec.grp_wall q \<noteq> INFINITE);
                out2 = (if g2 then out1\<lparr>qos_rec.grp_wall := qos_rec.grp_wall q\<rparr> else out1)
            in if g2 \<and> wall_mins \<ge> qos_rec.grp_wall q then (True, out2)
               else
                 (let g3 = (max_cpu_mins_pj out2 = ucast INFINITE
                            \<and> max_cpu_mins_pj q \<noteq> ucast INFINITE);
                      out3 = (if g3 then out2\<lparr>max_cpu_mins_pj := max_cpu_mins_pj q\<rparr> else out2)
                  in if g3 \<and> job_cpu_usage_mins \<ge> max_cpu_mins_pj q then (True, out3)
                     else (False, out3))))"

definition qos_job_time_out ::
  "ctld \<Rightarrow> job_record \<Rightarrow> qos_rec \<Rightarrow> qos_rec \<Rightarrow> uint64 \<Rightarrow> bool \<times> job_record \<times> qos_rec \<times> ctld" where
  "qos_job_time_out s job_ptr q out0 job_cpu_usage_mins =
     (case qos_time_out_limits job_cpu_usage_mins q out0 of
        (True, out1) \<Rightarrow>
          (False, job_ptr\<lparr>state_reason := FAIL_TIMEOUT\<rparr>, out1,
           s\<lparr>last_job_update := time_now s\<rparr>)
      | (False, out1) \<Rightarrow> (True, job_ptr, out1, s))"

text \<open>The three tests of the loop of \<^verbatim>\<open>acct_policy_job_time_out\<close> on one association.\<close>

definition assoc_time_out_limits :: "ctld \<Rightarrow> qos_rec \<Rightarrow> uint64 \<Rightarrow> assoc_rec \<Rightarrow> bool" where
  "assoc_time_out_limits s qrec job_cpu_usage_mins a =
     (let usage_mins = (of_nat (assoc_usage.usage_raw (assoc_rec.usage a) div 60) :: uint64);
          wall_mins = (of_nat (assoc_usage.grp_used_wall (assoc_rec.usage a) div 60) :: uint32);
          limit1 = slurmdb_find_tres_count_in_string s (grp_tres_mins a) TRES_CPU;
          limit2 = slurmdb_find_tres_count_in_string s (max_tres_mins_pj a) TRES_CPU
      in (grp_cpu_mins qrec = ucast INFINITE \<and> limit1 \<noteq> ucast INFINITE \<and> usage_mins \<ge> limit1)
         \<or> (qos_rec.grp_wall qrec = INFINITE \<and> assoc_rec.grp_wall a \<noteq> INFINITE
             \<and> wall_mins \<ge> assoc_rec.grp_wall a)
         \<or> (max_cpu_mins_pj qrec = ucast INFINITE \<and> limit2 \<noteq> ucast INFINITE
             \<and> job_cpu_usage_mins \<ge> limit2))"

text \<open>The loop \<^verbatim>\<open>while (assoc)\<close> of \<^verbatim>\<open>acct_policy_job_time_out\<close>: it stops at a limit
  reached, at the end of the chain, and when the next association is
  \<^verbatim>\<open>assoc_mgr_root_assoc\<close> (pointers are compared by the ids of the associations).\<close>

fun time_out_assoc_chain :: "ctld \<Rightarrow> qos_rec \<Rightarrow> uint64 \<Rightarrow> assoc_rec list \<Rightarrow> bool" where
  "time_out_assoc_chain s qrec job_cpu_usage_mins [] = False"
| "time_out_assoc_chain s qrec job_cpu_usage_mins (a # parents) =
     (if assoc_time_out_limits s qrec job_cpu_usage_mins a then True
      else if (case parents of
                 [] \<Rightarrow> assoc_mgr_root_assoc s = None
               | p # _ \<Rightarrow> assoc_mgr_root_assoc s = Some (assoc_rec.id p))
      then False
      else time_out_assoc_chain s qrec job_cpu_usage_mins parents)"

text \<open>\<^verbatim>\<open>acct_policy_job_time_out\<close>: the result, the job and the state. The minutes of cpu
  the job has used are computed on \<^verbatim>\<open>time_t\<close> (a signed integer; \<^verbatim>\<open>/\<close> truncates) and
  converted to \<^verbatim>\<open>uint64_t\<close>.\<close>

definition acct_policy_job_time_out :: "ctld \<Rightarrow> job_record \<Rightarrow> bool \<times> job_record \<times> ctld" where
  "acct_policy_job_time_out s job_ptr =
     (if ACCOUNTING_ENFORCE_LIMITS \<notin> accounting_enforce s
         \<or> ACCOUNTING_ENFORCE_SAFE \<in> accounting_enforce s
      then (False, job_ptr, s)
      else
        (let (qos_ptr_1, qos_ptr_2) = set_qos_order s job_ptr;
             now = time_now s;
             job_cpu_usage_mins =
               (word_of_int ((((now - start_time job_ptr) - tot_sus_time job_ptr) sdiv 60)
                             * uint (total_cpus job_ptr)) :: uint64);
             (rc1, job1, qrec1, s1) =
               (case qos_ptr_1 of
                  None \<Rightarrow> (True, job_ptr, slurmdb_init_qos_rec, s)
                | Some p \<Rightarrow>
                    qos_job_time_out s job_ptr (qos_heap s p) slurmdb_init_qos_rec
                      job_cpu_usage_mins);
             (rc2, job2, qrec2, s2) =
               (if \<not> rc1 then (rc1, job1, qrec1, s1)
                else
                  (case qos_ptr_2 of
                     None \<Rightarrow> (True, job1, qrec1, s1)
                   | Some p \<Rightarrow> qos_job_time_out s1 job1 (qos_heap s1 p) qrec1 job_cpu_usage_mins));
             job3 =
               (if rc2 \<and> time_out_assoc_chain s2 qrec2 job_cpu_usage_mins (assoc_ptr job2)
                then job2\<lparr>state_reason := FAIL_TIMEOUT\<rparr> else job2)
         in (state_reason job3 = FAIL_TIMEOUT, job3, s2)))"

subsection \<open>The max-nodes query\<close>

text \<open>The local \<^verbatim>\<open>qos_rec\<close> of \<^verbatim>\<open>acct_policy_get_max_nodes\<close> after lines 2456 to 2464: the
  copy of the first QOS, its three node limits taken from the second QOS where they are
  \<^verbatim>\<open>INFINITE\<close>.\<close>

definition get_max_nodes_qos_rec :: "qos_rec \<Rightarrow> qos_rec option \<Rightarrow> qos_rec" where
  "get_max_nodes_qos_rec q1 qos2 =
     (case qos2 of
        None \<Rightarrow> q1
      | Some q2 \<Rightarrow>
          (let r1 = (if qos_rec.max_nodes_pj q1 = INFINITE
                     then q1\<lparr>qos_rec.max_nodes_pj := qos_rec.max_nodes_pj q2\<rparr> else q1);
               r2 = (if max_nodes_pu r1 = INFINITE
                     then r1\<lparr>max_nodes_pu := max_nodes_pu q2\<rparr> else r1)
           in if qos_rec.grp_nodes r2 = INFINITE
              then r2\<lparr>qos_rec.grp_nodes := qos_rec.grp_nodes q2\<rparr> else r2))"

text \<open>Lines 2466 to 2479: \<^verbatim>\<open>max_nodes_limit\<close>, \<^verbatim>\<open>qos_max_p_limit\<close> and \<^verbatim>\<open>*wait_reason\<close> from
  the local \<^verbatim>\<open>qos_rec\<close>.\<close>

definition get_max_nodes_qos ::
  "qos_rec \<Rightarrow> job_state_reason \<Rightarrow> uint32 \<times> uint32 \<times> job_state_reason" where
  "get_max_nodes_qos qrec wait_reason =
     (let (lim1, wr1) =
            (if qos_rec.max_nodes_pj qrec < max_nodes_pu qrec
             then (qos_rec.max_nodes_pj qrec, WAIT_QOS_MAX_NODE_PER_JOB)
             else if max_nodes_pu qrec \<noteq> INFINITE
             then (max_nodes_pu qrec, WAIT_QOS_MAX_NODE_PER_USER)
             else (INFINITE, wait_reason));
          qos_max_p_limit = lim1
      in if qos_rec.grp_nodes qrec < lim1
         then (qos_rec.grp_nodes qrec, qos_max_p_limit, WAIT_QOS_GRP_NODES)
         else (lim1, qos_max_p_limit, wr1))"

text \<open>The loop \<^verbatim>\<open>while (assoc_ptr)\<close> of \<^verbatim>\<open>acct_policy_get_max_nodes\<close>. \<open>qos_grp\<close> is the value
  of \<^verbatim>\<open>!qos_ptr_1 || (qos_rec.grp_nodes == INFINITE)\<close>, which no pass changes.\<close>

fun get_max_nodes_assoc_chain ::
  "bool \<Rightarrow> uint32 \<Rightarrow> bool \<Rightarrow> assoc_rec list \<Rightarrow> uint32 \<times> job_state_reason \<Rightarrow>
   uint32 \<times> job_state_reason" where
  "get_max_nodes_assoc_chain qos_grp qos_max_p_limit parent [] res = res"
| "get_max_nodes_assoc_chain qos_grp qos_max_p_limit parent (a # parents)
     (max_nodes_limit, wait_reason) =
     (let grp_set = (qos_grp \<and> assoc_rec.grp_nodes a \<noteq> INFINITE
                     \<and> assoc_rec.grp_nodes a < max_nodes_limit);
          (lim1, wr1) = (if grp_set then (assoc_rec.grp_nodes a, WAIT_ASSOC_GRP_NODES)
                         else (max_nodes_limit, wait_reason));
          (lim2, wr2) = (if \<not> parent \<and> qos_max_p_limit = INFINITE
                            \<and> assoc_rec.max_nodes_pj a \<noteq> INFINITE
                            \<and> assoc_rec.max_nodes_pj a < lim1
                         then (assoc_rec.max_nodes_pj a, WAIT_ASSOC_MAX_NODE_PER_JOB)
                         else (lim1, wr1))
      in if grp_set then (lim2, wr2)
         else get_max_nodes_assoc_chain qos_grp qos_max_p_limit True parents (lim2, wr2))"

text \<open>\<^verbatim>\<open>acct_policy_get_max_nodes\<close>: the limit returned and \<^verbatim>\<open>*wait_reason\<close>, which the
  source asserts to be a valid pointer.\<close>

definition acct_policy_get_max_nodes ::
  "ctld \<Rightarrow> job_record \<Rightarrow> job_state_reason \<Rightarrow> uint32 \<times> job_state_reason" where
  "acct_policy_get_max_nodes s job_ptr wait_reason =
     (if ACCOUNTING_ENFORCE_LIMITS \<notin> accounting_enforce s then (INFINITE, wait_reason)
      else
        (let (qos_ptr_1, qos_ptr_2) = set_qos_order s job_ptr
         in case qos_ptr_1 of
              None \<Rightarrow>
                get_max_nodes_assoc_chain True INFINITE False (assoc_ptr job_ptr)
                  (INFINITE, wait_reason)
            | Some p1 \<Rightarrow>
                (let qrec = get_max_nodes_qos_rec (qos_heap s p1)
                              (case qos_ptr_2 of None \<Rightarrow> None | Some p2 \<Rightarrow> Some (qos_heap s p2));
                     (lim, qos_max_p_limit, wr) = get_max_nodes_qos qrec wait_reason
                 in get_max_nodes_assoc_chain (qos_rec.grp_nodes qrec = INFINITE) qos_max_p_limit
                      False (assoc_ptr job_ptr) (lim, wr))))"

subsection \<open>Notions the properties are stated with\<close>

text \<open>The job's association pointer resolves: the test of \<^verbatim>\<open>_valid_job_assoc\<close> passes
  without a new lookup.\<close>

definition job_assoc_bound :: "job_record \<Rightarrow> bool" where
  "job_assoc_bound job_ptr =
     (case assoc_ptr job_ptr of
        [] \<Rightarrow> False
      | a # parents \<Rightarrow> assoc_rec.id a = assoc_id job_ptr
                       \<and> assoc_rec.uid a = job_record.user_id job_ptr)"

text \<open>A sequence of lifecycle events applied to one job through the usage adjuster, the
  job and the state threaded from one call to the next.\<close>

fun adjust_events ::
  "(job_record \<Rightarrow> ctld \<Rightarrow> job_record \<times> ctld) \<Rightarrow> acct_policy_type list \<Rightarrow> job_record \<times> ctld \<Rightarrow>
   job_record \<times> ctld" where
  "adjust_events job_end [] js = js"
| "adjust_events job_end (ty # evs) js =
     adjust_events job_end evs (adjust_limit_usage job_end ty (fst js) (snd js))"

text \<open>A balanced sequence: every \<^verbatim>\<open>REM_SUBMIT\<close> closes an earlier \<^verbatim>\<open>ADD_SUBMIT\<close>, every
  \<^verbatim>\<open>JOB_FINI\<close> an earlier \<^verbatim>\<open>JOB_BEGIN\<close>, and none is left open. \<open>open_events n m evs\<close>
  holds when \<open>evs\<close> closes \<open>n\<close> submits and \<open>m\<close> runs that are open before it, and its
  own.\<close>

fun open_events :: "nat \<Rightarrow> nat \<Rightarrow> acct_policy_type list \<Rightarrow> bool" where
  "open_events n m [] = (n = 0 \<and> m = 0)"
| "open_events n m (ACCT_POLICY_ADD_SUBMIT # evs) = open_events (Suc n) m evs"
| "open_events n m (ACCT_POLICY_REM_SUBMIT # evs) = (0 < n \<and> open_events (n - 1) m evs)"
| "open_events n m (ACCT_POLICY_JOB_BEGIN # evs) = open_events n (Suc m) evs"
| "open_events n m (ACCT_POLICY_JOB_FINI # evs) = (0 < m \<and> open_events n (m - 1) evs)"

definition balanced :: "acct_policy_type list \<Rightarrow> bool" where
  "balanced evs = open_events 0 0 evs"

text \<open>The user's usage of a QOS as the checks read it: the record of the list, all zero
  when the list has none.\<close>

definition user_usage :: "qos_rec \<Rightarrow> uint32 \<Rightarrow> used_limits" where
  "user_usage q u = fst (used_limits_or_scratch q u)"

text \<open>What one pass of the loop of \<^verbatim>\<open>_adjust_limit_usage\<close> makes of an association.\<close>

definition assoc_adjust :: "acct_policy_type \<Rightarrow> job_record \<Rightarrow> assoc_rec \<Rightarrow> assoc_rec" where
  "assoc_adjust ty job_ptr a =
     a\<lparr>assoc_rec.usage :=
         fst (assoc_usage_switch ty job_ptr (acct a) (node_cnt job_ptr)
                (adjust_used_cpu_run_secs ty job_ptr)
                (adjust_job_memory job_ptr (node_cnt job_ptr)) (assoc_rec.usage a))\<rparr>"

text \<open>What \<^verbatim>\<open>_qos_adjust_limit_usage\<close> makes of a QOS record.\<close>

definition qos_adjust :: "acct_policy_type \<Rightarrow> job_record \<Rightarrow> qos_rec \<Rightarrow> qos_rec" where
  "qos_adjust ty job_ptr q =
     fst (qos_adjust_rec ty job_ptr (node_cnt job_ptr) (adjust_used_cpu_run_secs ty job_ptr)
            (adjust_job_memory job_ptr (node_cnt job_ptr)) q)"

text \<open>The usage block of an association, of a QOS, and a user's record, with \<open>n\<close> more
  submits and \<open>m\<close> more runs of the job counted, and the job's cpu seconds added \<open>k\<close>
  times.\<close>

definition assoc_usage_at :: "job_record \<Rightarrow> assoc_usage \<Rightarrow> nat \<Rightarrow> nat \<Rightarrow> nat \<Rightarrow> assoc_usage" where
  "assoc_usage_at job_ptr g n m k =
     g\<lparr>used_submit_jobs := used_submit_jobs g + of_nat n,
       used_jobs := used_jobs g + of_nat m,
       assoc_usage.grp_used_cpus := assoc_usage.grp_used_cpus g + of_nat m * total_cpus job_ptr,
       assoc_usage.grp_used_mem :=
         assoc_usage.grp_used_mem g + of_nat m * adjust_job_memory job_ptr (node_cnt job_ptr),
       assoc_usage.grp_used_nodes := assoc_usage.grp_used_nodes g + of_nat m * node_cnt job_ptr,
       assoc_usage.grp_used_cpu_run_secs :=
         assoc_usage.grp_used_cpu_run_secs g
         + of_nat k * adjust_used_cpu_run_secs ACCT_POLICY_JOB_BEGIN job_ptr\<rparr>"

definition qos_usage_at :: "job_record \<Rightarrow> qos_usage \<Rightarrow> nat \<Rightarrow> nat \<Rightarrow> nat \<Rightarrow> qos_usage" where
  "qos_usage_at job_ptr g n m k =
     g\<lparr>grp_used_submit_jobs := grp_used_submit_jobs g + of_nat n,
       grp_used_jobs := grp_used_jobs g + of_nat m,
       qos_usage.grp_used_cpus := qos_usage.grp_used_cpus g + of_nat m * total_cpus job_ptr,
       qos_usage.grp_used_mem :=
         qos_usage.grp_used_mem g + of_nat m * adjust_job_memory job_ptr (node_cnt job_ptr),
       qos_usage.grp_used_nodes := qos_usage.grp_used_nodes g + of_nat m * node_cnt job_ptr,
       qos_usage.grp_used_cpu_run_secs :=
         qos_usage.grp_used_cpu_run_secs g
         + of_nat k * adjust_used_cpu_run_secs ACCT_POLICY_JOB_BEGIN job_ptr\<rparr>"

definition used_limits_at :: "job_record \<Rightarrow> used_limits \<Rightarrow> nat \<Rightarrow> nat \<Rightarrow> used_limits" where
  "used_limits_at job_ptr u n m =
     u\<lparr>submit_jobs := submit_jobs u + of_nat n,
       jobs := jobs u + of_nat m,
       cpus := cpus u + of_nat m * total_cpus job_ptr,
       nodes := nodes u + of_nat m * node_cnt job_ptr\<rparr>"

text \<open>Room for \<open>n\<close> more submits and runs of the job: no 32-bit counter leaves the range
  that \<^verbatim>\<open>(int32_t)\<close> reads as non-negative.\<close>

definition assoc_room :: "job_record \<Rightarrow> nat \<Rightarrow> assoc_usage \<Rightarrow> bool" where
  "assoc_room job_ptr n g =
     (unat (used_submit_jobs g) + n < 2 ^ 31
      \<and> unat (used_jobs g) + n < 2 ^ 31
      \<and> unat (assoc_usage.grp_used_cpus g) + n * unat (total_cpus job_ptr) < 2 ^ 31
      \<and> unat (assoc_usage.grp_used_mem g)
          + n * unat (adjust_job_memory job_ptr (node_cnt job_ptr)) < 2 ^ 31
      \<and> unat (assoc_usage.grp_used_nodes g) + n * unat (node_cnt job_ptr) < 2 ^ 31)"

definition used_limits_room :: "job_record \<Rightarrow> nat \<Rightarrow> used_limits \<Rightarrow> bool" where
  "used_limits_room job_ptr n u =
     (unat (submit_jobs u) + n < 2 ^ 31
      \<and> unat (jobs u) + n < 2 ^ 31
      \<and> unat (cpus u) + n * unat (total_cpus job_ptr) < 2 ^ 31
      \<and> unat (nodes u) + n * unat (node_cnt job_ptr) < 2 ^ 31)"

definition qos_room :: "job_record \<Rightarrow> nat \<Rightarrow> qos_rec \<Rightarrow> bool" where
  "qos_room job_ptr n q =
     (unat (grp_used_submit_jobs (qos_rec.usage q)) + n < 2 ^ 31
      \<and> unat (grp_used_jobs (qos_rec.usage q)) + n < 2 ^ 31
      \<and> unat (qos_usage.grp_used_cpus (qos_rec.usage q)) + n * unat (total_cpus job_ptr)
          < 2 ^ 31
      \<and> unat (qos_usage.grp_used_mem (qos_rec.usage q))
          + n * unat (adjust_job_memory job_ptr (node_cnt job_ptr)) < 2 ^ 31
      \<and> unat (qos_usage.grp_used_nodes (qos_rec.usage q)) + n * unat (node_cnt job_ptr)
          < 2 ^ 31
      \<and> used_limits_room job_ptr n (user_usage q (job_record.user_id job_ptr)))"

text \<open>The events of a kind in a sequence.\<close>

definition count_events :: "acct_policy_type \<Rightarrow> acct_policy_type list \<Rightarrow> nat" where
  "count_events ty evs = length (filter (\<lambda>e. e = ty) evs)"

text \<open>The events of a sequence applied in turn to one association and to one QOS.\<close>

fun assoc_run :: "job_record \<Rightarrow> acct_policy_type list \<Rightarrow> assoc_rec \<Rightarrow> assoc_rec" where
  "assoc_run job_ptr [] a = a"
| "assoc_run job_ptr (ty # evs) a = assoc_run job_ptr evs (assoc_adjust ty job_ptr a)"

fun qos_run :: "job_record \<Rightarrow> acct_policy_type list \<Rightarrow> qos_rec \<Rightarrow> qos_rec" where
  "qos_run job_ptr [] q = q"
| "qos_run job_ptr (ty # evs) q = qos_run job_ptr evs (qos_adjust ty job_ptr q)"

text \<open>The list of a QOS with the user's record in it, as \<^verbatim>\<open>_qos_adjust_limit_usage\<close>
  leaves it before its \<^verbatim>\<open>switch\<close>, and the position of that record.\<close>

definition ensure_user :: "used_limits list option \<Rightarrow> uint32 \<Rightarrow> used_limits list" where
  "ensure_user lst u =
     (let l0 = (case lst of None \<Rightarrow> [] | Some l \<Rightarrow> l)
      in case list_find_uid l0 u of None \<Rightarrow> l0 @ [new_used_limits u] | Some k \<Rightarrow> l0)"

definition user_index :: "used_limits list option \<Rightarrow> uint32 \<Rightarrow> nat" where
  "user_index lst u =
     (let l0 = (case lst of None \<Rightarrow> [] | Some l \<Rightarrow> l)
      in case list_find_uid l0 u of None \<Rightarrow> length l0 | Some k \<Rightarrow> k)"

text \<open>A QOS record with the user's record in its list and \<open>n\<close> more submits, \<open>m\<close> more
  runs of the job counted, the job's cpu seconds added \<open>k\<close> times.\<close>

definition qos_at :: "job_record \<Rightarrow> qos_rec \<Rightarrow> nat \<Rightarrow> nat \<Rightarrow> nat \<Rightarrow> qos_rec" where
  "qos_at job_ptr q n m k =
     (let l1 = ensure_user (user_limit_list (qos_rec.usage q)) (job_record.user_id job_ptr);
          i = user_index (user_limit_list (qos_rec.usage q)) (job_record.user_id job_ptr)
      in q\<lparr>qos_rec.usage :=
             (qos_usage_at job_ptr (qos_rec.usage q) n m k)
               \<lparr>user_limit_list := Some (l1[i := used_limits_at job_ptr (l1 ! i) n m])\<rparr>\<rparr>)"

text \<open>A counter is not negative as \<^verbatim>\<open>(int32_t)\<close> reads it, which is the test of the code for an
  underflow; the counters of an association, of a user's record and of a QOS.\<close>

definition counter_nonneg :: "uint32 \<Rightarrow> bool" where
  "counter_nonneg c = (0 \<le> sint c)"

definition assoc_counters_nonneg :: "assoc_usage \<Rightarrow> bool" where
  "assoc_counters_nonneg g =
     (counter_nonneg (used_submit_jobs g) \<and> counter_nonneg (used_jobs g)
      \<and> counter_nonneg (assoc_usage.grp_used_cpus g)
      \<and> counter_nonneg (assoc_usage.grp_used_mem g)
      \<and> counter_nonneg (assoc_usage.grp_used_nodes g))"

definition used_limits_nonneg :: "used_limits \<Rightarrow> bool" where
  "used_limits_nonneg u =
     (counter_nonneg (submit_jobs u) \<and> counter_nonneg (jobs u) \<and> counter_nonneg (cpus u)
      \<and> counter_nonneg (nodes u))"

definition qos_counters_nonneg :: "qos_rec \<Rightarrow> uint32 \<Rightarrow> bool" where
  "qos_counters_nonneg q u =
     (counter_nonneg (grp_used_submit_jobs (qos_rec.usage q))
      \<and> counter_nonneg (grp_used_jobs (qos_rec.usage q))
      \<and> counter_nonneg (qos_usage.grp_used_cpus (qos_rec.usage q))
      \<and> counter_nonneg (qos_usage.grp_used_mem (qos_rec.usage q))
      \<and> counter_nonneg (qos_usage.grp_used_nodes (qos_rec.usage q))
      \<and> used_limits_nonneg (user_usage q u))"

text \<open>The messages of a QOS and of an association whose submit counters are 0 when a
  submit is removed, and the messages a call has added to the log.\<close>

definition qos_submit_underflow :: "ctld \<Rightarrow> nat option \<Rightarrow> uint32 \<Rightarrow> debug_msg list" where
  "qos_submit_underflow s qos u =
     (case qos of
        None \<Rightarrow> []
      | Some p \<Rightarrow> [Qos_underflow Submit_jobs (qos_rec.name (qos_heap s p)),
                   Qos_user_underflow Submit_jobs (qos_rec.name (qos_heap s p)) u])"

definition new_messages :: "ctld \<Rightarrow> ctld \<Rightarrow> debug_msg list" where
  "new_messages s s' = drop (length (debug_log s)) (debug_log s')"

text \<open>The reason that the validator holds is not the one of the check of the cpus per job.\<close>

definition reason_not_cpus_pj :: "validate_vars \<Rightarrow> bool" where
  "reason_not_cpus_pj v = (v_reason v \<noteq> Some WAIT_QOS_MAX_CPUS_PER_JOB)"

text \<open>The check of the cpus per job as the specification reads it, with \<^verbatim>\<open>!=\<close> in the place
  of \<^verbatim>\<open>|=\<close> (the form of the check of the nodes per job); it is compared below with
  \<open>qos_validate_max_cpus_pj\<close>, which follows the source.\<close>

definition qos_validate_max_cpus_pj_as_specified ::
  "qos_rec \<Rightarrow> bool \<Rightarrow> bool \<Rightarrow> validate_vars \<Rightarrow> bool \<times> validate_vars" where
  "qos_validate_max_cpus_pj_as_specified q update_call strict_checking v =
     (let out = v_qos_out v;
          req = tres_req_cnt (v_job_desc v) TRES_ARRAY_CPU
      in if max_tres (v_limit_set v) TRES_ARRAY_CPU = ADMIN_SET_LIMIT
            \<or> max_cpus_pj out \<noteq> INFINITE
            \<or> max_cpus_pj q = INFINITE
            \<or> (update_call \<and> req = ucast NO_VAL)
         then (True, v)
         else if strict_checking \<and> req \<noteq> ucast NO_VAL
         then
           (let v2 = v\<lparr>v_qos_out := out\<lparr>max_cpus_pj := max_cpus_pj q\<rparr>\<rparr>
            in if req > ucast (max_cpus_pj q)
               then (False, set_reason WAIT_QOS_MAX_CPUS_PER_JOB v2)
               else (True, v2))
         else (True, v))"

text \<open>An association without finite group limits, and one whose limits per job and per
  user, the wall time per job left aside, are not finite either. Of the TRES limits only
  the positions below \<^verbatim>\<open>g_tres_count\<close> are read.\<close>

definition assoc_no_grp_limits :: "ctld \<Rightarrow> assoc_rec \<Rightarrow> bool" where
  "assoc_no_grp_limits s a =
     (assoc_rec.grp_nodes a = INFINITE \<and> assoc_rec.grp_submit_jobs a = INFINITE
      \<and> list_all (\<lambda>pos. grp_tres_ctld a pos = ucast INFINITE) [0..<g_tres_count s])"

definition assoc_no_max_limits :: "ctld \<Rightarrow> assoc_rec \<Rightarrow> bool" where
  "assoc_no_max_limits s a =
     (assoc_rec.max_nodes_pj a = INFINITE \<and> max_submit_jobs a = INFINITE
      \<and> list_all (\<lambda>pos. max_tres_ctld a pos = ucast INFINITE) [0..<g_tres_count s])"

text \<open>The first of two limits unless it is \<^verbatim>\<open>INFINITE\<close>, then the second.\<close>

definition first_finite :: "uint32 \<Rightarrow> uint32 \<Rightarrow> uint32" where
  "first_finite x y = (if x = INFINITE then y else x)"

text \<open>A QOS whose limits read by the post-select check, the group cpu minutes left aside,
  are all \<^verbatim>\<open>INFINITE\<close>, and an association none of whose limits read by that check is
  finite.\<close>

definition qos_no_other_select_limits :: "qos_rec \<Rightarrow> bool" where
  "qos_no_other_select_limits q =
     (qos_rec.grp_cpus q = INFINITE \<and> qos_rec.grp_mem q = INFINITE
      \<and> grp_cpu_run_mins q = ucast INFINITE \<and> qos_rec.grp_nodes q = INFINITE
      \<and> max_cpu_mins_pj q = ucast INFINITE \<and> max_cpus_pj q = INFINITE
      \<and> min_cpus_pj q = INFINITE \<and> max_cpus_pu q = INFINITE
      \<and> qos_rec.max_nodes_pj q = INFINITE \<and> max_nodes_pu q = INFINITE)"

definition assoc_no_select_limits :: "ctld \<Rightarrow> assoc_rec \<Rightarrow> bool" where
  "assoc_no_select_limits s a =
     (slurmdb_find_tres_count_in_string s (grp_tres_mins a) TRES_CPU = ucast INFINITE
      \<and> slurmdb_find_tres_count_in_string s (grp_tres a) TRES_CPU = ucast INFINITE
      \<and> slurmdb_find_tres_count_in_string s (grp_tres_run_mins a) TRES_CPU = ucast INFINITE
      \<and> slurmdb_find_tres_count_in_string s (max_tres_mins_pj a) TRES_CPU = ucast INFINITE
      \<and> slurmdb_find_tres_count_in_string s (max_tres_pj a) TRES_CPU = ucast INFINITE
      \<and> assoc_rec.grp_mem a = INFINITE \<and> assoc_rec.grp_nodes a = INFINITE
      \<and> assoc_rec.max_nodes_pj a = INFINITE)"

text \<open>The state with \<^verbatim>\<open>ACCOUNTING_ENFORCE_SAFE\<close> set and with it cleared.\<close>

definition safe_on :: "ctld \<Rightarrow> ctld" where
  "safe_on s = s\<lparr>accounting_enforce := accounting_enforce s \<union> {ACCOUNTING_ENFORCE_SAFE}\<rparr>"

definition safe_off :: "ctld \<Rightarrow> ctld" where
  "safe_off s = s\<lparr>accounting_enforce := accounting_enforce s - {ACCOUNTING_ENFORCE_SAFE}\<rparr>"

text \<open>The stages of \<^verbatim>\<open>acct_policy_job_runnable_post_select\<close> under enforced limits: the
  job's memory and the flag of the administrator's limit, the check of the first QOS, of
  the second, and the walk of the association chain.\<close>

definition post_select_job_memory :: "uint32 \<Rightarrow> uint32 \<Rightarrow> uint32 \<Rightarrow> uint32" where
  "post_select_job_memory pn_min_mem cpu_cnt nodecnt =
     (if pn_min_mem = 0 then 0
      else if pn_min_mem AND MEM_PER_CPU \<noteq> 0
           then (pn_min_mem AND NOT MEM_PER_CPU) * cpu_cnt
           else pn_min_mem * nodecnt)"

definition post_select_admin_set :: "job_record \<Rightarrow> uint32 \<Rightarrow> bool" where
  "post_select_admin_set job_ptr pn_min_mem =
     (pn_min_mem \<noteq> 0
      \<and> (max_tres (limit_set job_ptr) TRES_ARRAY_MEM = ADMIN_SET_LIMIT
          \<or> min_tres (limit_set job_ptr) TRES_ARRAY_CPU = ADMIN_SET_LIMIT))"

definition post_select_qos1 ::
  "ctld \<Rightarrow> job_record \<Rightarrow> uint32 \<Rightarrow> uint32 \<Rightarrow> uint32 \<Rightarrow> bool \<times> job_record \<times> qos_rec" where
  "post_select_qos1 s job_ptr nodecnt cpu_cnt pn_min_mem =
     (let job1 = clear_old_state_reason s job_ptr
      in case fst (set_qos_order s job1) of
           None \<Rightarrow> (True, job1, slurmdb_init_qos_rec)
         | Some p \<Rightarrow>
             qos_job_runnable_post_select s job1 (qos_heap s p) slurmdb_init_qos_rec nodecnt
               cpu_cnt (post_select_job_memory pn_min_mem cpu_cnt nodecnt)
               (ucast (job_record.time_limit job1) * ucast cpu_cnt)
               (post_select_admin_set job1 pn_min_mem))"

definition post_select_qos2 ::
  "ctld \<Rightarrow> job_record \<Rightarrow> uint32 \<Rightarrow> uint32 \<Rightarrow> uint32 \<Rightarrow> bool \<times> job_record \<times> qos_rec" where
  "post_select_qos2 s job_ptr nodecnt cpu_cnt pn_min_mem =
     (let job1 = clear_old_state_reason s job_ptr;
          r1 = post_select_qos1 s job_ptr nodecnt cpu_cnt pn_min_mem
      in case snd (set_qos_order s job1) of
           None \<Rightarrow> (True, fst (snd r1), snd (snd r1))
         | Some p \<Rightarrow>
             qos_job_runnable_post_select s (fst (snd r1)) (qos_heap s p) (snd (snd r1)) nodecnt
               cpu_cnt (post_select_job_memory pn_min_mem cpu_cnt nodecnt)
               (ucast (job_record.time_limit job1) * ucast cpu_cnt)
               (post_select_admin_set job1 pn_min_mem))"

definition post_select_chain ::
  "ctld \<Rightarrow> job_record \<Rightarrow> uint32 \<Rightarrow> uint32 \<Rightarrow> uint32 \<Rightarrow> job_state_reason option" where
  "post_select_chain s job_ptr nodecnt cpu_cnt pn_min_mem =
     (let job1 = clear_old_state_reason s job_ptr;
          r2 = post_select_qos2 s job_ptr nodecnt cpu_cnt pn_min_mem
      in select_assoc_chain
           (post_select_assoc s (fst (snd r2)) (snd (snd r2))
              (ACCOUNTING_ENFORCE_SAFE \<in> accounting_enforce s) nodecnt cpu_cnt
              (post_select_job_memory pn_min_mem cpu_cnt nodecnt)
              (ucast (job_record.time_limit job1) * ucast cpu_cnt)
              (post_select_admin_set job1 pn_min_mem))
           False (assoc_ptr (fst (snd r2))))"

text \<open>A QOS with a cleared record of the user linked into its list when the list has
  none (the list is created when it is NULL).\<close>

definition with_user_record :: "qos_rec \<Rightarrow> uint32 \<Rightarrow> qos_rec" where
  "with_user_record q u =
     q\<lparr>qos_rec.usage :=
         (qos_rec.usage q)\<lparr>user_limit_list :=
            Some (ensure_user (user_limit_list (qos_rec.usage q)) u)\<rparr>\<rparr>"

text \<open>The stages of \<^verbatim>\<open>acct_policy_job_time_out\<close> past its guard: the cpu minutes the job
  has used, the limits of the first QOS and of the second (reached or not, with the
  scratch record), and whether a wall or cpu-minute limit of a QOS or of an association
  of the chain is reached.\<close>

definition time_out_cpu_usage_mins :: "ctld \<Rightarrow> job_record \<Rightarrow> uint64" where
  "time_out_cpu_usage_mins s job_ptr =
     word_of_int ((((time_now s - start_time job_ptr) - tot_sus_time job_ptr) sdiv 60)
                  * uint (total_cpus job_ptr))"

definition time_out_qos1 :: "ctld \<Rightarrow> job_record \<Rightarrow> bool \<times> qos_rec" where
  "time_out_qos1 s job_ptr =
     (case fst (set_qos_order s job_ptr) of
        None \<Rightarrow> (False, slurmdb_init_qos_rec)
      | Some p \<Rightarrow>
          qos_time_out_limits (time_out_cpu_usage_mins s job_ptr) (qos_heap s p)
            slurmdb_init_qos_rec)"

definition time_out_qos2 :: "ctld \<Rightarrow> job_record \<Rightarrow> bool \<times> qos_rec" where
  "time_out_qos2 s job_ptr =
     (case snd (set_qos_order s job_ptr) of
        None \<Rightarrow> (False, snd (time_out_qos1 s job_ptr))
      | Some p \<Rightarrow>
          qos_time_out_limits (time_out_cpu_usage_mins s job_ptr) (qos_heap s p)
            (snd (time_out_qos1 s job_ptr)))"

definition time_out_limit_reached :: "ctld \<Rightarrow> job_record \<Rightarrow> bool" where
  "time_out_limit_reached s job_ptr =
     (fst (time_out_qos1 s job_ptr)
      \<or> fst (time_out_qos2 s job_ptr)
      \<or> time_out_assoc_chain s (snd (time_out_qos2 s job_ptr))
           (time_out_cpu_usage_mins s job_ptr) (assoc_ptr job_ptr))"

text \<open>A QOS none of whose group limits and limits per job is finite (its limits per user
  may be), and an association none of whose limits read by the pre-select check is
  finite.\<close>

definition qos_no_group_or_job_limits :: "qos_rec \<Rightarrow> bool" where
  "qos_no_group_or_job_limits q =
     (grp_cpu_mins q = ucast INFINITE \<and> grp_cpu_run_mins q = ucast INFINITE
      \<and> qos_rec.grp_cpus q = INFINITE \<and> qos_rec.grp_jobs q = INFINITE
      \<and> qos_rec.grp_mem q = INFINITE \<and> qos_rec.grp_nodes q = INFINITE
      \<and> qos_rec.grp_wall q = INFINITE \<and> max_cpu_mins_pj q = ucast INFINITE
      \<and> max_cpus_pj q = INFINITE \<and> qos_rec.max_nodes_pj q = INFINITE
      \<and> qos_rec.max_wall_pj q = INFINITE \<and> min_cpus_pj q = INFINITE)"

definition assoc_no_pre_select_limits :: "assoc_rec \<Rightarrow> bool" where
  "assoc_no_pre_select_limits a =
     (assoc_rec.grp_jobs a = INFINITE \<and> assoc_rec.grp_wall a = INFINITE
      \<and> max_jobs a = INFINITE \<and> assoc_rec.max_wall_pj a = INFINITE)"

subsection \<open>Concrete states and jobs\<close>

text \<open>A QOS without limits and with no usage, an association without limits, a job, and
  a controller state that enforces limits; the examples below are variations of these.\<close>

definition qos0 :: qos_rec where
  "qos0 = slurmdb_init_qos_rec\<lparr>qos_rec.name := ''normal''\<rparr>"

definition assoc_usage0 :: assoc_usage where
  "assoc_usage0 =
     \<lparr>assoc_usage.grp_used_cpus = 0, grp_used_cpu_run_secs = 0, grp_used_mem = 0,
      grp_used_nodes = 0, grp_used_wall = 0, usage_raw = 0, used_jobs = 0,
      used_submit_jobs = 0\<rparr>"

definition assoc0 :: assoc_rec where
  "assoc0 =
     \<lparr>acct = ''physics'', grp_jobs = INFINITE, grp_mem = INFINITE, grp_nodes = INFINITE,
      grp_submit_jobs = INFINITE, grp_tres = [], grp_tres_ctld = (\<lambda>pos. ucast INFINITE),
      grp_tres_mins = [], grp_tres_run_mins = [], grp_wall = INFINITE, id = 7,
      max_jobs = INFINITE, max_nodes_pj = INFINITE, max_submit_jobs = INFINITE,
      max_tres_ctld = (\<lambda>pos. ucast INFINITE), max_tres_mins_pj = [], max_tres_pj = [],
      max_wall_pj = INFINITE, uid = 1000, usage = assoc_usage0, user = ''alice''\<rparr>"

text \<open>The root of the association tree: no user, its parent pointer is NULL.\<close>

definition assoc_root0 :: assoc_rec where
  "assoc_root0 = assoc0\<lparr>acct := ''root'', assoc_rec.id := 1, assoc_rec.uid := NO_VAL, user := []\<rparr>"

definition limit_set0 :: acct_policy_limit_set where
  "limit_set0 =
     \<lparr>acct_policy_limit_set.max_nodes = 0, max_tres = (\<lambda>pos. 0), min_nodes = 0,
      min_tres = (\<lambda>pos. 0), time = 0\<rparr>"

definition part0 :: part_record where
  "part0 = \<lparr>max_time = INFINITE, name = ''batch'', qos_ptr = None\<rparr>"

definition job0 :: job_record where
  "job0 =
     \<lparr>account = ''physics'', assoc_id = 7, assoc_ptr = [assoc0, assoc_root0], details = None,
      end_time_exp = 0, job_id = 42, limit_set = limit_set0, node_cnt = 1,
      part_ptr = Some part0, qos_ptr = Some 1, start_time = 0, state_desc = None,
      state_reason = WAIT_NO_REASON, time_limit = 10, tot_sus_time = 0, total_cpus = 2,
      user_id = 1000\<rparr>"

text \<open>A numbering of the reason codes for the examples: the codes are distinct, those of
  the limits, from \<^verbatim>\<open>WAIT_QOS_GRP_CPU\<close> to \<^verbatim>\<open>WAIT_ASSOC_MAX_SUB_JOB\<close>, are consecutive in the
  order of the enumeration, and every other code lies outside that range.\<close>

fun reason_code0 :: "job_state_reason \<Rightarrow> nat" where
  "reason_code0 WAIT_NO_REASON = 0"
| "reason_code0 WAIT_ASSOC_JOB_LIMIT = 11"
| "reason_code0 WAIT_ASSOC_RESOURCE_LIMIT = 12"
| "reason_code0 WAIT_ASSOC_TIME_LIMIT = 13"
| "reason_code0 FAIL_TIMEOUT = 24"
| "reason_code0 FAIL_ACCOUNT = 26"
| "reason_code0 WAIT_QOS_JOB_LIMIT = 29"
| "reason_code0 WAIT_QOS_TIME_LIMIT = 31"
| "reason_code0 WAIT_QOS_GRP_CPU = 39"
| "reason_code0 WAIT_QOS_GRP_CPU_MIN = 40"
| "reason_code0 WAIT_QOS_GRP_CPU_RUN_MIN = 41"
| "reason_code0 WAIT_QOS_GRP_JOB = 42"
| "reason_code0 WAIT_QOS_GRP_MEMORY = 43"
| "reason_code0 WAIT_QOS_GRP_NODES = 44"
| "reason_code0 WAIT_QOS_GRP_SUB_JOB = 45"
| "reason_code0 WAIT_QOS_GRP_WALL = 46"
| "reason_code0 WAIT_QOS_MAX_CPUS_PER_JOB = 47"
| "reason_code0 WAIT_QOS_MAX_CPU_MINS_PER_JOB = 48"
| "reason_code0 WAIT_QOS_MAX_NODE_PER_JOB = 49"
| "reason_code0 WAIT_QOS_MAX_WALL_PER_JOB = 50"
| "reason_code0 WAIT_QOS_MAX_CPU_PER_USER = 51"
| "reason_code0 WAIT_QOS_MAX_JOB_PER_USER = 52"
| "reason_code0 WAIT_QOS_MAX_NODE_PER_USER = 53"
| "reason_code0 WAIT_QOS_MAX_SUB_JOB = 54"
| "reason_code0 WAIT_QOS_MIN_CPUS = 55"
| "reason_code0 WAIT_ASSOC_GRP_CPU = 56"
| "reason_code0 WAIT_ASSOC_GRP_CPU_MIN = 57"
| "reason_code0 WAIT_ASSOC_GRP_CPU_RUN_MIN = 58"
| "reason_code0 WAIT_ASSOC_GRP_JOB = 59"
| "reason_code0 WAIT_ASSOC_GRP_MEMORY = 60"
| "reason_code0 WAIT_ASSOC_GRP_NODES = 61"
| "reason_code0 WAIT_ASSOC_GRP_SUB_JOB = 62"
| "reason_code0 WAIT_ASSOC_GRP_WALL = 63"
| "reason_code0 WAIT_ASSOC_MAX_JOBS = 64"
| "reason_code0 WAIT_ASSOC_MAX_CPUS_PER_JOB = 65"
| "reason_code0 WAIT_ASSOC_MAX_CPU_MINS_PER_JOB = 66"
| "reason_code0 WAIT_ASSOC_MAX_NODE_PER_JOB = 67"
| "reason_code0 WAIT_ASSOC_MAX_WALL_PER_JOB = 68"
| "reason_code0 WAIT_ASSOC_MAX_SUB_JOB = 69"
| "reason_code0 (REASON_OTHER n) = 100 + n"

text \<open>The state: limits are enforced; the QOS at address 1 is \<open>qos0\<close>, the one at address
  2 carries the flag \<^verbatim>\<open>QOS_FLAG_PART_QOS\<close>; no TRES string holds a cpu limit (the parser
  is taken to answer \<^verbatim>\<open>(uint64_t)INFINITE\<close>); no association can be looked up.\<close>

definition ctld0 :: ctld where
  "ctld0 =
     \<lparr>accounting_enforce = {ACCOUNTING_ENFORCE_ASSOCS, ACCOUNTING_ENFORCE_LIMITS},
      assoc_mgr_root_assoc = Some 1,
      g_tres_count = 4,
      last_job_update = 0,
      qos_heap = (\<lambda>p. if p = 2 then qos0\<lparr>qos_rec.name := ''over'', flags := {QOS_FLAG_PART_QOS}\<rparr>
                      else qos0),
      debug_log = [],
      time_now = 1000,
      slurmdb_find_tres_count_in_string = (\<lambda>str t. ucast INFINITE),
      assoc_mgr_fill_in_assoc = (\<lambda>a p u. (1, [], 0)),
      reason_code = reason_code0\<rparr>"

text \<open>A priority plugin whose \<^verbatim>\<open>job_end\<close> does nothing (priority/basic).\<close>

definition job_end_none :: "job_record \<Rightarrow> ctld \<Rightarrow> job_record \<times> ctld" where
  "job_end_none job_ptr s = (job_ptr, s)"

text \<open>A QOS that allows 4 cpus per job, at address 3 of the state, and a request for 8
  cpus and 60 minutes that leaves the node counts open.\<close>

definition qos_cap4 :: qos_rec where
  "qos_cap4 = qos0\<lparr>qos_rec.name := ''cap4'', max_cpus_pj := 4\<rparr>"

definition ctld_cap4 :: ctld where
  "ctld_cap4 = ctld0\<lparr>qos_heap := (qos_heap ctld0)(3 := qos_cap4)\<rparr>"

definition job_desc0 :: job_desc_msg where
  "job_desc0 =
     \<lparr>array_bitmap = None, max_nodes = NO_VAL, min_nodes = NO_VAL, time_limit = 60,
      tres_req_cnt = (\<lambda>pos. if pos = TRES_ARRAY_CPU then 8 else 0), user_id = 1000\<rparr>"

text \<open>A partition of 30 minutes, an association whose only limit is 45 minutes of wall
  time per job, and a request for 2 nodes that names no time limit.\<close>

definition part30 :: part_record where
  "part30 = part0\<lparr>max_time := 30\<rparr>"

definition assoc45 :: assoc_rec where
  "assoc45 = assoc0\<lparr>assoc_rec.max_wall_pj := 45\<rparr>"

definition job_desc_no_time :: job_desc_msg where
  "job_desc_no_time = job_desc0\<lparr>job_desc_msg.min_nodes := 2, job_desc_msg.time_limit := NO_VAL\<rparr>"

text \<open>A state with a partition QOS of 4 nodes per job at address 4 and two job QOS of 8
  nodes per job, the one at address 5 with the flag \<^verbatim>\<open>QOS_FLAG_PART_QOS\<close>, the one at address
  6 without; the job of the examples in that partition, with the one and with the other.\<close>

definition ctld_nodes :: ctld where
  "ctld_nodes =
     ctld0\<lparr>qos_heap := (qos_heap ctld0)
       (4 := qos0\<lparr>qos_rec.name := ''part4'', qos_rec.max_nodes_pj := 4\<rparr>,
        5 := qos0\<lparr>qos_rec.name := ''over8'', flags := {QOS_FLAG_PART_QOS},
                  qos_rec.max_nodes_pj := 8\<rparr>,
        6 := qos0\<lparr>qos_rec.name := ''plain8'', qos_rec.max_nodes_pj := 8\<rparr>)\<rparr>"

definition job_over8 :: job_record where
  "job_over8 = job0\<lparr>part_ptr := Some (part0\<lparr>part_record.qos_ptr := Some 4\<rparr>),
                    job_record.qos_ptr := Some 5\<rparr>"

definition job_plain8 :: job_record where
  "job_plain8 = job0\<lparr>part_ptr := Some (part0\<lparr>part_record.qos_ptr := Some 4\<rparr>),
                     job_record.qos_ptr := Some 6\<rparr>"

text \<open>A QOS of 1000 group cpu minutes of which 900 are used (54000 cpu seconds), at address
  7, and the job of the examples in it with a time limit of 20 minutes.\<close>

definition qos_mins :: qos_rec where
  "qos_mins = qos0\<lparr>qos_rec.name := ''mins'', grp_cpu_mins := 1000,
                   qos_rec.usage := (qos_rec.usage qos0)\<lparr>qos_usage.usage_raw := 54000\<rparr>\<rparr>"

definition ctld_mins :: ctld where
  "ctld_mins = ctld0\<lparr>qos_heap := (qos_heap ctld0)(7 := qos_mins)\<rparr>"

definition job_mins :: job_record where
  "job_mins = job0\<lparr>job_record.qos_ptr := Some 7, job_record.time_limit := 20\<rparr>"

text \<open>A QOS with limits per user (1 job, 4 cpus, 2 nodes) and no record of any user, at
  address 8, and the job of the examples in it.\<close>

definition qos_pu :: qos_rec where
  "qos_pu = qos0\<lparr>qos_rec.name := ''peruser'', max_jobs_pu := 1, max_cpus_pu := 4,
                 max_nodes_pu := 2\<rparr>"

definition ctld_pu :: ctld where
  "ctld_pu = ctld0\<lparr>qos_heap := (qos_heap ctld0)(8 := qos_pu)\<rparr>"

definition job_pu :: job_record where
  "job_pu = job0\<lparr>job_record.qos_ptr := Some 8\<rparr>"

text \<open>A QOS of 10 minutes of group wall time, all used (600 seconds), at address 9, and
  the job of the examples in it; the job of the examples with the reason \<^verbatim>\<open>FAIL_TIMEOUT\<close>
  already set.\<close>

definition qos_wall :: qos_rec where
  "qos_wall = qos0\<lparr>qos_rec.name := ''wall'', qos_rec.grp_wall := 10,
                   qos_rec.usage := (qos_rec.usage qos0)\<lparr>qos_usage.grp_used_wall := 600\<rparr>\<rparr>"

definition ctld_wall :: ctld where
  "ctld_wall = ctld0\<lparr>qos_heap := (qos_heap ctld0)(9 := qos_wall)\<rparr>"

definition job_wall :: job_record where
  "job_wall = job0\<lparr>job_record.qos_ptr := Some 9\<rparr>"

definition job_timed_out :: job_record where
  "job_timed_out = job0\<lparr>state_reason := FAIL_TIMEOUT\<rparr>"

text \<open>The job of the examples under an association that already counts \<open>2^31 - 1\<close> cpus
  in use.\<close>

definition job_full :: job_record where
  "job_full =
     job0\<lparr>assoc_ptr :=
            [assoc0\<lparr>assoc_rec.usage :=
                      assoc_usage0\<lparr>assoc_usage.grp_used_cpus := 0x7fffffff\<rparr>\<rparr>,
             assoc_root0]\<rparr>"

text \<open>A QOS that allows a user no job at all and has no record of any user, at address
  10, and the job of the examples in it.\<close>

definition qos_nojobs :: qos_rec where
  "qos_nojobs = qos0\<lparr>qos_rec.name := ''nojobs'', max_jobs_pu := 0\<rparr>"

definition ctld_nojobs :: ctld where
  "ctld_nojobs = ctld0\<lparr>qos_heap := (qos_heap ctld0)(10 := qos_nojobs)\<rparr>"

definition job_nojobs :: job_record where
  "job_nojobs = job0\<lparr>job_record.qos_ptr := Some 10\<rparr>"

section \<open>Properties\<close>


subsection \<open>The example job and state\<close>

lemmas ex_defs = job0_def ctld0_def qos0_def assoc0_def assoc_root0_def assoc_usage0_def
  limit_set0_def part0_def job_end_none_def slurmdb_init_qos_rec_def

lemma ex_order: "set_qos_order ctld0 job0 = (Some 1, None)"
  by (simp add: set_qos_order_def part_qos_ptr_def ex_defs)

lemma ex_bound: "job_assoc_bound job0"
  by (simp add: job_assoc_bound_def ex_defs)

lemma ex_limits: "ACCOUNTING_ENFORCE_LIMITS \<in> accounting_enforce ctld0"
  by (simp add: ctld0_def)

lemma ex_secs: "adjust_used_cpu_run_secs ACCT_POLICY_JOB_BEGIN job0 = 1200"
  by (simp add: adjust_used_cpu_run_secs_def ex_defs)

lemma ex_mem: "adjust_job_memory job0 n = 0"
  by (simp add: adjust_job_memory_def ex_defs)

lemma ex_job_fields:
  "assoc_ptr job0 = [assoc0, assoc_root0]" "total_cpus job0 = 2" "node_cnt job0 = 1"
  "job_record.user_id job0 = 1000"
  by (simp_all add: job0_def)

lemma ex_assoc_usage:
  "assoc_rec.usage assoc0 = assoc_usage0" "assoc_rec.usage assoc_root0 = assoc_usage0"
  "used_jobs assoc_usage0 = 0" "used_submit_jobs assoc_usage0 = 0"
  "assoc_usage.grp_used_cpus assoc_usage0 = 0" "assoc_usage.grp_used_mem assoc_usage0 = 0"
  "assoc_usage.grp_used_nodes assoc_usage0 = 0"
  "assoc_usage.grp_used_cpu_run_secs assoc_usage0 = 0"
  by (simp_all add: assoc0_def assoc_root0_def assoc_usage0_def)

lemma ex_qos_usage:
  "qos_heap ctld0 1 = qos0" "qos_heap ctld0 (Suc 0) = qos0"
  "grp_used_jobs (qos_rec.usage qos0) = 0" "grp_used_submit_jobs (qos_rec.usage qos0) = 0"
  "qos_usage.grp_used_cpus (qos_rec.usage qos0) = 0"
  "qos_usage.grp_used_mem (qos_rec.usage qos0) = 0"
  "qos_usage.grp_used_nodes (qos_rec.usage qos0) = 0"
  "qos_usage.grp_used_cpu_run_secs (qos_rec.usage qos0) = 0"
  "user_limit_list (qos_rec.usage qos0) = None"
  "user_usage qos0 u = new_used_limits u"
  by (simp_all add: ctld0_def qos0_def slurmdb_init_qos_rec_def user_usage_def
      used_limits_or_scratch_def get_used_limits_for_user_def)

lemma ex_root:
  "assoc_rec.id assoc_root0 = 1" "assoc_mgr_root_assoc ctld0 = Some 1"
  "job_record.time_limit job0 = 10"
  by (simp_all add: ex_defs)

lemma ex_names:
  "qos_rec.name qos0 = ''normal''" "acct assoc0 = ''physics''" "acct assoc_root0 = ''root''"
  by (simp_all add: ex_defs)

subsection \<open>The QOS ordering resolver\<close>

lemma set_qos_order_none:
  "job_record.qos_ptr job_ptr = None \<Longrightarrow> set_qos_order s job_ptr = (part_qos_ptr job_ptr, None)"
  by (simp add: set_qos_order_def split: option.split)

lemma set_qos_order_job_only:
  "job_record.qos_ptr job_ptr = Some jq \<Longrightarrow> part_qos_ptr job_ptr = None \<Longrightarrow>
   set_qos_order s job_ptr = (Some jq, None)"
  by (simp add: set_qos_order_def)

lemma set_qos_order_both:
  "job_record.qos_ptr job_ptr = Some jq \<Longrightarrow> part_qos_ptr job_ptr = Some pq \<Longrightarrow>
   set_qos_order s job_ptr =
     (if jq = pq then (Some jq, None)
      else if QOS_FLAG_PART_QOS \<in> flags (qos_heap s jq) then (Some jq, Some pq)
      else (Some pq, Some jq))"
  by (auto simp add: set_qos_order_def)

lemma set_qos_order_distinct:
  "set_qos_order s job_ptr = (Some p1, Some p2) \<Longrightarrow> p1 \<noteq> p2"
  by (auto simp add: set_qos_order_def Let_def split: option.splits if_splits)

lemma set_qos_order_second_only:
  "set_qos_order s job_ptr = (None, q2) \<Longrightarrow> q2 = None"
  by (auto simp add: set_qos_order_def Let_def split: option.splits if_splits)

text \<open>
  C8. The pair that \<^verbatim>\<open>_set_qos_order\<close> gives for a job: both slots are empty when neither
  the job nor its partition has a QOS; when exactly one of the two has a QOS, it is the
  first slot and the second is empty; when both have one, the job's QOS comes first if
  it carries \<^verbatim>\<open>QOS_FLAG_PART_QOS\<close> and the partition's QOS comes first otherwise; and when
  both are the same QOS object the second slot is empty.
\<close>

theorem set_qos_order_resolves:
  "(job_record.qos_ptr job_ptr = None \<and> part_qos_ptr job_ptr = None
      \<longrightarrow> set_qos_order s job_ptr = (None, None))
   \<and> (job_record.qos_ptr job_ptr = Some q \<and> part_qos_ptr job_ptr = None
      \<longrightarrow> set_qos_order s job_ptr = (Some q, None))
   \<and> (job_record.qos_ptr job_ptr = None \<and> part_qos_ptr job_ptr = Some q
      \<longrightarrow> set_qos_order s job_ptr = (Some q, None))
   \<and> (job_record.qos_ptr job_ptr = Some jq \<and> part_qos_ptr job_ptr = Some pq \<and> jq \<noteq> pq
       \<and> QOS_FLAG_PART_QOS \<in> flags (qos_heap s jq)
      \<longrightarrow> set_qos_order s job_ptr = (Some jq, Some pq))
   \<and> (job_record.qos_ptr job_ptr = Some jq \<and> part_qos_ptr job_ptr = Some pq \<and> jq \<noteq> pq
       \<and> QOS_FLAG_PART_QOS \<notin> flags (qos_heap s jq)
      \<longrightarrow> set_qos_order s job_ptr = (Some pq, Some jq))
   \<and> (job_record.qos_ptr job_ptr = Some q \<and> part_qos_ptr job_ptr = Some q
      \<longrightarrow> set_qos_order s job_ptr = (Some q, None))"
  by (simp add: set_qos_order_none set_qos_order_job_only set_qos_order_both)

text \<open>The job's QOS 2 overrides the partition's QOS 1; the job's QOS 1 yields to the
  partition's QOS 2; a job whose QOS is also its partition's has one QOS; a job with a
  QOS on a partition that is not given has one; a job with no QOS on a partition with none
  has none.\<close>

theorem set_qos_order_resolves_witness:
  "set_qos_order ctld0 (job0\<lparr>qos_ptr := Some 2, part_ptr := Some (part0\<lparr>part_record.qos_ptr := Some 1\<rparr>)\<rparr>)
     = (Some 2, Some 1)
   \<and> set_qos_order ctld0 (job0\<lparr>qos_ptr := Some 1, part_ptr := Some (part0\<lparr>part_record.qos_ptr := Some 2\<rparr>)\<rparr>)
     = (Some 2, Some 1)
   \<and> set_qos_order ctld0 (job0\<lparr>qos_ptr := Some 2, part_ptr := Some (part0\<lparr>part_record.qos_ptr := Some 2\<rparr>)\<rparr>)
     = (Some 2, None)
   \<and> set_qos_order ctld0 (job0\<lparr>qos_ptr := Some 1, part_ptr := None\<rparr>) = (Some 1, None)
   \<and> set_qos_order ctld0 (job0\<lparr>qos_ptr := None\<rparr>) = (None, None)"
proof -
  note defs = job0_def part0_def ctld0_def qos0_def part_qos_ptr_def slurmdb_init_qos_rec_def
  have "set_qos_order ctld0
          (job0\<lparr>qos_ptr := Some 2, part_ptr := Some (part0\<lparr>part_record.qos_ptr := Some 1\<rparr>)\<rparr>)
        = (Some 2, Some 1)"
    using set_qos_order_resolves
      [where job_ptr = "job0\<lparr>qos_ptr := Some 2, part_ptr := Some (part0\<lparr>part_record.qos_ptr := Some 1\<rparr>)\<rparr>"
         and s = ctld0 and jq = 2 and pq = 1]
    by (simp add: defs)
  moreover have "set_qos_order ctld0
          (job0\<lparr>qos_ptr := Some 1, part_ptr := Some (part0\<lparr>part_record.qos_ptr := Some 2\<rparr>)\<rparr>)
        = (Some 2, Some 1)"
    using set_qos_order_resolves
      [where job_ptr = "job0\<lparr>qos_ptr := Some 1, part_ptr := Some (part0\<lparr>part_record.qos_ptr := Some 2\<rparr>)\<rparr>"
         and s = ctld0 and jq = 1 and pq = 2]
    by (simp add: defs)
  moreover have "set_qos_order ctld0
          (job0\<lparr>qos_ptr := Some 2, part_ptr := Some (part0\<lparr>part_record.qos_ptr := Some 2\<rparr>)\<rparr>)
        = (Some 2, None)"
    using set_qos_order_resolves
      [where job_ptr = "job0\<lparr>qos_ptr := Some 2, part_ptr := Some (part0\<lparr>part_record.qos_ptr := Some 2\<rparr>)\<rparr>"
         and s = ctld0 and q = 2]
    by (simp add: defs)
  moreover have "set_qos_order ctld0 (job0\<lparr>qos_ptr := Some 1, part_ptr := None\<rparr>) = (Some 1, None)"
    using set_qos_order_resolves
      [where job_ptr = "job0\<lparr>qos_ptr := Some 1, part_ptr := None\<rparr>" and s = ctld0 and q = 1]
    by (simp add: defs)
  moreover have "set_qos_order ctld0 (job0\<lparr>qos_ptr := None\<rparr>) = (None, None)"
    using set_qos_order_resolves [where job_ptr = "job0\<lparr>qos_ptr := None\<rparr>" and s = ctld0]
    by (simp add: defs)
  ultimately show ?thesis by simp
qed

subsection \<open>The usage adjuster: one call\<close>


lemma valid_job_assoc_bound: "job_assoc_bound job_ptr \<Longrightarrow> valid_job_assoc s job_ptr = (True, job_ptr)"
  by (auto simp add: job_assoc_bound_def valid_job_assoc_def split: list.splits)

lemma adjust_assoc_chain_map:
  "fst (adjust_assoc_chain ty job_ptr nodecnt secs mem chain) =
     map (\<lambda>a. a\<lparr>assoc_rec.usage :=
                 fst (assoc_usage_switch ty job_ptr (acct a) nodecnt secs mem (assoc_rec.usage a))\<rparr>)
       chain"
  by (induction chain) (simp_all add: split_beta Let_def)

lemma adjust_limit_usage_chain:
  assumes "ACCOUNTING_ENFORCE_LIMITS \<in> accounting_enforce s" and "job_assoc_bound job_ptr"
    and "job_end job_ptr s = (job_ptr, s)"
  shows "assoc_ptr (fst (adjust_limit_usage job_end ty job_ptr s)) =
           map (assoc_adjust ty job_ptr) (assoc_ptr job_ptr)"
  using assms
  by (simp add: adjust_limit_usage_def valid_job_assoc_bound split_beta Let_def
      adjust_assoc_chain_map assoc_adjust_def)


subsection \<open>Counters that stay in the signed range\<close>


lemma sint_nonneg32: 
  assumes "unat (w::32 word) < 2^31" shows "\<not> sint w < 0"
proof -
  have "int (unat w) < int (2^31)" using assms by (simp only: of_nat_less_iff)
  then have u: "uint w < 2^31" by (simp only: uint_nat) simp
  have "sint w = signed_take_bit 31 (uint w)" by (simp add: sint_uint)
  also have "\<dots> = uint w" 
  proof (rule signed_take_bit_int_eq_self)
    show "- (2 ^ 31) \<le> uint w" by (rule order_trans [of _ 0]) simp_all
    show "uint w < 2 ^ 31" by (rule u)
  qed
  finally show ?thesis by simp
qed

lemma unat_lin32: 
  assumes "unat (c::32 word) + k * unat d < 2^31" 
  shows "unat (c + of_nat k * d) = unat c + k * unat d"
proof -
  have "c + of_nat k * d = of_nat (unat c + k * unat d)" by simp
  then have "unat (c + of_nat k * d) = unat (of_nat (unat c + k * unat d) :: 32 word)"
    by (simp only:)
  also have "\<dots> = (unat c + k * unat d) mod 2^32" by (simp only: unat_of_nat) simp
  also have "\<dots> = unat c + k * unat d" using assms by simp
  finally show ?thesis .
qed

lemma sub_clamp_open:
  assumes "unat (c::32 word) + Suc k * unat d < 2^31"
  shows "sub_clamp (c + of_nat (Suc k) * d) d = c + of_nat k * d"
proof -
  have e: "c + of_nat (Suc k) * d - d = c + of_nat k * d" by (simp add: algebra_simps)
  have "unat c + k * unat d < 2^31" using assms by simp
  then have "unat (c + of_nat k * d) < 2^31" by (simp add: unat_lin32)
  then have "\<not> sint (c + of_nat k * d) < 0" by (rule sint_nonneg32)
  then show ?thesis unfolding sub_clamp_def e by simp
qed

lemma sub_clamp_open1:
  assumes "unat (c::32 word) + Suc k < 2^31"
  shows "sub_clamp (c + of_nat (Suc k)) 1 = c + of_nat k"
  using sub_clamp_open [of c k 1] assms by simp

lemma open_nonzero:
  assumes "unat (c::32 word) + Suc k < 2^31"
  shows "c + of_nat (Suc k) \<noteq> 0"
proof -
  have "unat (c + of_nat (Suc k) * 1) = unat c + Suc k * unat (1::32 word)"
    by (rule unat_lin32) (use assms in simp)
  then have "unat (c + of_nat (Suc k)) \<noteq> 0" by simp
  then show ?thesis by (metis unat_0) 
qed

lemma assoc_switch_add:
  "fst (assoc_usage_switch ACCT_POLICY_ADD_SUBMIT job_ptr nm (node_cnt job_ptr) secs
          (adjust_job_memory job_ptr (node_cnt job_ptr)) (assoc_usage_at job_ptr g n m k))
   = assoc_usage_at job_ptr g (Suc n) m k"
  by (simp add: assoc_usage_at_def algebra_simps)

lemma assoc_switch_begin:
  "fst (assoc_usage_switch ACCT_POLICY_JOB_BEGIN job_ptr nm (node_cnt job_ptr) 
          (adjust_used_cpu_run_secs ACCT_POLICY_JOB_BEGIN job_ptr)
          (adjust_job_memory job_ptr (node_cnt job_ptr)) (assoc_usage_at job_ptr g n m k))
   = assoc_usage_at job_ptr g n (Suc m) (Suc k)"
  by (simp add: assoc_usage_at_def algebra_simps)

lemma assoc_switch_rem:
  assumes "assoc_room job_ptr N g" "0 < n" "n \<le> N" 
  shows "fst (assoc_usage_switch ACCT_POLICY_REM_SUBMIT job_ptr nm (node_cnt job_ptr) secs
          (adjust_job_memory job_ptr (node_cnt job_ptr)) (assoc_usage_at job_ptr g n m k))
   = assoc_usage_at job_ptr g (n - 1) m k"
proof -
  obtain n' where n: "n = Suc n'" using assms(2) by (cases n) auto
  have "unat (used_submit_jobs g) + Suc n' < 2^31" using assms n by (simp add: assoc_room_def)
  then have "used_submit_jobs g + of_nat (Suc n') \<noteq> 0" by (rule open_nonzero)
  then show ?thesis unfolding n by (simp add: assoc_usage_at_def)
qed

lemma assoc_switch_fini:
  assumes "assoc_room job_ptr N g" "0 < m" "m \<le> N" 
  shows "fst (assoc_usage_switch ACCT_POLICY_JOB_FINI job_ptr nm (node_cnt job_ptr) secs
          (adjust_job_memory job_ptr (node_cnt job_ptr)) (assoc_usage_at job_ptr g n m k))
   = assoc_usage_at job_ptr g n (m - 1) k"
proof -
  obtain m' where m: "m = Suc m'" using assms(2) by (cases m) auto
  have le: "\<And>x::nat. Suc m' * x \<le> N * x" using assms(3) m by (simp only: mult_le_mono1)
  have r: "unat (used_jobs g) + Suc m' < 2^31"
    "unat (assoc_usage.grp_used_cpus g) + Suc m' * unat (total_cpus job_ptr) < 2 ^ 31"
    "unat (assoc_usage.grp_used_mem g)
          + Suc m' * unat (adjust_job_memory job_ptr (node_cnt job_ptr)) < 2 ^ 31"
    "unat (assoc_usage.grp_used_nodes g) + Suc m' * unat (node_cnt job_ptr) < 2 ^ 31"
    using assms(1,3) m le [of "unat (total_cpus job_ptr)"] 
       le [of "unat (adjust_job_memory job_ptr (node_cnt job_ptr))"]
       le [of "unat (node_cnt job_ptr)"]
    unfolding assoc_room_def by linarith+
  have nz: "used_jobs g + of_nat (Suc m') \<noteq> 0" using r(1) by (rule open_nonzero)
  show ?thesis unfolding m
    using nz sub_clamp_open [OF r(2)] sub_clamp_open [OF r(3)] sub_clamp_open [OF r(4)]
    by (simp add: assoc_usage_at_def)
qed

subsection \<open>Sequences of events on one association\<close>

lemma assoc_run_open:
  "open_events n m evs \<Longrightarrow> assoc_room job_ptr N g \<Longrightarrow> n + length evs \<le> N \<Longrightarrow>
   m + length evs \<le> N \<Longrightarrow>
   assoc_run job_ptr evs (a\<lparr>assoc_rec.usage := assoc_usage_at job_ptr g n m k\<rparr>)
   = a\<lparr>assoc_rec.usage := assoc_usage_at job_ptr g 0 0 (k + count_events ACCT_POLICY_JOB_BEGIN evs)\<rparr>"
proof (induction evs arbitrary: n m k)
  case Nil
  then show ?case by (simp add: count_events_def)
next
  case (Cons ty evs)
  show ?case
  proof (cases ty)
    case ACCT_POLICY_ADD_SUBMIT
    then show ?thesis using Cons.prems Cons.IH [of "Suc n" m k]
      by (simp add: assoc_adjust_def assoc_switch_add count_events_def
          del: assoc_usage_switch.simps)
  next
    case ACCT_POLICY_REM_SUBMIT
    then show ?thesis using Cons.prems Cons.IH [of "n - 1" m k]
      by (simp add: assoc_adjust_def assoc_switch_rem [where N = N] count_events_def
          del: assoc_usage_switch.simps)
  next
    case ACCT_POLICY_JOB_BEGIN
    then show ?thesis using Cons.prems Cons.IH [of n "Suc m" "Suc k"]
      by (simp add: assoc_adjust_def assoc_switch_begin count_events_def
          del: assoc_usage_switch.simps)
  next
    case ACCT_POLICY_JOB_FINI
    then show ?thesis using Cons.prems Cons.IH [of n "m - 1" k]
      by (simp add: assoc_adjust_def assoc_switch_fini [where N = N] count_events_def
          del: assoc_usage_switch.simps)
  qed
qed

lemma assoc_usage_at_0: "assoc_usage_at job_ptr g 0 0 0 = g"
  by (simp add: assoc_usage_at_def)

subsection \<open>The per-user list of a QOS\<close>

lemma list_find_uid_Some:
  "list_find_uid l u = Some i \<Longrightarrow> i < length l \<and> used_limits.uid (l ! i) = u"
  by (induction l arbitrary: i) (auto split: if_splits)

lemma list_find_uid_update:
  "list_find_uid l u = Some i \<Longrightarrow> used_limits.uid x = u \<Longrightarrow> list_find_uid (l[i := x]) u = Some i"
  by (induction l arbitrary: i) (auto split: if_splits)

lemma list_find_uid_append:
  "list_find_uid l u = None \<Longrightarrow>
   list_find_uid (l @ [x]) u = (if used_limits.uid x = u then Some (length l) else None)"
  by (induction l) (auto split: if_splits)

lemma list_find_uid_append_found:
  "list_find_uid l u = Some i \<Longrightarrow> list_find_uid (l @ xs) u = Some i"
  by (induction l arbitrary: i) (auto split: if_splits)

lemma list_find_uid_update_other:
  "used_limits.uid x = used_limits.uid (l ! i) \<Longrightarrow> i < length l \<Longrightarrow>
   list_find_uid (l[i := x]) u = list_find_uid l u"
  by (induction l arbitrary: i) (auto simp add: nth_Cons split: nat.splits)

lemma ensure_user_find:
  "list_find_uid (ensure_user lst u) u = Some (user_index lst u)"
  by (auto simp add: ensure_user_def user_index_def Let_def list_find_uid_append
      new_used_limits_def split: option.splits)

lemma user_index_less: "user_index lst u < length (ensure_user lst u)"
  using ensure_user_find [of lst u] list_find_uid_Some by blast

lemma ensure_user_uid: "used_limits.uid (ensure_user lst u ! user_index lst u) = u"
  using ensure_user_find [of lst u] list_find_uid_Some by blast

lemma ensure_user_found:
  "list_find_uid l u = Some i \<Longrightarrow> ensure_user (Some l) u = l \<and> user_index (Some l) u = i"
  by (simp add: ensure_user_def user_index_def)

lemma ensure_user_entry:
  "ensure_user lst u ! user_index lst u =
     (case get_used_limits_for_user lst u of None \<Rightarrow> new_used_limits u | Some r \<Rightarrow> r)"
  by (auto simp add: ensure_user_def user_index_def get_used_limits_for_user_def Let_def
      split: option.splits)

lemma ensure_user_user_usage:
  "ensure_user (user_limit_list (qos_rec.usage q)) u ! user_index (user_limit_list (qos_rec.usage q)) u
   = user_usage q u"
  by (simp add: ensure_user_entry user_usage_def used_limits_or_scratch_def split: option.splits)

lemma qos_adjust_unfold:
  "qos_adjust ty job_ptr q =
     (let l1 = ensure_user (user_limit_list (qos_rec.usage q)) (job_record.user_id job_ptr);
          i = user_index (user_limit_list (qos_rec.usage q)) (job_record.user_id job_ptr);
          r = qos_usage_switch ty job_ptr (qos_rec.name q) (node_cnt job_ptr)
                (adjust_used_cpu_run_secs ty job_ptr)
                (adjust_job_memory job_ptr (node_cnt job_ptr)) (qos_rec.usage q) (l1 ! i)
      in q\<lparr>qos_rec.usage := (fst r)\<lparr>user_limit_list := Some (l1[i := fst (snd r)])\<rparr>\<rparr>)"
  by (simp add: qos_adjust_def qos_adjust_rec_def ensure_user_def user_index_def Let_def
      split_beta split: option.splits)


subsection \<open>Sequences of events on one QOS\<close>


lemma qos_switch_list:
  "fst (qos_usage_switch ty job_ptr nm nc secs mem (g\<lparr>user_limit_list := X\<rparr>) u)
     = (fst (qos_usage_switch ty job_ptr nm nc secs mem g u))\<lparr>user_limit_list := X\<rparr>"
  "fst (snd (qos_usage_switch ty job_ptr nm nc secs mem (g\<lparr>user_limit_list := X\<rparr>) u))
     = fst (snd (qos_usage_switch ty job_ptr nm nc secs mem g u))"
  by (cases ty; simp)+

lemma qos_switch_uid:
  "used_limits.uid (fst (snd (qos_usage_switch ty job_ptr nm nc secs mem g u))) = used_limits.uid u"
  by (cases ty; simp)

lemma used_limits_at_uid: "used_limits.uid (used_limits_at job_ptr u n m) = used_limits.uid u"
  by (simp add: used_limits_at_def)

lemma qos_switch_add:
  "fst (qos_usage_switch ACCT_POLICY_ADD_SUBMIT job_ptr nm (node_cnt job_ptr) secs
          (adjust_job_memory job_ptr (node_cnt job_ptr)) (qos_usage_at job_ptr g n m k)
          (used_limits_at job_ptr u n m))
   = qos_usage_at job_ptr g (Suc n) m k"
  "fst (snd (qos_usage_switch ACCT_POLICY_ADD_SUBMIT job_ptr nm (node_cnt job_ptr) secs
          (adjust_job_memory job_ptr (node_cnt job_ptr)) (qos_usage_at job_ptr g n m k)
          (used_limits_at job_ptr u n m)))
   = used_limits_at job_ptr u (Suc n) m"
  by (simp_all add: qos_usage_at_def used_limits_at_def algebra_simps)

lemma qos_switch_begin:
  "fst (qos_usage_switch ACCT_POLICY_JOB_BEGIN job_ptr nm (node_cnt job_ptr)
          (adjust_used_cpu_run_secs ACCT_POLICY_JOB_BEGIN job_ptr)
          (adjust_job_memory job_ptr (node_cnt job_ptr)) (qos_usage_at job_ptr g n m k)
          (used_limits_at job_ptr u n m))
   = qos_usage_at job_ptr g n (Suc m) (Suc k)"
  "fst (snd (qos_usage_switch ACCT_POLICY_JOB_BEGIN job_ptr nm (node_cnt job_ptr)
          (adjust_used_cpu_run_secs ACCT_POLICY_JOB_BEGIN job_ptr)
          (adjust_job_memory job_ptr (node_cnt job_ptr)) (qos_usage_at job_ptr g n m k)
          (used_limits_at job_ptr u n m)))
   = used_limits_at job_ptr u n (Suc m)"
  by (simp_all add: qos_usage_at_def used_limits_at_def algebra_simps)

lemma qos_switch_rem:
  assumes "unat (grp_used_submit_jobs g) + N < 2 ^ 31" "used_limits_room job_ptr N u"
    "0 < n" "n \<le> N"
  shows "fst (qos_usage_switch ACCT_POLICY_REM_SUBMIT job_ptr nm (node_cnt job_ptr) secs
          (adjust_job_memory job_ptr (node_cnt job_ptr)) (qos_usage_at job_ptr g n m k)
          (used_limits_at job_ptr u n m))
   = qos_usage_at job_ptr g (n - 1) m k"
  and "fst (snd (qos_usage_switch ACCT_POLICY_REM_SUBMIT job_ptr nm (node_cnt job_ptr) secs
          (adjust_job_memory job_ptr (node_cnt job_ptr)) (qos_usage_at job_ptr g n m k)
          (used_limits_at job_ptr u n m)))
   = used_limits_at job_ptr u (n - 1) m"
proof -
  obtain n' where n: "n = Suc n'" using assms(3) by (cases n) auto
  have "unat (grp_used_submit_jobs g) + Suc n' < 2^31" using assms n by simp
  then have a: "grp_used_submit_jobs g + of_nat (Suc n') \<noteq> 0" by (rule open_nonzero)
  have "unat (submit_jobs u) + Suc n' < 2^31" using assms n by (simp add: used_limits_room_def)
  then have b: "submit_jobs u + of_nat (Suc n') \<noteq> 0" by (rule open_nonzero)
  show "fst (qos_usage_switch ACCT_POLICY_REM_SUBMIT job_ptr nm (node_cnt job_ptr) secs
          (adjust_job_memory job_ptr (node_cnt job_ptr)) (qos_usage_at job_ptr g n m k)
          (used_limits_at job_ptr u n m))
   = qos_usage_at job_ptr g (n - 1) m k"
    using a unfolding n by (simp add: qos_usage_at_def used_limits_at_def)
  show "fst (snd (qos_usage_switch ACCT_POLICY_REM_SUBMIT job_ptr nm (node_cnt job_ptr) secs
          (adjust_job_memory job_ptr (node_cnt job_ptr)) (qos_usage_at job_ptr g n m k)
          (used_limits_at job_ptr u n m)))
   = used_limits_at job_ptr u (n - 1) m"
    using b unfolding n by (simp add: qos_usage_at_def used_limits_at_def)
qed

lemma qos_switch_fini:
  assumes "unat (grp_used_jobs g) + N < 2 ^ 31"
    "unat (qos_usage.grp_used_cpus g) + N * unat (total_cpus job_ptr) < 2 ^ 31"
    "unat (qos_usage.grp_used_mem g) + N * unat (adjust_job_memory job_ptr (node_cnt job_ptr)) < 2 ^ 31"
    "unat (qos_usage.grp_used_nodes g) + N * unat (node_cnt job_ptr) < 2 ^ 31"
    "used_limits_room job_ptr N u"
    "0 < m" "m \<le> N"
  shows "fst (qos_usage_switch ACCT_POLICY_JOB_FINI job_ptr nm (node_cnt job_ptr) secs
          (adjust_job_memory job_ptr (node_cnt job_ptr)) (qos_usage_at job_ptr g n m k)
          (used_limits_at job_ptr u n m))
   = qos_usage_at job_ptr g n (m - 1) k"
  and "fst (snd (qos_usage_switch ACCT_POLICY_JOB_FINI job_ptr nm (node_cnt job_ptr) secs
          (adjust_job_memory job_ptr (node_cnt job_ptr)) (qos_usage_at job_ptr g n m k)
          (used_limits_at job_ptr u n m)))
   = used_limits_at job_ptr u n (m - 1)"
proof -
  obtain m' where m: "m = Suc m'" using assms(6) by (cases m) auto
  have le: "\<And>x::nat. Suc m' * x \<le> N * x" using assms(7) m by (simp only: mult_le_mono1)
  have r: "unat (grp_used_jobs g) + Suc m' * unat (1::32 word) < 2^31"
    "unat (qos_usage.grp_used_cpus g) + Suc m' * unat (total_cpus job_ptr) < 2 ^ 31"
    "unat (qos_usage.grp_used_mem g)
          + Suc m' * unat (adjust_job_memory job_ptr (node_cnt job_ptr)) < 2 ^ 31"
    "unat (qos_usage.grp_used_nodes g) + Suc m' * unat (node_cnt job_ptr) < 2 ^ 31"
    using assms(1-4,7) m le [of "unat (total_cpus job_ptr)"] 
       le [of "unat (adjust_job_memory job_ptr (node_cnt job_ptr))"]
       le [of "unat (node_cnt job_ptr)"]
    by simp_all
  have ru: "unat (jobs u) + Suc m' * unat (1::32 word) < 2^31"
    "unat (cpus u) + Suc m' * unat (total_cpus job_ptr) < 2 ^ 31"
    "unat (nodes u) + Suc m' * unat (node_cnt job_ptr) < 2 ^ 31"
    using assms(5,7) m le [of "unat (total_cpus job_ptr)"] 
       le [of "unat (node_cnt job_ptr)"]
    unfolding used_limits_room_def by simp_all
  show "fst (qos_usage_switch ACCT_POLICY_JOB_FINI job_ptr nm (node_cnt job_ptr) secs
          (adjust_job_memory job_ptr (node_cnt job_ptr)) (qos_usage_at job_ptr g n m k)
          (used_limits_at job_ptr u n m))
   = qos_usage_at job_ptr g n (m - 1) k"
    unfolding m
    using sub_clamp_open [OF r(1)] sub_clamp_open [OF r(2)] sub_clamp_open [OF r(3)]
      sub_clamp_open [OF r(4)]
    by (simp add: qos_usage_at_def used_limits_at_def)
  show "fst (snd (qos_usage_switch ACCT_POLICY_JOB_FINI job_ptr nm (node_cnt job_ptr) secs
          (adjust_job_memory job_ptr (node_cnt job_ptr)) (qos_usage_at job_ptr g n m k)
          (used_limits_at job_ptr u n m)))
   = used_limits_at job_ptr u n (m - 1)"
    unfolding m
    using sub_clamp_open [OF ru(1)] sub_clamp_open [OF ru(2)] sub_clamp_open [OF ru(3)]
    by (simp add: qos_usage_at_def used_limits_at_def)
qed



lemma qos_at_list:
  "user_limit_list (qos_rec.usage (qos_at job_ptr q n m k)) =
     Some ((ensure_user (user_limit_list (qos_rec.usage q)) (job_record.user_id job_ptr))
            [user_index (user_limit_list (qos_rec.usage q)) (job_record.user_id job_ptr) :=
               used_limits_at job_ptr (user_usage q (job_record.user_id job_ptr)) n m])"
  by (simp add: qos_at_def Let_def ensure_user_user_usage)

lemma qos_at_ensure:
  "ensure_user (user_limit_list (qos_rec.usage (qos_at job_ptr q n m k))) (job_record.user_id job_ptr)
     = (ensure_user (user_limit_list (qos_rec.usage q)) (job_record.user_id job_ptr))
            [user_index (user_limit_list (qos_rec.usage q)) (job_record.user_id job_ptr) :=
               used_limits_at job_ptr (user_usage q (job_record.user_id job_ptr)) n m]"
  "user_index (user_limit_list (qos_rec.usage (qos_at job_ptr q n m k))) (job_record.user_id job_ptr)
     = user_index (user_limit_list (qos_rec.usage q)) (job_record.user_id job_ptr)"
proof -
  let ?u = "job_record.user_id job_ptr"
  let ?l1 = "ensure_user (user_limit_list (qos_rec.usage q)) ?u"
  let ?i = "user_index (user_limit_list (qos_rec.usage q)) ?u"
  let ?x = "used_limits_at job_ptr (user_usage q ?u) n m"
  have "used_limits.uid ?x = ?u"
    by (simp add: used_limits_at_uid flip: ensure_user_user_usage) (rule ensure_user_uid)
  then have "list_find_uid (?l1[?i := ?x]) ?u = Some ?i"
    using ensure_user_find [of "user_limit_list (qos_rec.usage q)" ?u]
    by (simp add: list_find_uid_update)
  then have "ensure_user (Some (?l1[?i := ?x])) ?u = ?l1[?i := ?x]
             \<and> user_index (Some (?l1[?i := ?x])) ?u = ?i"
    by (rule ensure_user_found)
  then show "ensure_user (user_limit_list (qos_rec.usage (qos_at job_ptr q n m k))) ?u = ?l1[?i := ?x]"
    and "user_index (user_limit_list (qos_rec.usage (qos_at job_ptr q n m k))) ?u = ?i"
    by (simp_all add: qos_at_list)
qed

lemma qos_adjust_at:
  "qos_adjust ty job_ptr (qos_at job_ptr q n m k) =
     (let l1 = ensure_user (user_limit_list (qos_rec.usage q)) (job_record.user_id job_ptr);
          i = user_index (user_limit_list (qos_rec.usage q)) (job_record.user_id job_ptr);
          r = qos_usage_switch ty job_ptr (qos_rec.name q) (node_cnt job_ptr)
                (adjust_used_cpu_run_secs ty job_ptr)
                (adjust_job_memory job_ptr (node_cnt job_ptr))
                (qos_usage_at job_ptr (qos_rec.usage q) n m k)
                (used_limits_at job_ptr (user_usage q (job_record.user_id job_ptr)) n m)
      in q\<lparr>qos_rec.usage := (fst r)\<lparr>user_limit_list := Some (l1[i := fst (snd r)])\<rparr>\<rparr>)"
proof -
  let ?u = "job_record.user_id job_ptr"
  let ?l1 = "ensure_user (user_limit_list (qos_rec.usage q)) ?u"
  let ?i = "user_index (user_limit_list (qos_rec.usage q)) ?u"
  have nth: "?l1[?i := x] ! ?i = x" for x
    by (simp add: user_index_less)
  have us: "qos_rec.usage (qos_at job_ptr q n m k) =
      (qos_usage_at job_ptr (qos_rec.usage q) n m k)
        \<lparr>user_limit_list := Some (?l1[?i := used_limits_at job_ptr (user_usage q ?u) n m])\<rparr>"
    by (simp add: qos_at_def Let_def ensure_user_user_usage)
  have nm: "qos_rec.name (qos_at job_ptr q n m k) = qos_rec.name q"
    by (simp add: qos_at_def Let_def)
  have upd: "qos_at job_ptr q n m k\<lparr>qos_rec.usage := X\<rparr> = q\<lparr>qos_rec.usage := X\<rparr>" for X
    by (simp add: qos_at_def Let_def)
  show ?thesis
    unfolding qos_adjust_unfold [of ty job_ptr "qos_at job_ptr q n m k"] Let_def qos_at_ensure nm nth upd
    unfolding us qos_switch_list
    by simp
qed



lemma qos_at_eq:
  "q\<lparr>qos_rec.usage := (qos_usage_at job_ptr (qos_rec.usage q) n m k)
        \<lparr>user_limit_list := Some ((ensure_user (user_limit_list (qos_rec.usage q)) (job_record.user_id job_ptr))
            [user_index (user_limit_list (qos_rec.usage q)) (job_record.user_id job_ptr) :=
               used_limits_at job_ptr (user_usage q (job_record.user_id job_ptr)) n m])\<rparr>\<rparr>
   = qos_at job_ptr q n m k"
  by (simp add: qos_at_def Let_def ensure_user_user_usage)


lemma qos_run_open:
  "open_events n m evs \<Longrightarrow> qos_room job_ptr N q \<Longrightarrow> n + length evs \<le> N \<Longrightarrow>
   m + length evs \<le> N \<Longrightarrow>
   qos_run job_ptr evs (qos_at job_ptr q n m k)
   = qos_at job_ptr q 0 0 (k + count_events ACCT_POLICY_JOB_BEGIN evs)"
proof (induction evs arbitrary: n m k)
  case Nil
  then show ?case by (simp add: count_events_def)
next
  case (Cons ty evs)
  let ?g = "qos_rec.usage q"
  let ?u = "user_usage q (job_record.user_id job_ptr)"
  have room: "unat (grp_used_submit_jobs ?g) + N < 2 ^ 31" "used_limits_room job_ptr N ?u"
    "unat (grp_used_jobs ?g) + N < 2 ^ 31"
    "unat (qos_usage.grp_used_cpus ?g) + N * unat (total_cpus job_ptr) < 2 ^ 31"
    "unat (qos_usage.grp_used_mem ?g) + N * unat (adjust_job_memory job_ptr (node_cnt job_ptr)) < 2 ^ 31"
    "unat (qos_usage.grp_used_nodes ?g) + N * unat (node_cnt job_ptr) < 2 ^ 31"
    using Cons.prems(2) by (simp_all add: qos_room_def)
  show ?case
  proof (cases ty)
    case ACCT_POLICY_ADD_SUBMIT
    have "qos_adjust ty job_ptr (qos_at job_ptr q n m k) = qos_at job_ptr q (Suc n) m k"
      unfolding qos_adjust_at Let_def ACCT_POLICY_ADD_SUBMIT qos_switch_add by (rule qos_at_eq)
    then show ?thesis using ACCT_POLICY_ADD_SUBMIT Cons.prems Cons.IH [of "Suc n" m k]
      by (simp add: count_events_def)
  next
    case ACCT_POLICY_REM_SUBMIT
    have c: "0 < n" "n \<le> N" using Cons.prems ACCT_POLICY_REM_SUBMIT by simp_all
    have "qos_adjust ty job_ptr (qos_at job_ptr q n m k) = qos_at job_ptr q (n - 1) m k"
      unfolding qos_adjust_at Let_def ACCT_POLICY_REM_SUBMIT
        qos_switch_rem [OF room(1) room(2) c]
      by (rule qos_at_eq)
    then show ?thesis using ACCT_POLICY_REM_SUBMIT Cons.prems Cons.IH [of "n - 1" m k]
      by (simp add: count_events_def)
  next
    case ACCT_POLICY_JOB_BEGIN
    have "qos_adjust ty job_ptr (qos_at job_ptr q n m k) = qos_at job_ptr q n (Suc m) (Suc k)"
      unfolding qos_adjust_at Let_def ACCT_POLICY_JOB_BEGIN qos_switch_begin by (rule qos_at_eq)
    then show ?thesis using ACCT_POLICY_JOB_BEGIN Cons.prems Cons.IH [of n "Suc m" "Suc k"]
      by (simp add: count_events_def)
  next
    case ACCT_POLICY_JOB_FINI
    have c: "0 < m" "m \<le> N" using Cons.prems ACCT_POLICY_JOB_FINI by simp_all
    have "qos_adjust ty job_ptr (qos_at job_ptr q n m k) = qos_at job_ptr q n (m - 1) k"
      unfolding qos_adjust_at Let_def ACCT_POLICY_JOB_FINI
        qos_switch_fini [OF room(3) room(4) room(5) room(6) room(2) c]
      by (rule qos_at_eq)
    then show ?thesis using ACCT_POLICY_JOB_FINI Cons.prems Cons.IH [of n "m - 1" k]
      by (simp add: count_events_def)
  qed
qed

lemma qos_usage_at_0: "qos_usage_at job_ptr g 0 0 0 = g"
  by (simp add: qos_usage_at_def)

lemma used_limits_at_0: "used_limits_at job_ptr u 0 0 = u"
  by (simp add: used_limits_at_def)

text \<open>The first call puts the user's record into the list.\<close>

lemma qos_adjust_first: "qos_adjust ty job_ptr q = qos_adjust ty job_ptr (qos_at job_ptr q 0 0 0)"
  unfolding qos_adjust_at unfolding qos_adjust_unfold 
  by (simp add: Let_def qos_usage_at_0 used_limits_at_0 ensure_user_user_usage)

lemma qos_run_first: "evs \<noteq> [] \<Longrightarrow> qos_run job_ptr evs q = qos_run job_ptr evs (qos_at job_ptr q 0 0 0)"
  by (cases evs) (simp_all add: qos_adjust_first [of _ job_ptr q])

lemma qos_run_balanced:
  assumes "balanced evs" "qos_room job_ptr (length evs) q" "evs \<noteq> []"
  shows "qos_run job_ptr evs q = qos_at job_ptr q 0 0 (count_events ACCT_POLICY_JOB_BEGIN evs)"
  using qos_run_open [of 0 0 evs job_ptr "length evs" q 0] assms
  by (simp add: balanced_def qos_run_first [of evs job_ptr q])

text \<open>What the counters of such a record are.\<close>

lemma qos_at_usage_fields:
  "grp_used_submit_jobs (qos_rec.usage (qos_at job_ptr q 0 0 k)) = grp_used_submit_jobs (qos_rec.usage q)"
  "grp_used_jobs (qos_rec.usage (qos_at job_ptr q 0 0 k)) = grp_used_jobs (qos_rec.usage q)"
  "qos_usage.grp_used_cpus (qos_rec.usage (qos_at job_ptr q 0 0 k)) = qos_usage.grp_used_cpus (qos_rec.usage q)"
  "qos_usage.grp_used_mem (qos_rec.usage (qos_at job_ptr q 0 0 k)) = qos_usage.grp_used_mem (qos_rec.usage q)"
  "qos_usage.grp_used_nodes (qos_rec.usage (qos_at job_ptr q 0 0 k)) = qos_usage.grp_used_nodes (qos_rec.usage q)"
  "qos_usage.grp_used_cpu_run_secs (qos_rec.usage (qos_at job_ptr q 0 0 k)) =
     qos_usage.grp_used_cpu_run_secs (qos_rec.usage q)
     + of_nat k * adjust_used_cpu_run_secs ACCT_POLICY_JOB_BEGIN job_ptr"
  by (simp_all add: qos_at_def Let_def qos_usage_at_def)

lemma user_usage_qos_at:
  "user_usage (qos_at job_ptr q 0 0 k) u = user_usage q u"
proof -
  let ?lst = "user_limit_list (qos_rec.usage q)"
  let ?uj = "job_record.user_id job_ptr"
  have l: "user_limit_list (qos_rec.usage (qos_at job_ptr q 0 0 k)) = Some (ensure_user ?lst ?uj)"
    by (simp add: qos_at_list used_limits_at_0 flip: ensure_user_user_usage)
  have "get_used_limits_for_user (Some (ensure_user ?lst ?uj)) u =
        (case get_used_limits_for_user ?lst u of
           None \<Rightarrow> if u = ?uj then Some (new_used_limits u) else None
         | Some r \<Rightarrow> Some r)"
    by (auto simp add: get_used_limits_for_user_def ensure_user_def Let_def
        list_find_uid_append list_find_uid_append_found new_used_limits_def nth_append
        dest: list_find_uid_Some split: option.splits if_splits)
  then show ?thesis
    by (simp add: user_usage_def used_limits_or_scratch_def l split: option.splits)
qed



subsection \<open>The usage adjuster on the state\<close>

lemma qos_adjust_flags: "flags (qos_adjust ty job_ptr q) = flags q"
  by (simp add: qos_adjust_unfold Let_def)

lemma qos_usage_switch_job:
  "total_cpus job' = total_cpus job_ptr \<Longrightarrow>
   qos_usage_switch ty job' nm nc secs mem g u = qos_usage_switch ty job_ptr nm nc secs mem g u"
  by (cases ty) simp_all

lemma assoc_usage_switch_job:
  "total_cpus job' = total_cpus job_ptr \<Longrightarrow>
   assoc_usage_switch ty job' nm nc secs mem g = assoc_usage_switch ty job_ptr nm nc secs mem g"
  by (cases ty) simp_all

lemma adjust_job_chain [simp]:
  "adjust_job_memory (job_ptr\<lparr>assoc_ptr := c\<rparr>) nc = adjust_job_memory job_ptr nc"
  "adjust_used_cpu_run_secs ty (job_ptr\<lparr>assoc_ptr := c\<rparr>) = adjust_used_cpu_run_secs ty job_ptr"
  by (simp_all add: adjust_job_memory_def adjust_used_cpu_run_secs_def split: option.splits)

lemma qos_adjust_job_chain [simp]:
  "qos_adjust ty (job_ptr\<lparr>assoc_ptr := c\<rparr>) q = qos_adjust ty job_ptr q"
  by (simp add: qos_adjust_unfold Let_def
      qos_usage_switch_job [of "job_ptr\<lparr>assoc_ptr := c\<rparr>" job_ptr])

lemma assoc_adjust_job_chain [simp]:
  "assoc_adjust ty (job_ptr\<lparr>assoc_ptr := c\<rparr>) a = assoc_adjust ty job_ptr a"
  by (simp add: assoc_adjust_def assoc_usage_switch_job [of "job_ptr\<lparr>assoc_ptr := c\<rparr>" job_ptr])

lemma qos_run_job_chain [simp]:
  "qos_run (job_ptr\<lparr>assoc_ptr := c\<rparr>) evs q = qos_run job_ptr evs q"
  by (induction evs arbitrary: q) simp_all

lemma assoc_run_job_chain [simp]:
  "assoc_run (job_ptr\<lparr>assoc_ptr := c\<rparr>) evs a = assoc_run job_ptr evs a"
  by (induction evs arbitrary: a) simp_all

lemma assoc_adjust_ids [simp]:
  "assoc_rec.id (assoc_adjust ty job_ptr a) = assoc_rec.id a"
  "assoc_rec.uid (assoc_adjust ty job_ptr a) = assoc_rec.uid a"
  by (simp_all add: assoc_adjust_def)

lemma job_assoc_bound_adjust:
  "job_assoc_bound job_ptr \<Longrightarrow>
   job_assoc_bound (job_ptr\<lparr>assoc_ptr := map (assoc_adjust ty job_ptr) (assoc_ptr job_ptr)\<rparr>)"
  by (simp add: job_assoc_bound_def split: list.splits)

lemma qos_adjust_limit_usage_heap:
  "qos_heap (qos_adjust_limit_usage ty job_ptr qos (node_cnt job_ptr)
       (adjust_used_cpu_run_secs ty job_ptr) (adjust_job_memory job_ptr (node_cnt job_ptr)) s)
   = (\<lambda>p. if Some p = qos then qos_adjust ty job_ptr (qos_heap s p) else qos_heap s p)"
  by (auto simp add: qos_adjust_limit_usage_def qos_adjust_def split_beta split: option.splits)

lemma qos_adjust_limit_usage_frame:
  "qos_adjust_limit_usage ty job_ptr qos nc secs mem s
   = s\<lparr>qos_heap := qos_heap (qos_adjust_limit_usage ty job_ptr qos nc secs mem s),
       debug_log := debug_log (qos_adjust_limit_usage ty job_ptr qos nc secs mem s)\<rparr>"
  by (simp add: qos_adjust_limit_usage_def split_beta split: option.splits)

text \<open>One call, for a job whose association is bound, under enforced limits, when the
  plugin leaves the job and the state alone.\<close>

lemma adjust_limit_usage_result:
  assumes "ACCOUNTING_ENFORCE_LIMITS \<in> accounting_enforce s" and "job_assoc_bound job_ptr"
    and "job_end job_ptr s = (job_ptr, s)" and "set_qos_order s job_ptr = (q1, q2)"
  shows "fst (adjust_limit_usage job_end ty job_ptr s) =
           job_ptr\<lparr>assoc_ptr := map (assoc_adjust ty job_ptr) (assoc_ptr job_ptr)\<rparr>"
    and "qos_heap (snd (adjust_limit_usage job_end ty job_ptr s)) =
           (\<lambda>p. if Some p = q1 \<or> Some p = q2 then qos_adjust ty job_ptr (qos_heap s p)
                else qos_heap s p)"
    and "snd (adjust_limit_usage job_end ty job_ptr s) =
           s\<lparr>qos_heap := qos_heap (snd (adjust_limit_usage job_end ty job_ptr s)),
             debug_log := debug_log (snd (adjust_limit_usage job_end ty job_ptr s))\<rparr>"
proof -
  let ?nc = "node_cnt job_ptr"
  let ?secs = "adjust_used_cpu_run_secs ty job_ptr"
  let ?mem = "adjust_job_memory job_ptr ?nc"
  let ?s3 = "qos_adjust_limit_usage ty job_ptr q1 ?nc ?secs ?mem s"
  let ?s4 = "qos_adjust_limit_usage ty job_ptr q2 ?nc ?secs ?mem ?s3"
  let ?r = "adjust_assoc_chain ty job_ptr ?nc ?secs ?mem (assoc_ptr job_ptr)"
  have e: "adjust_limit_usage job_end ty job_ptr s =
        (job_ptr\<lparr>assoc_ptr := fst ?r\<rparr>, ?s4\<lparr>debug_log := debug_log ?s4 @ snd ?r\<rparr>)"
    using assms by (simp add: adjust_limit_usage_def valid_job_assoc_bound split_beta Let_def)
  show "fst (adjust_limit_usage job_end ty job_ptr s) =
           job_ptr\<lparr>assoc_ptr := map (assoc_adjust ty job_ptr) (assoc_ptr job_ptr)\<rparr>"
    by (simp add: e adjust_assoc_chain_map assoc_adjust_def)
  have d: "q1 \<noteq> q2 \<or> q2 = None"
    using assms(4) set_qos_order_distinct [of s job_ptr] set_qos_order_second_only [of s job_ptr]
    by (cases q1; cases q2) auto
  show "qos_heap (snd (adjust_limit_usage job_end ty job_ptr s)) =
           (\<lambda>p. if Some p = q1 \<or> Some p = q2 then qos_adjust ty job_ptr (qos_heap s p)
                else qos_heap s p)"
    using d by (auto simp add: e qos_adjust_limit_usage_heap fun_eq_iff)
  show "snd (adjust_limit_usage job_end ty job_ptr s) =
           s\<lparr>qos_heap := qos_heap (snd (adjust_limit_usage job_end ty job_ptr s)),
             debug_log := debug_log (snd (adjust_limit_usage job_end ty job_ptr s))\<rparr>"
    unfolding e snd_conv
    by (subst qos_adjust_limit_usage_frame [of ty job_ptr q2], 
        subst qos_adjust_limit_usage_frame [of ty job_ptr q1]) simp
qed



lemma set_qos_order_cong:
  "(\<And>p. flags (qos_heap s' p) = flags (qos_heap s p)) \<Longrightarrow>
   job_record.qos_ptr job' = job_record.qos_ptr job_ptr \<Longrightarrow> part_ptr job' = part_ptr job_ptr \<Longrightarrow>
   set_qos_order s' job' = set_qos_order s job_ptr"
  by (simp add: set_qos_order_def part_qos_ptr_def split: option.splits)

text \<open>A sequence of calls.\<close>

lemma adjust_events_result:
  assumes "ACCOUNTING_ENFORCE_LIMITS \<in> accounting_enforce s" and "job_assoc_bound job_ptr"
    and "\<And>j t. job_end j t = (j, t)" and "set_qos_order s job_ptr = (q1, q2)"
  shows "fst (adjust_events job_end evs (job_ptr, s)) =
           job_ptr\<lparr>assoc_ptr := map (assoc_run job_ptr evs) (assoc_ptr job_ptr)\<rparr>
         \<and> qos_heap (snd (adjust_events job_end evs (job_ptr, s))) =
           (\<lambda>p. if Some p = q1 \<or> Some p = q2 then qos_run job_ptr evs (qos_heap s p)
                else qos_heap s p)"
  using assms(1,2,4)
proof (induction evs arbitrary: job_ptr s)
  case Nil
  then show ?case by (simp add: fun_eq_iff)
next
  case (Cons ty evs)
  let ?r = "adjust_limit_usage job_end ty job_ptr s"
  let ?job1 = "job_ptr\<lparr>assoc_ptr := map (assoc_adjust ty job_ptr) (assoc_ptr job_ptr)\<rparr>"
  note one = adjust_limit_usage_result [where job_end = job_end and ty = ty,
      OF Cons.prems(1) Cons.prems(2) assms(3) [of job_ptr s] Cons.prems(3)]
  have j1: "fst ?r = ?job1" by (rule one(1))
  have h1: "qos_heap (snd ?r) =
           (\<lambda>p. if Some p = q1 \<or> Some p = q2 then qos_adjust ty job_ptr (qos_heap s p)
                else qos_heap s p)" by (rule one(2))
  have e1: "ACCOUNTING_ENFORCE_LIMITS \<in> accounting_enforce (snd ?r)"
    by (subst one(3)) (simp add: Cons.prems(1))
  have b1: "job_assoc_bound ?job1" using Cons.prems(2) by (rule job_assoc_bound_adjust)
  have o1: "set_qos_order (snd ?r) ?job1 = (q1, q2)"
    unfolding Cons.prems(3) [symmetric]
    by (rule set_qos_order_cong) (simp_all add: h1 qos_adjust_flags)
  have "adjust_events job_end (ty # evs) (job_ptr, s) = adjust_events job_end evs (?job1, snd ?r)"
    by (simp add: j1 [symmetric])
  then show ?case
    using Cons.IH [OF e1 b1 o1] by (auto simp add: h1 fun_eq_iff comp_def)
qed

subsection \<open>The usage adjuster: balanced sequences\<close>


lemma assoc_run_balanced:
  assumes "balanced evs" "assoc_room job_ptr (length evs) (assoc_rec.usage a)"
  shows "assoc_run job_ptr evs a =
     a\<lparr>assoc_rec.usage := (assoc_rec.usage a)\<lparr>assoc_usage.grp_used_cpu_run_secs :=
          assoc_usage.grp_used_cpu_run_secs (assoc_rec.usage a)
          + of_nat (count_events ACCT_POLICY_JOB_BEGIN evs)
            * adjust_used_cpu_run_secs ACCT_POLICY_JOB_BEGIN job_ptr\<rparr>\<rparr>"
proof -
  have "assoc_run job_ptr evs (a\<lparr>assoc_rec.usage := assoc_usage_at job_ptr (assoc_rec.usage a) 0 0 0\<rparr>)
      = a\<lparr>assoc_rec.usage := assoc_usage_at job_ptr (assoc_rec.usage a) 0 0
            (0 + count_events ACCT_POLICY_JOB_BEGIN evs)\<rparr>"
    by (rule assoc_run_open [where N = "length evs"]) (use assms in \<open>simp_all add: balanced_def\<close>)
  then show ?thesis by (simp add: assoc_usage_at_0) (simp add: assoc_usage_at_def)
qed

lemma qos_run_balanced_fields:
  assumes "balanced evs" "qos_room job_ptr (length evs) q"
  shows "grp_used_submit_jobs (qos_rec.usage (qos_run job_ptr evs q)) = grp_used_submit_jobs (qos_rec.usage q)"
    and "grp_used_jobs (qos_rec.usage (qos_run job_ptr evs q)) = grp_used_jobs (qos_rec.usage q)"
    and "qos_usage.grp_used_cpus (qos_rec.usage (qos_run job_ptr evs q)) = qos_usage.grp_used_cpus (qos_rec.usage q)"
    and "qos_usage.grp_used_mem (qos_rec.usage (qos_run job_ptr evs q)) = qos_usage.grp_used_mem (qos_rec.usage q)"
    and "qos_usage.grp_used_nodes (qos_rec.usage (qos_run job_ptr evs q)) = qos_usage.grp_used_nodes (qos_rec.usage q)"
    and "qos_usage.grp_used_cpu_run_secs (qos_rec.usage (qos_run job_ptr evs q)) =
           qos_usage.grp_used_cpu_run_secs (qos_rec.usage q)
           + of_nat (count_events ACCT_POLICY_JOB_BEGIN evs)
             * adjust_used_cpu_run_secs ACCT_POLICY_JOB_BEGIN job_ptr"
    and "user_usage (qos_run job_ptr evs q) u = user_usage q u"
proof -
  have "qos_run job_ptr evs q = q \<and> count_events ACCT_POLICY_JOB_BEGIN evs = 0
        \<or> qos_run job_ptr evs q = qos_at job_ptr q 0 0 (count_events ACCT_POLICY_JOB_BEGIN evs)"
  proof (cases "evs = []")
    case True
    then show ?thesis by (simp add: count_events_def)
  next
    case False
    then show ?thesis using qos_run_balanced [OF assms False] by simp
  qed
  then show "grp_used_submit_jobs (qos_rec.usage (qos_run job_ptr evs q)) = grp_used_submit_jobs (qos_rec.usage q)"
    and "grp_used_jobs (qos_rec.usage (qos_run job_ptr evs q)) = grp_used_jobs (qos_rec.usage q)"
    and "qos_usage.grp_used_cpus (qos_rec.usage (qos_run job_ptr evs q)) = qos_usage.grp_used_cpus (qos_rec.usage q)"
    and "qos_usage.grp_used_mem (qos_rec.usage (qos_run job_ptr evs q)) = qos_usage.grp_used_mem (qos_rec.usage q)"
    and "qos_usage.grp_used_nodes (qos_rec.usage (qos_run job_ptr evs q)) = qos_usage.grp_used_nodes (qos_rec.usage q)"
    and "qos_usage.grp_used_cpu_run_secs (qos_rec.usage (qos_run job_ptr evs q)) =
           qos_usage.grp_used_cpu_run_secs (qos_rec.usage q)
           + of_nat (count_events ACCT_POLICY_JOB_BEGIN evs)
             * adjust_used_cpu_run_secs ACCT_POLICY_JOB_BEGIN job_ptr"
    and "user_usage (qos_run job_ptr evs q) u = user_usage q u"
    by (auto simp add: qos_at_usage_fields user_usage_qos_at)
qed

text \<open>
  C1 (amended). For a job whose association is bound, under enforced limits and with a
  priority plugin that leaves the job and the accounting state alone, every balanced
  sequence of events (each \<^verbatim>\<open>ADD_SUBMIT\<close> closed by a later \<^verbatim>\<open>REM_SUBMIT\<close>, each \<^verbatim>\<open>JOB_BEGIN\<close> by a
  later \<^verbatim>\<open>JOB_FINI\<close>, for the same job) applied through the usage adjuster, from a state
  whose 32-bit counters have room for the sequence without leaving the signed range,
  returns every group counter and every per-user counter of both QOS, and every counter
  of every association of the chain, to its initial value, except
  \<^verbatim>\<open>grp_used_cpu_run_secs\<close>: \<^verbatim>\<open>JOB_FINI\<close> does not subtract from it, so it ends higher by
  \<^verbatim>\<open>total_cpus * time_limit * 60\<close> for every \<^verbatim>\<open>JOB_BEGIN\<close> of the sequence.
\<close>

theorem balanced_events_restore_counters:
  assumes "ACCOUNTING_ENFORCE_LIMITS \<in> accounting_enforce s"
    and "job_assoc_bound job_ptr"
    and "\<forall>j t. job_end j t = (j, t)"
    and "balanced evs"
    and "set_qos_order s job_ptr = (q1, q2)"
    and "\<forall>p. Some p = q1 \<or> Some p = q2 \<longrightarrow> qos_room job_ptr (length evs) (qos_heap s p)"
    and "\<forall>a \<in> set (assoc_ptr job_ptr). assoc_room job_ptr (length evs) (assoc_rec.usage a)"
  shows
    "assoc_ptr (fst (adjust_events job_end evs (job_ptr, s))) =
       map (\<lambda>a. a\<lparr>assoc_rec.usage := (assoc_rec.usage a)\<lparr>assoc_usage.grp_used_cpu_run_secs :=
                  assoc_usage.grp_used_cpu_run_secs (assoc_rec.usage a)
                  + of_nat (count_events ACCT_POLICY_JOB_BEGIN evs)
                    * adjust_used_cpu_run_secs ACCT_POLICY_JOB_BEGIN job_ptr\<rparr>\<rparr>)
         (assoc_ptr job_ptr)
     \<and> (\<forall>p. Some p = q1 \<or> Some p = q2 \<longrightarrow>
          grp_used_submit_jobs (qos_rec.usage (qos_heap (snd (adjust_events job_end evs (job_ptr, s))) p))
            = grp_used_submit_jobs (qos_rec.usage (qos_heap s p))
          \<and> grp_used_jobs (qos_rec.usage (qos_heap (snd (adjust_events job_end evs (job_ptr, s))) p))
            = grp_used_jobs (qos_rec.usage (qos_heap s p))
          \<and> qos_usage.grp_used_cpus (qos_rec.usage (qos_heap (snd (adjust_events job_end evs (job_ptr, s))) p))
            = qos_usage.grp_used_cpus (qos_rec.usage (qos_heap s p))
          \<and> qos_usage.grp_used_mem (qos_rec.usage (qos_heap (snd (adjust_events job_end evs (job_ptr, s))) p))
            = qos_usage.grp_used_mem (qos_rec.usage (qos_heap s p))
          \<and> qos_usage.grp_used_nodes (qos_rec.usage (qos_heap (snd (adjust_events job_end evs (job_ptr, s))) p))
            = qos_usage.grp_used_nodes (qos_rec.usage (qos_heap s p))
          \<and> (\<forall>u. user_usage (qos_heap (snd (adjust_events job_end evs (job_ptr, s))) p) u
                 = user_usage (qos_heap s p) u)
          \<and> qos_usage.grp_used_cpu_run_secs
               (qos_rec.usage (qos_heap (snd (adjust_events job_end evs (job_ptr, s))) p))
            = qos_usage.grp_used_cpu_run_secs (qos_rec.usage (qos_heap s p))
              + of_nat (count_events ACCT_POLICY_JOB_BEGIN evs)
                * adjust_used_cpu_run_secs ACCT_POLICY_JOB_BEGIN job_ptr)"
proof -
  have hook: "\<And>j t. job_end j t = (j, t)" using assms(3) by simp
  note r = adjust_events_result [OF assms(1) assms(2) hook assms(5), of evs]
  have chain: "assoc_ptr (fst (adjust_events job_end evs (job_ptr, s))) =
       map (assoc_run job_ptr evs) (assoc_ptr job_ptr)"
    using r by simp
  have heap: "qos_heap (snd (adjust_events job_end evs (job_ptr, s))) p = qos_run job_ptr evs (qos_heap s p)"
    if "Some p = q1 \<or> Some p = q2" for p
    using r that by auto
  have room: "qos_room job_ptr (length evs) (qos_heap s p)" if "Some p = q1 \<or> Some p = q2" for p
    using assms(6) that by blast
  show ?thesis
  proof (intro conjI allI impI)
    show "assoc_ptr (fst (adjust_events job_end evs (job_ptr, s))) =
       map (\<lambda>a. a\<lparr>assoc_rec.usage := (assoc_rec.usage a)\<lparr>assoc_usage.grp_used_cpu_run_secs :=
                  assoc_usage.grp_used_cpu_run_secs (assoc_rec.usage a)
                  + of_nat (count_events ACCT_POLICY_JOB_BEGIN evs)
                    * adjust_used_cpu_run_secs ACCT_POLICY_JOB_BEGIN job_ptr\<rparr>\<rparr>)
         (assoc_ptr job_ptr)"
      unfolding chain using assms(4,7) by (simp add: assoc_run_balanced)
  qed (simp_all add: heap qos_run_balanced_fields [OF assms(4) room])
qed


text \<open>The job of the examples submitted, started, finished and withdrawn: the counters
  are back at 0, the cpu seconds of the run stay.\<close>

theorem balanced_events_restore_counters_witness:
  "qos_usage.grp_used_cpu_run_secs
     (qos_rec.usage (qos_heap (snd (adjust_events job_end_none
        [ACCT_POLICY_ADD_SUBMIT, ACCT_POLICY_JOB_BEGIN, ACCT_POLICY_JOB_FINI,
         ACCT_POLICY_REM_SUBMIT] (job0, ctld0))) 1)) = 1200
   \<and> grp_used_jobs
     (qos_rec.usage (qos_heap (snd (adjust_events job_end_none
        [ACCT_POLICY_ADD_SUBMIT, ACCT_POLICY_JOB_BEGIN, ACCT_POLICY_JOB_FINI,
         ACCT_POLICY_REM_SUBMIT] (job0, ctld0))) 1)) = 0
   \<and> grp_used_submit_jobs
     (qos_rec.usage (qos_heap (snd (adjust_events job_end_none
        [ACCT_POLICY_ADD_SUBMIT, ACCT_POLICY_JOB_BEGIN, ACCT_POLICY_JOB_FINI,
         ACCT_POLICY_REM_SUBMIT] (job0, ctld0))) 1)) = 0
   \<and> user_usage (qos_heap (snd (adjust_events job_end_none
        [ACCT_POLICY_ADD_SUBMIT, ACCT_POLICY_JOB_BEGIN, ACCT_POLICY_JOB_FINI,
         ACCT_POLICY_REM_SUBMIT] (job0, ctld0))) 1) 1000 = new_used_limits 1000
   \<and> map (\<lambda>a. used_jobs (assoc_rec.usage a)) (assoc_ptr (fst (adjust_events job_end_none
        [ACCT_POLICY_ADD_SUBMIT, ACCT_POLICY_JOB_BEGIN, ACCT_POLICY_JOB_FINI,
         ACCT_POLICY_REM_SUBMIT] (job0, ctld0)))) = [0, 0]
   \<and> map (\<lambda>a. assoc_usage.grp_used_cpu_run_secs (assoc_rec.usage a))
       (assoc_ptr (fst (adjust_events job_end_none
        [ACCT_POLICY_ADD_SUBMIT, ACCT_POLICY_JOB_BEGIN, ACCT_POLICY_JOB_FINI,
         ACCT_POLICY_REM_SUBMIT] (job0, ctld0)))) = [1200, 1200]"
proof -
  let ?evs = "[ACCT_POLICY_ADD_SUBMIT, ACCT_POLICY_JOB_BEGIN, ACCT_POLICY_JOB_FINI,
         ACCT_POLICY_REM_SUBMIT]"
  have h3: "\<forall>j t. job_end_none j t = (j, t)" by (simp add: job_end_none_def)
  have h4: "balanced ?evs" by (simp add: balanced_def)
  have h6: "\<forall>p. Some p = Some 1 \<or> Some p = None \<longrightarrow> qos_room job0 (length ?evs) (qos_heap ctld0 p)"
    by (simp add: qos_room_def used_limits_room_def new_used_limits_def ex_qos_usage
        ex_job_fields ex_mem)
  have h7: "\<forall>a \<in> set (assoc_ptr job0). assoc_room job0 (length ?evs) (assoc_rec.usage a)"
    by (simp add: assoc_room_def ex_job_fields ex_assoc_usage ex_mem)
  define r where "r = adjust_events job_end_none ?evs (job0, ctld0)"
  note t = balanced_events_restore_counters [OF ex_limits ex_bound h3 h4 ex_order h6 h7,
      folded r_def]
  have c: "count_events ACCT_POLICY_JOB_BEGIN ?evs = 1" by (simp add: count_events_def)
  have chain: "assoc_ptr (fst r) =
      map (\<lambda>a. a\<lparr>assoc_rec.usage := (assoc_rec.usage a)\<lparr>assoc_usage.grp_used_cpu_run_secs :=
                  assoc_usage.grp_used_cpu_run_secs (assoc_rec.usage a) + 1200\<rparr>\<rparr>)
         [assoc0, assoc_root0]"
    using t [THEN conjunct1] by (simp add: c ex_secs ex_job_fields)
  have q: "qos_usage.grp_used_cpu_run_secs (qos_rec.usage (qos_heap (snd r) 1)) = 1200
      \<and> grp_used_jobs (qos_rec.usage (qos_heap (snd r) 1)) = 0
      \<and> grp_used_submit_jobs (qos_rec.usage (qos_heap (snd r) 1)) = 0
      \<and> user_usage (qos_heap (snd r) 1) 1000 = new_used_limits 1000"
    using t [THEN conjunct2, rule_format, of 1] by (simp add: c ex_secs ex_qos_usage)
  have "qos_usage.grp_used_cpu_run_secs (qos_rec.usage (qos_heap (snd r) 1)) = 1200
      \<and> grp_used_jobs (qos_rec.usage (qos_heap (snd r) 1)) = 0
      \<and> grp_used_submit_jobs (qos_rec.usage (qos_heap (snd r) 1)) = 0
      \<and> user_usage (qos_heap (snd r) 1) 1000 = new_used_limits 1000
      \<and> map (\<lambda>a. used_jobs (assoc_rec.usage a)) (assoc_ptr (fst r)) = [0, 0]
      \<and> map (\<lambda>a. assoc_usage.grp_used_cpu_run_secs (assoc_rec.usage a)) (assoc_ptr (fst r))
          = [1200, 1200]"
    using q by (simp add: chain ex_assoc_usage)
  then show ?thesis unfolding r_def .
qed

text \<open>
  C1 as stated fails: after \<^verbatim>\<open>JOB_BEGIN\<close> and \<^verbatim>\<open>JOB_FINI\<close> of a job of 2 cpus and 10 minutes,
  \<^verbatim>\<open>grp_used_cpu_run_secs\<close> of its QOS and of every association of its chain is 1200, not
  the 0 it started from.
\<close>

theorem balanced_events_cpu_run_secs_counterexample:
  "balanced [ACCT_POLICY_JOB_BEGIN, ACCT_POLICY_JOB_FINI]
   \<and> qos_usage.grp_used_cpu_run_secs (qos_rec.usage (qos_heap ctld0 1)) = 0
   \<and> qos_usage.grp_used_cpu_run_secs
       (qos_rec.usage (qos_heap (snd (adjust_events job_end_none
          [ACCT_POLICY_JOB_BEGIN, ACCT_POLICY_JOB_FINI] (job0, ctld0))) 1)) = 1200
   \<and> map (assoc_usage.grp_used_cpu_run_secs \<circ> assoc_rec.usage) (assoc_ptr job0) = [0, 0]
   \<and> map (assoc_usage.grp_used_cpu_run_secs \<circ> assoc_rec.usage)
       (assoc_ptr (fst (adjust_events job_end_none
          [ACCT_POLICY_JOB_BEGIN, ACCT_POLICY_JOB_FINI] (job0, ctld0)))) = [1200, 1200]"
proof -
  have h3: "\<And>j t. job_end_none j t = (j, t)" by (simp add: job_end_none_def)
  define r where "r = adjust_events job_end_none [ACCT_POLICY_JOB_BEGIN, ACCT_POLICY_JOB_FINI]
                        (job0, ctld0)"
  note e = adjust_events_result [OF ex_limits ex_bound h3 ex_order,
      of "[ACCT_POLICY_JOB_BEGIN, ACCT_POLICY_JOB_FINI]", folded r_def]
  have q: "qos_usage.grp_used_cpu_run_secs (qos_rec.usage
        (qos_run job0 [ACCT_POLICY_JOB_BEGIN, ACCT_POLICY_JOB_FINI] qos0)) = 1200"
    by (simp add: qos_adjust_unfold Let_def ex_secs ex_qos_usage)
  have a: "map (assoc_usage.grp_used_cpu_run_secs \<circ> assoc_rec.usage)
        (map (assoc_run job0 [ACCT_POLICY_JOB_BEGIN, ACCT_POLICY_JOB_FINI]) [assoc0, assoc_root0])
        = [1200, 1200]"
    by (simp add: assoc_adjust_def ex_secs ex_assoc_usage)
  have "balanced [ACCT_POLICY_JOB_BEGIN, ACCT_POLICY_JOB_FINI]
   \<and> qos_usage.grp_used_cpu_run_secs (qos_rec.usage (qos_heap ctld0 1)) = 0
   \<and> qos_usage.grp_used_cpu_run_secs (qos_rec.usage (qos_heap (snd r) 1)) = 1200
   \<and> map (assoc_usage.grp_used_cpu_run_secs \<circ> assoc_rec.usage) (assoc_ptr job0) = [0, 0]
   \<and> map (assoc_usage.grp_used_cpu_run_secs \<circ> assoc_rec.usage) (assoc_ptr (fst r))
       = [1200, 1200]"
    using e q a by (simp add: balanced_def ex_qos_usage ex_job_fields ex_assoc_usage)
  then show ?thesis unfolding r_def .
qed

subsection \<open>The usage adjuster: the walk of the association chain\<close>

text \<open>
  C4 (amended). For every lifecycle event type, the walk of \<^verbatim>\<open>_adjust_limit_usage\<close> over the
  parent chain of the job's association runs until the parent pointer is NULL, so it
  includes the root: under enforced limits, for a job whose association is bound (and, for
  \<^verbatim>\<open>JOB_FINI\<close>, a priority plugin that leaves the job and the state alone), every association
  of the chain, the root among them, receives the update of the event. In particular
  \<^verbatim>\<open>ADD_SUBMIT\<close> adds 1 to the root's \<^verbatim>\<open>used_submit_jobs\<close>, and \<^verbatim>\<open>JOB_BEGIN\<close> adds 1 to its
  \<^verbatim>\<open>used_jobs\<close>, the job's cpus and nodes to its \<^verbatim>\<open>grp_used_cpus\<close> and \<^verbatim>\<open>grp_used_nodes\<close>, and
  \<^verbatim>\<open>total_cpus * time_limit * 60\<close> to its \<^verbatim>\<open>grp_used_cpu_run_secs\<close>.
\<close>

theorem adjust_walk_reaches_root:
  assumes "ACCOUNTING_ENFORCE_LIMITS \<in> accounting_enforce s"
    and "job_assoc_bound job_ptr"
    and "ty = ACCT_POLICY_JOB_FINI \<longrightarrow> job_end job_ptr s = (job_ptr, s)"
  shows
    "assoc_ptr (fst (adjust_limit_usage job_end ty job_ptr s)) =
       map (assoc_adjust ty job_ptr) (assoc_ptr job_ptr)
     \<and> last (assoc_ptr (fst (adjust_limit_usage job_end ty job_ptr s))) =
         assoc_adjust ty job_ptr (last (assoc_ptr job_ptr))
     \<and> (ty = ACCT_POLICY_ADD_SUBMIT \<longrightarrow>
          used_submit_jobs (assoc_rec.usage
            (last (assoc_ptr (fst (adjust_limit_usage job_end ty job_ptr s)))))
          = used_submit_jobs (assoc_rec.usage (last (assoc_ptr job_ptr))) + 1)
     \<and> (ty = ACCT_POLICY_JOB_BEGIN \<longrightarrow>
          used_jobs (assoc_rec.usage
            (last (assoc_ptr (fst (adjust_limit_usage job_end ty job_ptr s)))))
          = used_jobs (assoc_rec.usage (last (assoc_ptr job_ptr))) + 1
          \<and> assoc_usage.grp_used_cpus (assoc_rec.usage
            (last (assoc_ptr (fst (adjust_limit_usage job_end ty job_ptr s)))))
          = assoc_usage.grp_used_cpus (assoc_rec.usage (last (assoc_ptr job_ptr)))
            + total_cpus job_ptr
          \<and> assoc_usage.grp_used_nodes (assoc_rec.usage
            (last (assoc_ptr (fst (adjust_limit_usage job_end ty job_ptr s)))))
          = assoc_usage.grp_used_nodes (assoc_rec.usage (last (assoc_ptr job_ptr)))
            + node_cnt job_ptr
          \<and> assoc_usage.grp_used_cpu_run_secs (assoc_rec.usage
            (last (assoc_ptr (fst (adjust_limit_usage job_end ty job_ptr s)))))
          = assoc_usage.grp_used_cpu_run_secs (assoc_rec.usage (last (assoc_ptr job_ptr)))
            + ucast (total_cpus job_ptr) * ucast (job_record.time_limit job_ptr) * 60)"
proof -
  have ne: "assoc_ptr job_ptr \<noteq> []"
    using assms(2) by (auto simp add: job_assoc_bound_def)
  have chain: "assoc_ptr (fst (adjust_limit_usage job_end ty job_ptr s)) =
       map (assoc_adjust ty job_ptr) (assoc_ptr job_ptr)"
    using assms
    by (cases "ty = ACCT_POLICY_JOB_FINI")
      (simp_all add: adjust_limit_usage_def valid_job_assoc_bound split_beta Let_def
        adjust_assoc_chain_map assoc_adjust_def)
  have root: "last (assoc_ptr (fst (adjust_limit_usage job_end ty job_ptr s))) =
         assoc_adjust ty job_ptr (last (assoc_ptr job_ptr))"
    unfolding chain using ne by (simp add: last_map)
  show ?thesis
    unfolding root using chain
    by (simp add: assoc_adjust_def adjust_used_cpu_run_secs_def)
qed

text \<open>The job of the examples starts: the root of its chain counts one running job of 2
  cpus and 1200 cpu seconds.\<close>

theorem adjust_walk_reaches_root_witness:
  "assoc_rec.id (last (assoc_ptr job0)) = 1
   \<and> assoc_mgr_root_assoc ctld0 = Some 1
   \<and> used_jobs (assoc_rec.usage (last (assoc_ptr
        (fst (adjust_limit_usage job_end_none ACCT_POLICY_JOB_BEGIN job0 ctld0))))) = 1
   \<and> assoc_usage.grp_used_cpus (assoc_rec.usage (last (assoc_ptr
        (fst (adjust_limit_usage job_end_none ACCT_POLICY_JOB_BEGIN job0 ctld0))))) = 2
   \<and> assoc_usage.grp_used_cpu_run_secs (assoc_rec.usage (last (assoc_ptr
        (fst (adjust_limit_usage job_end_none ACCT_POLICY_JOB_BEGIN job0 ctld0))))) = 1200"
proof -
  have h3: "ACCT_POLICY_JOB_BEGIN = ACCT_POLICY_JOB_FINI \<longrightarrow> job_end_none job0 ctld0 = (job0, ctld0)"
    by simp
  define r where "r = adjust_limit_usage job_end_none ACCT_POLICY_JOB_BEGIN job0 ctld0"
  note t = adjust_walk_reaches_root [where job_end = job_end_none and ty = ACCT_POLICY_JOB_BEGIN
      and job_ptr = job0 and s = ctld0, OF ex_limits ex_bound h3, folded r_def]
  have "assoc_rec.id (last (assoc_ptr job0)) = 1
   \<and> assoc_mgr_root_assoc ctld0 = Some 1
   \<and> used_jobs (assoc_rec.usage (last (assoc_ptr (fst r)))) = 1
   \<and> assoc_usage.grp_used_cpus (assoc_rec.usage (last (assoc_ptr (fst r)))) = 2
   \<and> assoc_usage.grp_used_cpu_run_secs (assoc_rec.usage (last (assoc_ptr (fst r)))) = 1200"
    using t [THEN conjunct2, THEN conjunct2, THEN conjunct2]
    by (simp add: ex_job_fields ex_assoc_usage ex_root)
  then show ?thesis unfolding r_def .
qed

text \<open>
  C4 as stated fails: the last association of the chain of the example job is the root
  (id 1); its \<^verbatim>\<open>used_submit_jobs\<close> is 0 before \<^verbatim>\<open>ADD_SUBMIT\<close> and 1 after.
\<close>

theorem adjust_root_counter_counterexample:
  "assoc_rec.id (last (assoc_ptr job0)) = 1
   \<and> assoc_mgr_root_assoc ctld0 = Some 1
   \<and> used_submit_jobs (assoc_rec.usage (last (assoc_ptr job0))) = 0
   \<and> used_submit_jobs (assoc_rec.usage (last (assoc_ptr
        (fst (adjust_limit_usage job_end_none ACCT_POLICY_ADD_SUBMIT job0 ctld0))))) = 1"
proof -
  have "assoc_ptr (fst (adjust_limit_usage job_end_none ACCT_POLICY_ADD_SUBMIT job0 ctld0))
      = map (assoc_adjust ACCT_POLICY_ADD_SUBMIT job0) (assoc_ptr job0)"
    by (rule adjust_limit_usage_chain [OF ex_limits ex_bound]) (simp add: job_end_none_def)
  then show ?thesis
    by (simp add: ex_job_fields ex_assoc_usage assoc_adjust_def ex_root)
qed

subsection \<open>The usage adjuster: decrements do not wrap\<close>

lemma sint_neg32:
  assumes "2^31 \<le> unat (w::32 word)" shows "sint w < 0"
proof -
  have "int (2^31) \<le> int (unat w)" using assms by (simp only: of_nat_le_iff)
  then have u: "2^31 \<le> uint w" by (simp only: uint_nat) simp
  have "sint w = signed_take_bit 31 (uint w)" by (simp add: sint_uint)
  also have "\<dots> \<le> uint w - 2 ^ Suc 31" by (rule signed_take_bit_int_less_eq) (rule u)
  also have "\<dots> < 0" using uint_lt2p [of w] by simp
  finally show ?thesis .
qed

lemma room_inc:
  assumes "unat (c::32 word) + Suc n * unat d < 2^31"
  shows "unat (c + d) + n * unat d < 2^31"
proof -
  have "unat c + 1 * unat d < 2^31" using assms by simp
  then have "unat (c + of_nat 1 * d) = unat c + 1 * unat d" by (rule unat_lin32)
  then have "unat (c + d) = unat c + unat d" by simp
  then show ?thesis using assms by simp
qed

lemma room_inc1:
  assumes "unat (c::32 word) + Suc n < 2^31"
  shows "unat (c + 1) + n < 2^31"
  using room_inc [of c n 1] assms by simp

lemma room_dec1: "unat (if c \<noteq> 0 then c - 1 else c) \<le> unat (c::32 word)"
  by (simp add: unat_minus_one)

lemma room_clamp:
  assumes "unat (d::32 word) < 2^31"
  shows "unat (sub_clamp c d) \<le> unat c"
proof (cases "unat d \<le> unat c")
  case True
  then have "unat (c - d) = unat c - unat d" by (simp add: unat_sub_if')
  then show ?thesis by (simp add: sub_clamp_def)
next
  case False
  then have "unat (c - d) = unat c + 2^32 - unat d" by (simp add: unat_sub_if')
  then have "2^31 \<le> unat (c - d)" using assms by simp
  then have "sint (c - d) < 0" by (rule sint_neg32)
  then show ?thesis by (simp add: sub_clamp_def)
qed

lemma room_step_bound:
  assumes "unat (c::32 word) + Suc n * unat (d::32 word) < 2^31"
  shows "unat d < 2^31"
  using assms by simp

lemma room_clamp_step:
  assumes "unat (c::32 word) + Suc n * unat d < 2^31"
  shows "unat (sub_clamp c d) + n * unat d < 2^31"
proof -
  have "unat d < 2^31" using assms by simp
  then have "unat (sub_clamp c d) \<le> unat c" by (rule room_clamp)
  then show ?thesis using assms by simp
qed

lemma room_clamp_step1:
  assumes "unat (c::32 word) + Suc n < 2^31"
  shows "unat (sub_clamp c 1) + n < 2^31"
  using room_clamp_step [of c n 1] assms by simp

lemma room_keep:
  assumes "unat (c::32 word) + Suc n * k < 2^31"
  shows "unat c + n * k < 2^31"
  using assms by simp

lemma room_keep1:
  assumes "unat (c::32 word) + Suc n < 2^31"
  shows "unat c + n < 2^31"
  using assms by simp

lemma room_dec_step:
  assumes "unat (c::32 word) + Suc n < 2^31" and "c \<noteq> 0"
  shows "unat (c - 1) + n < 2^31"
  using assms by (simp add: unat_minus_one)

lemma assoc_room_step:
  assumes "assoc_room job_ptr (Suc n) (assoc_rec.usage a)"
  shows "assoc_room job_ptr n (assoc_rec.usage (assoc_adjust ty job_ptr a))"
proof -
  let ?g = "assoc_rec.usage a"
  have r: "unat (used_submit_jobs ?g) + Suc n < 2^31"
    "unat (used_jobs ?g) + Suc n < 2^31"
    "unat (assoc_usage.grp_used_cpus ?g) + Suc n * unat (total_cpus job_ptr) < 2 ^ 31"
    "unat (assoc_usage.grp_used_mem ?g)
       + Suc n * unat (adjust_job_memory job_ptr (node_cnt job_ptr)) < 2 ^ 31"
    "unat (assoc_usage.grp_used_nodes ?g) + Suc n * unat (node_cnt job_ptr) < 2 ^ 31"
    using assms unfolding assoc_room_def by blast+
  note keep = room_keep1 [OF r(1)] room_keep1 [OF r(2)] room_keep [OF r(3)] room_keep [OF r(4)]
    room_keep [OF r(5)]
  show ?thesis
  proof (cases ty)
    case ACCT_POLICY_ADD_SUBMIT
    show ?thesis unfolding assoc_room_def ACCT_POLICY_ADD_SUBMIT
      using room_inc1 [OF r(1)] keep by (simp add: assoc_adjust_def)
  next
    case ACCT_POLICY_REM_SUBMIT
    show ?thesis unfolding assoc_room_def ACCT_POLICY_REM_SUBMIT
      using room_dec_step [OF r(1)] keep by (simp add: assoc_adjust_def)
  next
    case ACCT_POLICY_JOB_BEGIN
    show ?thesis unfolding assoc_room_def ACCT_POLICY_JOB_BEGIN
      using room_inc1 [OF r(2)] room_inc [OF r(3)] room_inc [OF r(4)] room_inc [OF r(5)] keep
      by (simp add: assoc_adjust_def)
  next
    case ACCT_POLICY_JOB_FINI
    show ?thesis unfolding assoc_room_def ACCT_POLICY_JOB_FINI
      using room_dec_step [OF r(2)] room_clamp_step [OF r(3)] room_clamp_step [OF r(4)]
        room_clamp_step [OF r(5)] keep
      by (simp add: assoc_adjust_def)
  qed
qed

lemma assoc_room_run:
  "assoc_room job_ptr (length evs + n) (assoc_rec.usage a) \<Longrightarrow>
   assoc_room job_ptr n (assoc_rec.usage (assoc_run job_ptr evs a))"
proof (induction evs arbitrary: a)
  case Nil
  then show ?case by simp
next
  case (Cons ty evs)
  have "assoc_room job_ptr (Suc (length evs + n)) (assoc_rec.usage a)"
    using Cons.prems by simp
  then have "assoc_room job_ptr (length evs + n) (assoc_rec.usage (assoc_adjust ty job_ptr a))"
    by (rule assoc_room_step)
  then show ?case using Cons.IH by simp
qed

lemma user_usage_qos_adjust:
  "user_usage (qos_adjust ty job_ptr q) (job_record.user_id job_ptr) =
     fst (snd (qos_usage_switch ty job_ptr (qos_rec.name q) (node_cnt job_ptr)
                (adjust_used_cpu_run_secs ty job_ptr)
                (adjust_job_memory job_ptr (node_cnt job_ptr)) (qos_rec.usage q)
                (user_usage q (job_record.user_id job_ptr))))"
proof -
  let ?u = "job_record.user_id job_ptr"
  let ?l1 = "ensure_user (user_limit_list (qos_rec.usage q)) ?u"
  let ?i = "user_index (user_limit_list (qos_rec.usage q)) ?u"
  let ?r = "qos_usage_switch ty job_ptr (qos_rec.name q) (node_cnt job_ptr)
                (adjust_used_cpu_run_secs ty job_ptr)
                (adjust_job_memory job_ptr (node_cnt job_ptr)) (qos_rec.usage q) (?l1 ! ?i)"
  have l: "user_limit_list (qos_rec.usage (qos_adjust ty job_ptr q)) = Some (?l1[?i := fst (snd ?r)])"
    by (simp add: qos_adjust_unfold Let_def)
  have f: "list_find_uid (?l1[?i := fst (snd ?r)]) ?u = Some ?i"
    by (rule list_find_uid_update) (simp_all add: ensure_user_find qos_switch_uid ensure_user_uid)
  have "user_usage (qos_adjust ty job_ptr q) ?u = fst (snd ?r)"
    using user_index_less [of "user_limit_list (qos_rec.usage q)" ?u]
    by (simp add: user_usage_def used_limits_or_scratch_def get_used_limits_for_user_def l f)
  then show ?thesis by (simp only: ensure_user_user_usage)
qed

lemma qos_usage_qos_adjust:
  "(qos_rec.usage (qos_adjust ty job_ptr q))\<lparr>user_limit_list := X\<rparr> =
     (fst (qos_usage_switch ty job_ptr nm (node_cnt job_ptr)
                (adjust_used_cpu_run_secs ty job_ptr)
                (adjust_job_memory job_ptr (node_cnt job_ptr)) (qos_rec.usage q) u))
       \<lparr>user_limit_list := X\<rparr>"
  by (cases ty) (simp_all add: qos_adjust_unfold Let_def)

lemma qos_room_step:
  assumes "qos_room job_ptr (Suc n) q"
  shows "qos_room job_ptr n (qos_adjust ty job_ptr q)"
proof -
  let ?g = "qos_rec.usage q"
  let ?u = "user_usage q (job_record.user_id job_ptr)"
  have r: "unat (grp_used_submit_jobs ?g) + Suc n < 2^31"
    "unat (grp_used_jobs ?g) + Suc n < 2^31"
    "unat (qos_usage.grp_used_cpus ?g) + Suc n * unat (total_cpus job_ptr) < 2 ^ 31"
    "unat (qos_usage.grp_used_mem ?g)
       + Suc n * unat (adjust_job_memory job_ptr (node_cnt job_ptr)) < 2 ^ 31"
    "unat (qos_usage.grp_used_nodes ?g) + Suc n * unat (node_cnt job_ptr) < 2 ^ 31"
    using assms unfolding qos_room_def by blast+
  have ru: "unat (submit_jobs ?u) + Suc n < 2^31"
    "unat (jobs ?u) + Suc n < 2^31"
    "unat (cpus ?u) + Suc n * unat (total_cpus job_ptr) < 2 ^ 31"
    "unat (nodes ?u) + Suc n * unat (node_cnt job_ptr) < 2 ^ 31"
    using assms unfolding qos_room_def used_limits_room_def by blast+
  note keep = room_keep1 [OF r(1)] room_keep1 [OF r(2)] room_keep [OF r(3)] room_keep [OF r(4)]
    room_keep [OF r(5)] room_keep1 [OF ru(1)] room_keep1 [OF ru(2)] room_keep [OF ru(3)]
    room_keep [OF ru(4)]
  show ?thesis
  proof (cases ty)
    case ACCT_POLICY_ADD_SUBMIT
    show ?thesis unfolding qos_room_def used_limits_room_def user_usage_qos_adjust
      unfolding ACCT_POLICY_ADD_SUBMIT
      using room_inc1 [OF r(1)] room_inc1 [OF ru(1)] keep
      by (simp add: qos_adjust_unfold Let_def)
  next
    case ACCT_POLICY_REM_SUBMIT
    show ?thesis unfolding qos_room_def used_limits_room_def user_usage_qos_adjust
      unfolding ACCT_POLICY_REM_SUBMIT
      using room_dec_step [OF r(1)] room_dec_step [OF ru(1)] keep
      by (simp add: qos_adjust_unfold Let_def)
  next
    case ACCT_POLICY_JOB_BEGIN
    show ?thesis unfolding qos_room_def used_limits_room_def user_usage_qos_adjust
      unfolding ACCT_POLICY_JOB_BEGIN
      using room_inc1 [OF r(2)] room_inc [OF r(3)] room_inc [OF r(4)] room_inc [OF r(5)]
        room_inc1 [OF ru(2)] room_inc [OF ru(3)] room_inc [OF ru(4)] keep
      by (simp add: qos_adjust_unfold Let_def)
  next
    case ACCT_POLICY_JOB_FINI
    show ?thesis unfolding qos_room_def used_limits_room_def user_usage_qos_adjust
      unfolding ACCT_POLICY_JOB_FINI
      using room_clamp_step1 [OF r(2)] room_clamp_step [OF r(3)] room_clamp_step [OF r(4)]
        room_clamp_step [OF r(5)]
        room_clamp_step1 [OF ru(2)] room_clamp_step [OF ru(3)] room_clamp_step [OF ru(4)] keep
      by (simp add: qos_adjust_unfold Let_def)
  qed
qed

lemma qos_room_run:
  "qos_room job_ptr (length evs + n) q \<Longrightarrow> qos_room job_ptr n (qos_run job_ptr evs q)"
proof (induction evs arbitrary: q)
  case Nil
  then show ?case by simp
next
  case (Cons ty evs)
  have "qos_room job_ptr (Suc (length evs + n)) q" using Cons.prems by simp
  then have "qos_room job_ptr (length evs + n) (qos_adjust ty job_ptr q)"
    by (rule qos_room_step)
  then show ?case using Cons.IH by simp
qed

lemma counter_nonneg_room: "unat c + 0 < 2 ^ 31 \<Longrightarrow> counter_nonneg c"
  using sint_nonneg32 [of c] by (simp add: counter_nonneg_def)

lemma assoc_room_nonneg: "assoc_room job_ptr 0 g \<Longrightarrow> assoc_counters_nonneg g"
  unfolding assoc_room_def assoc_counters_nonneg_def
  by (simp add: counter_nonneg_room)

lemma qos_room_nonneg:
  "qos_room job_ptr 0 q \<Longrightarrow> qos_counters_nonneg q (job_record.user_id job_ptr)"
  unfolding qos_room_def qos_counters_nonneg_def used_limits_room_def used_limits_nonneg_def
  by (simp add: counter_nonneg_room)

lemma qos_adjust_limit_usage_log:
  "debug_log (qos_adjust_limit_usage ty job_ptr qos nc secs mem s) =
     debug_log s @ (case qos of None \<Rightarrow> []
                    | Some p \<Rightarrow> snd (qos_adjust_rec ty job_ptr nc secs mem (qos_heap s p)))"
  by (simp add: qos_adjust_limit_usage_def split_beta split: option.splits)

lemma qos_adjust_limit_usage_other:
  "Some p \<noteq> qos \<Longrightarrow> qos_heap (qos_adjust_limit_usage ty job_ptr qos nc secs mem s) p = qos_heap s p"
  by (auto simp add: qos_adjust_limit_usage_def split_beta split: option.splits)

lemma adjust_limit_usage_log:
  assumes "ACCOUNTING_ENFORCE_LIMITS \<in> accounting_enforce s" and "job_assoc_bound job_ptr"
    and "job_end job_ptr s = (job_ptr, s)" and "set_qos_order s job_ptr = (q1, q2)"
  shows "debug_log (snd (adjust_limit_usage job_end ty job_ptr s)) =
     debug_log s
     @ (case q1 of None \<Rightarrow> []
        | Some p \<Rightarrow> snd (qos_adjust_rec ty job_ptr (node_cnt job_ptr)
                          (adjust_used_cpu_run_secs ty job_ptr)
                          (adjust_job_memory job_ptr (node_cnt job_ptr)) (qos_heap s p)))
     @ (case q2 of None \<Rightarrow> []
        | Some p \<Rightarrow> snd (qos_adjust_rec ty job_ptr (node_cnt job_ptr)
                          (adjust_used_cpu_run_secs ty job_ptr)
                          (adjust_job_memory job_ptr (node_cnt job_ptr)) (qos_heap s p)))
     @ snd (adjust_assoc_chain ty job_ptr (node_cnt job_ptr)
              (adjust_used_cpu_run_secs ty job_ptr)
              (adjust_job_memory job_ptr (node_cnt job_ptr)) (assoc_ptr job_ptr))"
proof -
  let ?nc = "node_cnt job_ptr"
  let ?secs = "adjust_used_cpu_run_secs ty job_ptr"
  let ?mem = "adjust_job_memory job_ptr ?nc"
  let ?s3 = "qos_adjust_limit_usage ty job_ptr q1 ?nc ?secs ?mem s"
  let ?s4 = "qos_adjust_limit_usage ty job_ptr q2 ?nc ?secs ?mem ?s3"
  let ?r = "adjust_assoc_chain ty job_ptr ?nc ?secs ?mem (assoc_ptr job_ptr)"
  have e: "adjust_limit_usage job_end ty job_ptr s =
        (job_ptr\<lparr>assoc_ptr := fst ?r\<rparr>, ?s4\<lparr>debug_log := debug_log ?s4 @ snd ?r\<rparr>)"
    using assms by (simp add: adjust_limit_usage_def valid_job_assoc_bound split_beta Let_def)
  have d: "q1 \<noteq> q2 \<or> q2 = None"
    using assms(4) set_qos_order_distinct [of s job_ptr] set_qos_order_second_only [of s job_ptr]
    by (cases q1; cases q2) auto
  have h: "qos_heap ?s3 p = qos_heap s p" if "q2 = Some p" for p
    by (rule qos_adjust_limit_usage_other) (use d that in auto)
  show ?thesis
    by (simp add: e qos_adjust_limit_usage_log h split: option.splits)
qed

lemma qos_adjust_rec_rem_zero:
  assumes "grp_used_submit_jobs (qos_rec.usage q) = 0"
    and "submit_jobs (user_usage q (job_record.user_id job_ptr)) = 0"
  shows "snd (qos_adjust_rec ACCT_POLICY_REM_SUBMIT job_ptr nc secs mem q) =
     [Qos_underflow Submit_jobs (qos_rec.name q),
      Qos_user_underflow Submit_jobs (qos_rec.name q) (job_record.user_id job_ptr)]"
proof -
  let ?u = "job_record.user_id job_ptr"
  let ?l1 = "ensure_user (user_limit_list (qos_rec.usage q)) ?u"
  let ?i = "user_index (user_limit_list (qos_rec.usage q)) ?u"
  have "snd (qos_adjust_rec ACCT_POLICY_REM_SUBMIT job_ptr nc secs mem q) =
      snd (snd (qos_usage_switch ACCT_POLICY_REM_SUBMIT job_ptr (qos_rec.name q) nc secs mem
                  (qos_rec.usage q) (?l1 ! ?i)))"
    by (simp add: qos_adjust_rec_def ensure_user_def user_index_def Let_def
      split_beta split: option.splits)
  also have "\<dots> = [Qos_underflow Submit_jobs (qos_rec.name q),
      Qos_user_underflow Submit_jobs (qos_rec.name q) ?u]"
    using assms ensure_user_uid [of "user_limit_list (qos_rec.usage q)" ?u]
    by (simp add: ensure_user_user_usage)
  finally show ?thesis .
qed

lemma adjust_assoc_chain_rem_zero:
  "\<forall>a \<in> set chain. used_submit_jobs (assoc_rec.usage a) = 0 \<Longrightarrow>
   snd (adjust_assoc_chain ACCT_POLICY_REM_SUBMIT job_ptr nc secs mem chain) =
     map (\<lambda>a. Assoc_underflow Submit_jobs (acct a)) chain"
  by (induction chain) (simp_all add: split_beta)

lemma rem_submit_log_zero:
  assumes "ACCOUNTING_ENFORCE_LIMITS \<in> accounting_enforce s" and "job_assoc_bound job_ptr"
    and "job_end job_ptr s = (job_ptr, s)"
    and "set_qos_order s job_ptr = (q1, q2)"
    and "\<forall>p. Some p = q1 \<or> Some p = q2 \<longrightarrow>
           grp_used_submit_jobs (qos_rec.usage (qos_heap s p)) = 0
           \<and> submit_jobs (user_usage (qos_heap s p) (job_record.user_id job_ptr)) = 0"
    and "\<forall>a \<in> set (assoc_ptr job_ptr). used_submit_jobs (assoc_rec.usage a) = 0"
  shows "new_messages s (snd (adjust_limit_usage job_end ACCT_POLICY_REM_SUBMIT job_ptr s)) =
       qos_submit_underflow s q1 (job_record.user_id job_ptr)
       @ qos_submit_underflow s q2 (job_record.user_id job_ptr)
       @ map (\<lambda>a. Assoc_underflow Submit_jobs (acct a)) (assoc_ptr job_ptr)"
  unfolding new_messages_def
    adjust_limit_usage_log [where job_end = job_end and ty = ACCT_POLICY_REM_SUBMIT, OF assms(1,2,3,4)]
  using assms(5,6)
  by (simp add: qos_submit_underflow_def qos_adjust_rec_rem_zero adjust_assoc_chain_rem_zero
      split: option.splits)

lemma assoc_rem_saturates:
  "used_submit_jobs (assoc_rec.usage (assoc_adjust ACCT_POLICY_REM_SUBMIT job_ptr a)) =
     (if used_submit_jobs (assoc_rec.usage a) = 0 then 0
      else used_submit_jobs (assoc_rec.usage a) - 1)"
  by (simp add: assoc_adjust_def)

lemma assoc_add_submit:
  "used_submit_jobs (assoc_rec.usage (assoc_adjust ACCT_POLICY_ADD_SUBMIT job_ptr a)) =
     used_submit_jobs (assoc_rec.usage a) + 1"
  by (simp add: assoc_adjust_def)

lemma qos_rem_saturates:
  "grp_used_submit_jobs (qos_rec.usage (qos_adjust ACCT_POLICY_REM_SUBMIT job_ptr q)) =
     (if grp_used_submit_jobs (qos_rec.usage q) = 0 then 0
      else grp_used_submit_jobs (qos_rec.usage q) - 1)"
  "submit_jobs (user_usage (qos_adjust ACCT_POLICY_REM_SUBMIT job_ptr q)
                  (job_record.user_id job_ptr)) =
     (if submit_jobs (user_usage q (job_record.user_id job_ptr)) = 0 then 0
      else submit_jobs (user_usage q (job_record.user_id job_ptr)) - 1)"
  by (simp_all add: user_usage_qos_adjust) (simp add: qos_adjust_unfold Let_def)

lemma qos_add_submit:
  "grp_used_submit_jobs (qos_rec.usage (qos_adjust ACCT_POLICY_ADD_SUBMIT job_ptr q)) =
     grp_used_submit_jobs (qos_rec.usage q) + 1"
  "submit_jobs (user_usage (qos_adjust ACCT_POLICY_ADD_SUBMIT job_ptr q)
                  (job_record.user_id job_ptr)) =
     submit_jobs (user_usage q (job_record.user_id job_ptr)) + 1"
  by (simp_all add: user_usage_qos_adjust) (simp add: qos_adjust_unfold Let_def)

lemma unat_saturates: "unat (if c = 0 then 0 else c - 1) = unat (c::32 word) - 1"
  by (simp add: unat_minus_one)

subsection \<open>The usage adjuster: underflow\<close>

text \<open>
  C7 (amended). For a job whose association is bound, under enforced limits and with a
  priority plugin that leaves the job and the state alone: (1) from a state in which the
  submit counters of the job's QOS, of the user's record in them and of the associations of
  the chain are 0, \<^verbatim>\<open>REM_SUBMIT\<close> followed by \<^verbatim>\<open>ADD_SUBMIT\<close> leaves each of them at exactly 1,
  and the \<^verbatim>\<open>REM_SUBMIT\<close> call logs one underflow message for each of them; (2) in every
  state, \<^verbatim>\<open>REM_SUBMIT\<close> takes 1 from each of these counters and stops at 0 (the subtraction
  of natural numbers), it never wraps; (3) every sequence of lifecycle events leaves every
  counter of the QOS, of the user's record and of every association of the chain
  non-negative as \<^verbatim>\<open>(int32_t)\<close> reads it, provided the state it starts from has room for the
  sequence: every 32-bit counter, plus the number of events times what one event adds to
  it, is below \<open>2^31\<close>.
\<close>

theorem submit_counters_saturate:
  assumes "ACCOUNTING_ENFORCE_LIMITS \<in> accounting_enforce s"
    and "job_assoc_bound job_ptr"
    and "\<forall>j t. job_end j t = (j, t)"
    and "set_qos_order s job_ptr = (q1, q2)"
  shows
    "((\<forall>p. Some p = q1 \<or> Some p = q2 \<longrightarrow>
          grp_used_submit_jobs (qos_rec.usage (qos_heap s p)) = 0
          \<and> submit_jobs (user_usage (qos_heap s p) (job_record.user_id job_ptr)) = 0)
      \<and> (\<forall>a \<in> set (assoc_ptr job_ptr). used_submit_jobs (assoc_rec.usage a) = 0)
      \<longrightarrow>
        (\<forall>p. Some p = q1 \<or> Some p = q2 \<longrightarrow>
           grp_used_submit_jobs (qos_rec.usage (qos_heap (snd (adjust_events job_end
              [ACCT_POLICY_REM_SUBMIT, ACCT_POLICY_ADD_SUBMIT] (job_ptr, s))) p)) = 1
           \<and> submit_jobs (user_usage (qos_heap (snd (adjust_events job_end
              [ACCT_POLICY_REM_SUBMIT, ACCT_POLICY_ADD_SUBMIT] (job_ptr, s))) p)
                 (job_record.user_id job_ptr)) = 1)
        \<and> map (\<lambda>a. used_submit_jobs (assoc_rec.usage a))
            (assoc_ptr (fst (adjust_events job_end
              [ACCT_POLICY_REM_SUBMIT, ACCT_POLICY_ADD_SUBMIT] (job_ptr, s))))
          = map (\<lambda>a. 1) (assoc_ptr job_ptr)
        \<and> new_messages s (snd (adjust_limit_usage job_end ACCT_POLICY_REM_SUBMIT job_ptr s))
          = qos_submit_underflow s q1 (job_record.user_id job_ptr)
            @ qos_submit_underflow s q2 (job_record.user_id job_ptr)
            @ map (\<lambda>a. Assoc_underflow Submit_jobs (acct a)) (assoc_ptr job_ptr))
     \<and> (\<forall>p. Some p = q1 \<or> Some p = q2 \<longrightarrow>
           unat (grp_used_submit_jobs (qos_rec.usage (qos_heap
              (snd (adjust_limit_usage job_end ACCT_POLICY_REM_SUBMIT job_ptr s)) p)))
           = unat (grp_used_submit_jobs (qos_rec.usage (qos_heap s p))) - 1
           \<and> unat (submit_jobs (user_usage (qos_heap
              (snd (adjust_limit_usage job_end ACCT_POLICY_REM_SUBMIT job_ptr s)) p)
                 (job_record.user_id job_ptr)))
           = unat (submit_jobs (user_usage (qos_heap s p) (job_record.user_id job_ptr))) - 1)
     \<and> map (\<lambda>a. unat (used_submit_jobs (assoc_rec.usage a)))
           (assoc_ptr (fst (adjust_limit_usage job_end ACCT_POLICY_REM_SUBMIT job_ptr s)))
         = map (\<lambda>a. unat (used_submit_jobs (assoc_rec.usage a)) - 1) (assoc_ptr job_ptr)
     \<and> ((\<forall>p. Some p = q1 \<or> Some p = q2 \<longrightarrow> qos_room job_ptr (length evs) (qos_heap s p))
         \<and> (\<forall>a \<in> set (assoc_ptr job_ptr). assoc_room job_ptr (length evs) (assoc_rec.usage a))
         \<longrightarrow>
           (\<forall>p. Some p = q1 \<or> Some p = q2 \<longrightarrow>
              qos_counters_nonneg (qos_heap (snd (adjust_events job_end evs (job_ptr, s))) p)
                (job_record.user_id job_ptr))
           \<and> list_all (\<lambda>a. assoc_counters_nonneg (assoc_rec.usage a))
               (assoc_ptr (fst (adjust_events job_end evs (job_ptr, s)))))"
proof -
  let ?RA = "[ACCT_POLICY_REM_SUBMIT, ACCT_POLICY_ADD_SUBMIT]"
  have hook: "\<And>j t. job_end j t = (j, t)" using assms(3) by simp
  note one = adjust_limit_usage_result [where job_end = job_end and ty = ACCT_POLICY_REM_SUBMIT,
      OF assms(1) assms(2) hook [of job_ptr s] assms(4)]
  have run: "fst (adjust_events job_end es (job_ptr, s)) =
           job_ptr\<lparr>assoc_ptr := map (assoc_run job_ptr es) (assoc_ptr job_ptr)\<rparr>
         \<and> qos_heap (snd (adjust_events job_end es (job_ptr, s))) =
           (\<lambda>p. if Some p = q1 \<or> Some p = q2 then qos_run job_ptr es (qos_heap s p)
                else qos_heap s p)" for es
    by (rule adjust_events_result [OF assms(1) assms(2) hook assms(4)])
  have heap: "qos_heap (snd (adjust_events job_end es (job_ptr, s))) p = qos_run job_ptr es (qos_heap s p)"
    if "Some p = q1 \<or> Some p = q2" for p es
    using run [of es] that by auto
  have chain: "assoc_ptr (fst (adjust_events job_end es (job_ptr, s))) =
       map (assoc_run job_ptr es) (assoc_ptr job_ptr)" for es
    using run [of es] by simp
  have heap1: "qos_heap (snd (adjust_limit_usage job_end ACCT_POLICY_REM_SUBMIT job_ptr s)) p
       = qos_adjust ACCT_POLICY_REM_SUBMIT job_ptr (qos_heap s p)"
    if "Some p = q1 \<or> Some p = q2" for p
    using one(2) that by auto
  have chain1: "assoc_ptr (fst (adjust_limit_usage job_end ACCT_POLICY_REM_SUBMIT job_ptr s)) =
       map (assoc_adjust ACCT_POLICY_REM_SUBMIT job_ptr) (assoc_ptr job_ptr)"
    using one(1) by simp
  have scenario: "(\<forall>p. Some p = q1 \<or> Some p = q2 \<longrightarrow>
           grp_used_submit_jobs (qos_rec.usage (qos_heap (snd (adjust_events job_end ?RA
              (job_ptr, s))) p)) = 1
           \<and> submit_jobs (user_usage (qos_heap (snd (adjust_events job_end ?RA (job_ptr, s))) p)
                 (job_record.user_id job_ptr)) = 1)
        \<and> map (\<lambda>a. used_submit_jobs (assoc_rec.usage a))
            (assoc_ptr (fst (adjust_events job_end ?RA (job_ptr, s))))
          = map (\<lambda>a. 1) (assoc_ptr job_ptr)
        \<and> new_messages s (snd (adjust_limit_usage job_end ACCT_POLICY_REM_SUBMIT job_ptr s))
          = qos_submit_underflow s q1 (job_record.user_id job_ptr)
            @ qos_submit_underflow s q2 (job_record.user_id job_ptr)
            @ map (\<lambda>a. Assoc_underflow Submit_jobs (acct a)) (assoc_ptr job_ptr)"
    if z: "\<forall>p. Some p = q1 \<or> Some p = q2 \<longrightarrow>
          grp_used_submit_jobs (qos_rec.usage (qos_heap s p)) = 0
          \<and> submit_jobs (user_usage (qos_heap s p) (job_record.user_id job_ptr)) = 0"
      and za: "\<forall>a \<in> set (assoc_ptr job_ptr). used_submit_jobs (assoc_rec.usage a) = 0"
  proof (intro conjI allI impI)
    fix p assume p: "Some p = q1 \<or> Some p = q2"
    have z0: "grp_used_submit_jobs (qos_rec.usage (qos_heap s p)) = 0"
      "submit_jobs (user_usage (qos_heap s p) (job_record.user_id job_ptr)) = 0"
      using z p by blast+
    show "grp_used_submit_jobs (qos_rec.usage (qos_heap (snd (adjust_events job_end ?RA
              (job_ptr, s))) p)) = 1"
      unfolding heap [OF p] by (simp add: qos_add_submit qos_rem_saturates z0)
    show "submit_jobs (user_usage (qos_heap (snd (adjust_events job_end ?RA (job_ptr, s))) p)
                 (job_record.user_id job_ptr)) = 1"
      unfolding heap [OF p] by (simp add: qos_add_submit qos_rem_saturates z0)
  next
    show "map (\<lambda>a. used_submit_jobs (assoc_rec.usage a))
            (assoc_ptr (fst (adjust_events job_end ?RA (job_ptr, s))))
          = map (\<lambda>a. 1) (assoc_ptr job_ptr)"
      unfolding chain using za by (simp add: assoc_add_submit assoc_rem_saturates)
  next
    show "new_messages s (snd (adjust_limit_usage job_end ACCT_POLICY_REM_SUBMIT job_ptr s))
          = qos_submit_underflow s q1 (job_record.user_id job_ptr)
            @ qos_submit_underflow s q2 (job_record.user_id job_ptr)
            @ map (\<lambda>a. Assoc_underflow Submit_jobs (acct a)) (assoc_ptr job_ptr)"
      by (rule rem_submit_log_zero [where job_end = job_end,
            OF assms(1) assms(2) hook [of job_ptr s] assms(4) z za])
  qed
  have sat_q: "unat (grp_used_submit_jobs (qos_rec.usage (qos_heap
              (snd (adjust_limit_usage job_end ACCT_POLICY_REM_SUBMIT job_ptr s)) p)))
           = unat (grp_used_submit_jobs (qos_rec.usage (qos_heap s p))) - 1
           \<and> unat (submit_jobs (user_usage (qos_heap
              (snd (adjust_limit_usage job_end ACCT_POLICY_REM_SUBMIT job_ptr s)) p)
                 (job_record.user_id job_ptr)))
           = unat (submit_jobs (user_usage (qos_heap s p) (job_record.user_id job_ptr))) - 1"
    if "Some p = q1 \<or> Some p = q2" for p
    unfolding heap1 [OF that] qos_rem_saturates unat_saturates by simp
  have sat_a: "map (\<lambda>a. unat (used_submit_jobs (assoc_rec.usage a)))
           (assoc_ptr (fst (adjust_limit_usage job_end ACCT_POLICY_REM_SUBMIT job_ptr s)))
         = map (\<lambda>a. unat (used_submit_jobs (assoc_rec.usage a)) - 1) (assoc_ptr job_ptr)"
    unfolding chain1 by (simp add: assoc_rem_saturates unat_saturates comp_def)
  have general: "(\<forall>p. Some p = q1 \<or> Some p = q2 \<longrightarrow>
              qos_counters_nonneg (qos_heap (snd (adjust_events job_end evs (job_ptr, s))) p)
                (job_record.user_id job_ptr))
           \<and> list_all (\<lambda>a. assoc_counters_nonneg (assoc_rec.usage a))
               (assoc_ptr (fst (adjust_events job_end evs (job_ptr, s))))"
    if rq: "\<forall>p. Some p = q1 \<or> Some p = q2 \<longrightarrow> qos_room job_ptr (length evs) (qos_heap s p)"
      and ra: "\<forall>a \<in> set (assoc_ptr job_ptr). assoc_room job_ptr (length evs) (assoc_rec.usage a)"
  proof (intro conjI allI impI)
    fix p assume p: "Some p = q1 \<or> Some p = q2"
    have "qos_room job_ptr (length evs) (qos_heap s p)" using rq p by blast
    then have "qos_room job_ptr (length evs + 0) (qos_heap s p)" by simp
    then have "qos_room job_ptr 0 (qos_run job_ptr evs (qos_heap s p))" by (rule qos_room_run)
    then show "qos_counters_nonneg (qos_heap (snd (adjust_events job_end evs (job_ptr, s))) p)
                (job_record.user_id job_ptr)"
      unfolding heap [OF p] by (rule qos_room_nonneg)
  next
    have "assoc_counters_nonneg (assoc_rec.usage (assoc_run job_ptr evs a))"
      if "a \<in> set (assoc_ptr job_ptr)" for a
    proof -
      have "assoc_room job_ptr (length evs) (assoc_rec.usage a)" using ra that by blast
      then have "assoc_room job_ptr (length evs + 0) (assoc_rec.usage a)" by simp
      then have "assoc_room job_ptr 0 (assoc_rec.usage (assoc_run job_ptr evs a))"
        by (rule assoc_room_run)
      then show ?thesis by (rule assoc_room_nonneg)
    qed
    then show "list_all (\<lambda>a. assoc_counters_nonneg (assoc_rec.usage a))
               (assoc_ptr (fst (adjust_events job_end evs (job_ptr, s))))"
      unfolding chain by (simp add: list_all_iff)
  qed
  show ?thesis
    using scenario sat_q sat_a general by blast
qed

text \<open>The example job, whose counters are all 0: the scenario, the messages of the first
  call, and a sequence that finishes and withdraws the job before it is submitted.\<close>

theorem submit_counters_saturate_witness:
  "grp_used_submit_jobs (qos_rec.usage (qos_heap (snd (adjust_events job_end_none
      [ACCT_POLICY_REM_SUBMIT, ACCT_POLICY_ADD_SUBMIT] (job0, ctld0))) 1)) = 1
   \<and> submit_jobs (user_usage (qos_heap (snd (adjust_events job_end_none
      [ACCT_POLICY_REM_SUBMIT, ACCT_POLICY_ADD_SUBMIT] (job0, ctld0))) 1) 1000) = 1
   \<and> map (\<lambda>a. used_submit_jobs (assoc_rec.usage a)) (assoc_ptr (fst (adjust_events job_end_none
      [ACCT_POLICY_REM_SUBMIT, ACCT_POLICY_ADD_SUBMIT] (job0, ctld0)))) = [1, 1]
   \<and> new_messages ctld0 (snd (adjust_limit_usage job_end_none ACCT_POLICY_REM_SUBMIT job0 ctld0))
     = [Qos_underflow Submit_jobs ''normal'', Qos_user_underflow Submit_jobs ''normal'' 1000,
        Assoc_underflow Submit_jobs ''physics'', Assoc_underflow Submit_jobs ''root'']
   \<and> unat (grp_used_submit_jobs (qos_rec.usage (qos_heap
        (snd (adjust_limit_usage job_end_none ACCT_POLICY_REM_SUBMIT job0 ctld0)) 1))) = 0
   \<and> map (\<lambda>a. unat (used_submit_jobs (assoc_rec.usage a)))
        (assoc_ptr (fst (adjust_limit_usage job_end_none ACCT_POLICY_REM_SUBMIT job0 ctld0)))
      = [0, 0]
   \<and> qos_counters_nonneg (qos_heap (snd (adjust_events job_end_none
        [ACCT_POLICY_JOB_FINI, ACCT_POLICY_REM_SUBMIT, ACCT_POLICY_ADD_SUBMIT,
         ACCT_POLICY_JOB_BEGIN] (job0, ctld0))) 1) 1000
   \<and> list_all (\<lambda>a. assoc_counters_nonneg (assoc_rec.usage a))
        (assoc_ptr (fst (adjust_events job_end_none
        [ACCT_POLICY_JOB_FINI, ACCT_POLICY_REM_SUBMIT, ACCT_POLICY_ADD_SUBMIT,
         ACCT_POLICY_JOB_BEGIN] (job0, ctld0))))"
proof -
  let ?evs = "[ACCT_POLICY_JOB_FINI, ACCT_POLICY_REM_SUBMIT, ACCT_POLICY_ADD_SUBMIT,
         ACCT_POLICY_JOB_BEGIN]"
  have h3: "\<forall>j t. job_end_none j t = (j, t)" by (simp add: job_end_none_def)
  have hz: "(\<forall>p. Some p = Some 1 \<or> Some p = None \<longrightarrow>
          grp_used_submit_jobs (qos_rec.usage (qos_heap ctld0 p)) = 0
          \<and> submit_jobs (user_usage (qos_heap ctld0 p) (job_record.user_id job0)) = 0)
      \<and> (\<forall>a \<in> set (assoc_ptr job0). used_submit_jobs (assoc_rec.usage a) = 0)"
    by (simp add: ex_qos_usage ex_job_fields ex_assoc_usage new_used_limits_def)
  have hr: "(\<forall>p. Some p = Some 1 \<or> Some p = None \<longrightarrow>
               qos_room job0 (length ?evs) (qos_heap ctld0 p))
         \<and> (\<forall>a \<in> set (assoc_ptr job0). assoc_room job0 (length ?evs) (assoc_rec.usage a))"
    by (simp add: qos_room_def used_limits_room_def new_used_limits_def ex_qos_usage
        ex_job_fields ex_mem assoc_room_def ex_assoc_usage)
  define r1 where "r1 = adjust_limit_usage job_end_none ACCT_POLICY_REM_SUBMIT job0 ctld0"
  define r2 where "r2 = adjust_events job_end_none
      [ACCT_POLICY_REM_SUBMIT, ACCT_POLICY_ADD_SUBMIT] (job0, ctld0)"
  define r3 where "r3 = adjust_events job_end_none ?evs (job0, ctld0)"
  note t = submit_counters_saturate [where job_end = job_end_none and evs = ?evs,
      OF ex_limits ex_bound h3 ex_order, folded r1_def r2_def r3_def]
  note scenario = t [THEN conjunct1, THEN mp, OF hz]
  note sat_q = t [THEN conjunct2, THEN conjunct1, rule_format, of 1]
  note sat_a = t [THEN conjunct2, THEN conjunct2, THEN conjunct1]
  note general = t [THEN conjunct2, THEN conjunct2, THEN conjunct2, THEN mp, OF hr]
  have a: "grp_used_submit_jobs (qos_rec.usage (qos_heap (snd r2) 1)) = 1
      \<and> submit_jobs (user_usage (qos_heap (snd r2) 1) 1000) = 1"
    using scenario [THEN conjunct1, rule_format, of 1] by (simp add: ex_job_fields)
  have b: "map (\<lambda>a. used_submit_jobs (assoc_rec.usage a)) (assoc_ptr (fst r2)) = [1, 1]"
    using scenario [THEN conjunct2, THEN conjunct1] by (simp add: ex_job_fields)
  have c: "new_messages ctld0 (snd r1)
     = [Qos_underflow Submit_jobs ''normal'', Qos_user_underflow Submit_jobs ''normal'' 1000,
        Assoc_underflow Submit_jobs ''physics'', Assoc_underflow Submit_jobs ''root'']"
    using scenario [THEN conjunct2, THEN conjunct2]
    by (simp add: ex_job_fields qos_submit_underflow_def ex_qos_usage ex_names)
  have d: "unat (grp_used_submit_jobs (qos_rec.usage (qos_heap (snd r1) 1))) = 0"
    using sat_q by (simp add: ex_qos_usage)
  have e: "map (\<lambda>a. unat (used_submit_jobs (assoc_rec.usage a))) (assoc_ptr (fst r1)) = [0, 0]"
    using sat_a by (simp add: ex_job_fields ex_assoc_usage)
  have f: "qos_counters_nonneg (qos_heap (snd r3) 1) 1000"
    using general [THEN conjunct1, rule_format, of 1] by (simp add: ex_job_fields)
  have g: "list_all (\<lambda>a. assoc_counters_nonneg (assoc_rec.usage a)) (assoc_ptr (fst r3))"
    using general [THEN conjunct2] .
  show ?thesis
    using a b c d e f g unfolding r1_def r2_def r3_def by blast
qed

lemma ex_full:
  "job_assoc_bound job_full"
  "assoc_usage.grp_used_cpus (assoc_rec.usage (hd (assoc_ptr job_full))) = 0x7fffffff"
  "total_cpus job_full = 2"
  by (simp_all add: job_full_def job_assoc_bound_def ex_defs)

text \<open>
  C7 as stated fails, for counters read as \<^verbatim>\<open>(int32_t)\<close>, as the underflow tests of the code
  read them: an association that counts \<open>2^31 - 1\<close> cpus in use counts \<open>2^31 + 1\<close> after
  \<^verbatim>\<open>JOB_BEGIN\<close> of a job of 2 cpus, the addition being unchecked, and that is negative.
\<close>

theorem counters_overflow_counterexample:
  "counter_nonneg (assoc_usage.grp_used_cpus (assoc_rec.usage (hd (assoc_ptr job_full))))
   \<and> assoc_usage.grp_used_cpus (assoc_rec.usage (hd (assoc_ptr
         (fst (adjust_events job_end_none [ACCT_POLICY_JOB_BEGIN] (job_full, ctld0))))))
       = 0x80000001
   \<and> \<not> counter_nonneg (assoc_usage.grp_used_cpus (assoc_rec.usage (hd (assoc_ptr
         (fst (adjust_events job_end_none [ACCT_POLICY_JOB_BEGIN] (job_full, ctld0)))))))"
proof -
  have c: "assoc_ptr (fst (adjust_limit_usage job_end_none ACCT_POLICY_JOB_BEGIN job_full ctld0))
      = map (assoc_adjust ACCT_POLICY_JOB_BEGIN job_full) (assoc_ptr job_full)"
    by (rule adjust_limit_usage_chain [OF ex_limits ex_full(1)]) (simp add: job_end_none_def)
  have v: "assoc_usage.grp_used_cpus (assoc_rec.usage (hd (assoc_ptr
         (fst (adjust_events job_end_none [ACCT_POLICY_JOB_BEGIN] (job_full, ctld0))))))
       = 0x80000001"
    by (simp add: c) (simp add: job_full_def assoc_adjust_def ex_defs)
  have p: "counter_nonneg (0x7fffffff :: uint32)"
    unfolding counter_nonneg_def using sint_nonneg32 [of "0x7fffffff"] by simp
  have n: "\<not> counter_nonneg (0x80000001 :: uint32)"
    unfolding counter_nonneg_def using sint_neg32 [of "0x80000001"] by simp
  show ?thesis unfolding v using p n by (simp add: ex_full(2))
qed

subsection \<open>The submit-time validator: the reason reported\<close>

lemma or_infinite: "(x::32 word) OR INFINITE \<noteq> 0"
proof -
  have e: "INFINITE = (- 1 :: 32 word)" by (simp add: INFINITE_def)
  show ?thesis unfolding e by simp
qed

lemma keep_set_reason:
  "r \<noteq> WAIT_QOS_MAX_CPUS_PER_JOB \<Longrightarrow> reason_not_cpus_pj v \<Longrightarrow> reason_not_cpus_pj (set_reason r v)"
  by (simp add: reason_not_cpus_pj_def set_reason_def split: option.splits)

lemma keep_qos_out [simp]: "reason_not_cpus_pj (v\<lparr>v_qos_out := x\<rparr>) = reason_not_cpus_pj v"
  by (simp add: reason_not_cpus_pj_def)

lemma keep_job_desc [simp]: "reason_not_cpus_pj (v\<lparr>v_job_desc := x\<rparr>) = reason_not_cpus_pj v"
  by (simp add: reason_not_cpus_pj_def)

lemma keep_limit_set [simp]: "reason_not_cpus_pj (v\<lparr>v_limit_set := x\<rparr>) = reason_not_cpus_pj v"
  by (simp add: reason_not_cpus_pj_def)

lemma keep_cpus:
  "reason_not_cpus_pj v \<Longrightarrow> reason_not_cpus_pj (snd (qos_validate_cpus q u sc v))"
  by (simp add: qos_validate_cpus_def Let_def keep_set_reason)

lemma keep_mem:
  "reason_not_cpus_pj v \<Longrightarrow> reason_not_cpus_pj (snd (qos_validate_mem q m sc v))"
  by (simp add: qos_validate_mem_def Let_def keep_set_reason)

lemma keep_nodes:
  "reason_not_cpus_pj v \<Longrightarrow> reason_not_cpus_pj (snd (qos_validate_nodes q u sc v))"
  by (simp add: qos_validate_nodes_def Let_def keep_set_reason)

lemma keep_grp_submit:
  "reason_not_cpus_pj v \<Longrightarrow> reason_not_cpus_pj (snd (qos_validate_grp_submit_jobs q c v))"
  by (simp add: qos_validate_grp_submit_jobs_def Let_def keep_set_reason)

lemma keep_cpu_mins:
  "reason_not_cpus_pj v \<Longrightarrow> qos_validate_cpu_mins q t v = Inr (t', v') \<Longrightarrow> reason_not_cpus_pj v'"
  by (auto simp add: qos_validate_cpu_mins_def Let_def split: if_splits)

lemma keep_max_cpus_pj:
  "reason_not_cpus_pj v \<Longrightarrow> reason_not_cpus_pj (snd (qos_validate_max_cpus_pj q u sc v))"
  by (simp add: qos_validate_max_cpus_pj_def Let_def or_infinite)

lemma keep_max_nodes_pj:
  "reason_not_cpus_pj v \<Longrightarrow> reason_not_cpus_pj (snd (qos_validate_max_nodes_pj q u sc v))"
  by (simp add: qos_validate_max_nodes_pj_def Let_def keep_set_reason)

lemma keep_max_submit:
  "reason_not_cpus_pj v \<Longrightarrow> reason_not_cpus_pj (snd (qos_validate_max_submit_jobs_pu q c v))"
  by (simp add: qos_validate_max_submit_jobs_pu_def Let_def keep_set_reason)

lemma keep_max_wall:
  "reason_not_cpus_pj v \<Longrightarrow> reason_not_cpus_pj (snd (qos_validate_max_wall_pj q u t v))"
  by (simp add: qos_validate_max_wall_pj_def Let_def)

lemma keep_clip:
  "r \<noteq> WAIT_QOS_MAX_CPUS_PER_JOB \<Longrightarrow> reason_not_cpus_pj v \<Longrightarrow>
   clip_time_limit part cap r sc v = Inr (ok, v') \<Longrightarrow> reason_not_cpus_pj v'"
  by (auto simp add: clip_time_limit_def Let_def keep_set_reason split: if_splits option.splits)

lemma keep_time:
  "reason_not_cpus_pj v \<Longrightarrow> qos_validate_time part sc t v = Inr (ok, v') \<Longrightarrow> reason_not_cpus_pj v'"
  by (auto simp add: qos_validate_time_def dest: keep_clip [rotated 2] split: if_splits)

lemma keep_min_cpus:
  "reason_not_cpus_pj v \<Longrightarrow> reason_not_cpus_pj (snd (qos_validate_min_cpus q sc v))"
  by (simp add: qos_validate_min_cpus_def Let_def keep_set_reason)

lemma keep_qos_policy:
  assumes "reason_not_cpus_pj v0"
    and "qos_policy_validate s part qos u m c sc v0 = Inr (rc, v)"
  shows "reason_not_cpus_pj v"
proof (cases qos)
  case None
  then show ?thesis using assms by (simp add: qos_policy_validate_def)
next
  case (Some p)
  let ?q = "qos_heap s p"
  let ?v1 = "snd (qos_validate_cpus ?q u sc v0)"
  let ?v2 = "snd (qos_validate_mem ?q m sc ?v1)"
  let ?v3 = "snd (qos_validate_nodes ?q u sc ?v2)"
  let ?v4 = "snd (qos_validate_grp_submit_jobs ?q c ?v3)"
  have k4: "reason_not_cpus_pj ?v1" "reason_not_cpus_pj ?v2" "reason_not_cpus_pj ?v3"
    "reason_not_cpus_pj ?v4"
    using assms(1) by (simp_all add: keep_cpus keep_mem keep_nodes keep_grp_submit)
  show ?thesis
  proof (cases "qos_validate_cpu_mins ?q INFINITE ?v4")
    case (Inl f)
    then show ?thesis using assms(2) Some k4
      by (simp add: qos_policy_validate_def Let_def split_beta split: if_splits)
  next
    case (Inr tv)
    obtain t5 v5 where tv: "tv = (t5, v5)" by (cases tv)
    have k5: "reason_not_cpus_pj v5" using k4(4) Inr tv by (auto dest: keep_cpu_mins)
    let ?v6 = "snd (qos_validate_max_cpus_pj ?q u sc v5)"
    let ?v7 = "snd (qos_validate_max_nodes_pj ?q u sc ?v6)"
    let ?v8 = "snd (qos_validate_max_submit_jobs_pu ?q c ?v7)"
    let ?t9 = "fst (qos_validate_max_wall_pj ?q u t5 ?v8)"
    let ?v9 = "snd (qos_validate_max_wall_pj ?q u t5 ?v8)"
    have k9: "reason_not_cpus_pj ?v6" "reason_not_cpus_pj ?v7" "reason_not_cpus_pj ?v8"
      "reason_not_cpus_pj ?v9"
      using k5 by (simp_all add: keep_max_cpus_pj keep_max_nodes_pj keep_max_submit keep_max_wall)
    show ?thesis
    proof (cases "qos_validate_time part sc ?t9 ?v9")
      case (Inl f)
      then show ?thesis using assms(2) Some Inr tv k4 k9
        by (simp add: qos_policy_validate_def Let_def split_beta split: if_splits)
    next
      case r: (Inr ov)
      obtain ok10 v10 where ov: "ov = (ok10, v10)" by (cases ov)
      have k10: "reason_not_cpus_pj v10" using k9(4) r ov by (auto dest: keep_time)
      have k11: "reason_not_cpus_pj (snd (qos_validate_min_cpus ?q sc v10))"
        using k10 by (rule keep_min_cpus)
      show ?thesis using assms(2) Some Inr tv r ov k4 k5 k9 k10 k11
        by (auto simp add: qos_policy_validate_def Let_def split_beta split: if_splits)
    qed
  qed
qed


lemma keep_assoc_grp:
  "reason_not_cpus_pj v \<Longrightarrow> reason_not_cpus_pj (snd (validate_assoc_grp s a u c sc v))"
  by (simp add: validate_assoc_grp_def Let_def keep_set_reason)

lemma keep_assoc_max:
  "reason_not_cpus_pj v \<Longrightarrow> validate_assoc_max s part a u c sc v = Inr (ok, v') \<Longrightarrow>
   reason_not_cpus_pj v'"
  by (auto simp add: validate_assoc_max_def Let_def keep_set_reason dest: keep_clip [rotated 2]
      split: if_splits)

lemma keep_assoc_chain:
  "reason_not_cpus_pj v \<Longrightarrow>
   validate_assoc_chain s part u c sc parent chain v = Inr (ok, v') \<Longrightarrow> reason_not_cpus_pj v'"
proof (induction chain arbitrary: v parent)
  case Nil
  then show ?case by simp
next
  case (Cons a parents)
  obtain ok1 v1 where g: "validate_assoc_grp s a u c sc v = (ok1, v1)"
    by (cases "validate_assoc_grp s a u c sc v")
  have k1: "reason_not_cpus_pj v1" using keep_assoc_grp [OF Cons.prems(1), of s a u c sc] g by simp
  show ?case
  proof (cases ok1)
    case False
    then show ?thesis using Cons.prems(2) g k1 by simp
  next
    case True
    show ?thesis
    proof (cases parent)
      case p: True
      then show ?thesis using Cons.prems(2) g True Cons.IH [OF k1] by simp
    next
      case p: False
      show ?thesis
      proof (cases "validate_assoc_max s part a u c sc v1")
        case (Inl f)
        then show ?thesis using Cons.prems(2) g True p by simp
      next
        case (Inr ov)
        obtain ok2 v2 where ov: "ov = (ok2, v2)" by (cases ov)
        have k2: "reason_not_cpus_pj v2" using k1 Inr ov by (auto dest: keep_assoc_max)
        show ?thesis using Cons.prems(2) g True p Inr ov k2 Cons.IH [OF k2]
          by (cases ok2) simp_all
      qed
    qed
  qed
qed

lemma keep_validate:
  assumes "reason \<noteq> Some WAIT_QOS_MAX_CPUS_PER_JOB"
    and "acct_policy_validate s job_desc part assoc_in qos reason lim update_call
         = Inr (rc, jd, r, lim')"
  shows "r \<noteq> Some WAIT_QOS_MAX_CPUS_PER_JOB"
proof (cases "assoc_in = []")
  case True
  then show ?thesis using assms by (simp add: acct_policy_validate_def)
next
  case False
  define v0 where "v0 = \<lparr>v_job_desc = job_desc, v_qos_out = slurmdb_init_qos_rec,
                   v_reason = reason, v_limit_set = lim\<rparr>"
  have k0: "reason_not_cpus_pj v0" using assms(1) by (simp add: v0_def reason_not_cpus_pj_def)
  have "\<exists>v. reason_not_cpus_pj v \<and> r = v_reason v"
    using assms(2) False k0 unfolding acct_policy_validate_def Let_def v0_def [symmetric]
    by (auto simp add: split_beta split: option.splits sum.splits bool.splits prod.splits
        dest!: keep_qos_policy [rotated] keep_assoc_chain [rotated])
  then show ?thesis by (auto simp add: reason_not_cpus_pj_def)
qed

lemmas validate_defs = acct_policy_validate_def qos_policy_validate_def qos_validate_cpus_def
  qos_validate_mem_def qos_validate_nodes_def qos_validate_grp_submit_jobs_def
  qos_validate_cpu_mins_def qos_validate_max_cpus_pj_def qos_validate_max_nodes_pj_def
  qos_validate_max_submit_jobs_pu_def qos_validate_max_wall_pj_def qos_validate_time_def
  qos_validate_min_cpus_def clip_time_limit_def validate_assoc_grp_def validate_assoc_max_def
  validate_tres_limits_def set_reason_def validate_job_rec_def set_qos_order_def
  part_qos_ptr_def

lemma ex_tres_scan:
  "validate_tres_scan l job_tres (\<lambda>pos. ucast INFINITE) qos_tres admin_set update_call = None"
  "validate_tres_scan l job_tres (\<lambda>pos. 4294967295) qos_tres admin_set update_call = None"
  by (induction l) (simp_all add: INFINITE_def)

lemma ex_validate_cap4:
  "acct_policy_validate ctld_cap4 job_desc0 (Some part0) [assoc0, assoc_root0] (Some 3)
     (Some WAIT_NO_REASON) limit_set0 False
   = Inr (True, job_desc0, Some WAIT_NO_REASON, limit_set0)"
  by (simp add: validate_defs ex_defs ctld_cap4_def qos_cap4_def job_desc0_def ex_tres_scan
      Let_def INFINITE_def NO_VAL_def ADMIN_SET_LIMIT_def TRES_ARRAY_CPU_def TRES_ARRAY_MEM_def)

text \<open>
  C2 (what the code does). The guard of the check of the cpus per job in
  \<^verbatim>\<open>_qos_policy_validate\<close> holds the assignment \<^verbatim>\<open>qos_out_ptr->max_cpus_pj |= INFINITE\<close>, whose
  value is never 0: the check never denies a request and never touches \<^verbatim>\<open>*reason\<close>, for any
  request and any QOS. Hence no call of \<^verbatim>\<open>acct_policy_validate\<close> that returns reports
  \<^verbatim>\<open>WAIT_QOS_MAX_CPUS_PER_JOB\<close>, unless \<^verbatim>\<open>*reason\<close> already held it on entry; the denial the
  claim expects of a request above a finite \<^verbatim>\<open>max_cpus_pj\<close> does not happen.
\<close>

theorem max_cpus_pj_never_reported:
  "fst (qos_validate_max_cpus_pj q update_call strict_checking v)
   \<and> v_reason (snd (qos_validate_max_cpus_pj q update_call strict_checking v)) = v_reason v
   \<and> (reason \<noteq> Some WAIT_QOS_MAX_CPUS_PER_JOB
        \<and> acct_policy_validate s job_desc part assoc_in qos reason lim update_call
            = Inr (rc, jd, r, lim')
      \<longrightarrow> r \<noteq> Some WAIT_QOS_MAX_CPUS_PER_JOB)"
proof (intro conjI impI)
  show "fst (qos_validate_max_cpus_pj q update_call strict_checking v)"
    by (simp add: qos_validate_max_cpus_pj_def Let_def or_infinite)
  show "v_reason (snd (qos_validate_max_cpus_pj q update_call strict_checking v)) = v_reason v"
    by (simp add: qos_validate_max_cpus_pj_def Let_def or_infinite)
next
  assume "reason \<noteq> Some WAIT_QOS_MAX_CPUS_PER_JOB
        \<and> acct_policy_validate s job_desc part assoc_in qos reason lim update_call
            = Inr (rc, jd, r, lim')"
  then show "r \<noteq> Some WAIT_QOS_MAX_CPUS_PER_JOB"
    using keep_validate by blast
qed

text \<open>A request for 8 cpus under strict checking, against a QOS whose only limit is 4 cpus
  per job: the check lets it pass and the validator returns true, the reason as it was.\<close>

theorem max_cpus_pj_never_reported_witness:
  "fst (qos_validate_max_cpus_pj qos_cap4 False True
         \<lparr>v_job_desc = job_desc0, v_qos_out = slurmdb_init_qos_rec,
          v_reason = Some WAIT_NO_REASON, v_limit_set = limit_set0\<rparr>)
   \<and> max_cpus_pj qos_cap4 = 4
   \<and> tres_req_cnt job_desc0 TRES_ARRAY_CPU = 8
   \<and> acct_policy_validate ctld_cap4 job_desc0 (Some part0) [assoc0, assoc_root0] (Some 3)
        (Some WAIT_NO_REASON) limit_set0 False
      = Inr (True, job_desc0, Some WAIT_NO_REASON, limit_set0)
   \<and> Some WAIT_NO_REASON \<noteq> Some WAIT_QOS_MAX_CPUS_PER_JOB"
proof -
  note t = max_cpus_pj_never_reported [where q = qos_cap4 and update_call = False
      and strict_checking = True
      and v = "\<lparr>v_job_desc = job_desc0, v_qos_out = slurmdb_init_qos_rec,
          v_reason = Some WAIT_NO_REASON, v_limit_set = limit_set0\<rparr>"
      and s = ctld_cap4 and job_desc = job_desc0 and part = "Some part0"
      and assoc_in = "[assoc0, assoc_root0]" and qos = "Some 3"
      and reason = "Some WAIT_NO_REASON" and lim = limit_set0 and rc = True and jd = job_desc0
      and r = "Some WAIT_NO_REASON" and lim' = limit_set0]
  have a: "fst (qos_validate_max_cpus_pj qos_cap4 False True
         \<lparr>v_job_desc = job_desc0, v_qos_out = slurmdb_init_qos_rec,
          v_reason = Some WAIT_NO_REASON, v_limit_set = limit_set0\<rparr>)"
    using t by (rule conjunct1)
  have b: "Some WAIT_NO_REASON \<noteq> Some WAIT_QOS_MAX_CPUS_PER_JOB"
    using t [THEN conjunct2, THEN conjunct2] ex_validate_cap4 by simp
  have c: "max_cpus_pj qos_cap4 = 4" "tres_req_cnt job_desc0 TRES_ARRAY_CPU = 8"
    by (simp_all add: qos_cap4_def job_desc0_def)
  show ?thesis using a b c ex_validate_cap4 by blast
qed

text \<open>On the same request the check as the specification reads it denies, with the reason
  \<^verbatim>\<open>WAIT_QOS_MAX_CPUS_PER_JOB\<close>; the check of the source does not.\<close>

lemma ex_max_cpus_pj_as_specified:
  "fst (qos_validate_max_cpus_pj_as_specified qos_cap4 False True
         \<lparr>v_job_desc = job_desc0, v_qos_out = slurmdb_init_qos_rec,
          v_reason = Some WAIT_NO_REASON, v_limit_set = limit_set0\<rparr>) = False"
  "v_reason (snd (qos_validate_max_cpus_pj_as_specified qos_cap4 False True
         \<lparr>v_job_desc = job_desc0, v_qos_out = slurmdb_init_qos_rec,
          v_reason = Some WAIT_NO_REASON, v_limit_set = limit_set0\<rparr>))
     = Some WAIT_QOS_MAX_CPUS_PER_JOB"
  "fst (qos_validate_max_cpus_pj qos_cap4 False True
         \<lparr>v_job_desc = job_desc0, v_qos_out = slurmdb_init_qos_rec,
          v_reason = Some WAIT_NO_REASON, v_limit_set = limit_set0\<rparr>) = True"
  by (simp_all add: qos_validate_max_cpus_pj_as_specified_def qos_validate_max_cpus_pj_def
      Let_def or_infinite set_reason_def ex_defs qos_cap4_def job_desc0_def
      INFINITE_def NO_VAL_def ADMIN_SET_LIMIT_def TRES_ARRAY_CPU_def)

subsection \<open>The submit-time validator: the time limit of a request that names none\<close>

lemma tres_scan_no_limits:
  "list_all (\<lambda>pos. assoc_tres pos = ucast INFINITE) l \<Longrightarrow>
   validate_tres_scan l job_tres assoc_tres qos_tres admin_set update_call = None"
  by (induction l) simp_all

lemma tres_limits_no_limits:
  "list_all (\<lambda>pos. assoc_tres pos = ucast INFINITE) [0..<g_tres_count s] \<Longrightarrow>
   fst (validate_tres_limits s p job_tres assoc_tres qos_tres admin_set sc update_call)"
  by (simp add: validate_tres_limits_def tres_scan_no_limits)

lemma validate_assoc_grp_no_limits:
  "assoc_no_grp_limits s a \<Longrightarrow> validate_assoc_grp s a u c sc v = (True, v)"
  by (simp add: validate_assoc_grp_def assoc_no_grp_limits_def Let_def tres_limits_no_limits)

lemma validate_assoc_chain_parents:
  "list_all (assoc_no_grp_limits s) parents \<Longrightarrow>
   validate_assoc_chain s part u c sc True parents v = Inr (True, v)"
  by (induction parents) (simp_all add: validate_assoc_grp_no_limits)

lemma init_qos_fields:
  "qos_rec.max_wall_pj slurmdb_init_qos_rec = INFINITE"
  "qos_rec.max_nodes_pj slurmdb_init_qos_rec = INFINITE"
  "max_submit_jobs_pu slurmdb_init_qos_rec = INFINITE"
  "max_cpus_pj slurmdb_init_qos_rec = INFINITE"
  "qos_rec.grp_nodes slurmdb_init_qos_rec = INFINITE"
  "qos_rec.grp_submit_jobs slurmdb_init_qos_rec = INFINITE"
  by (simp_all add: slurmdb_init_qos_rec_def)

lemma set_qos_order_no_qos:
  "part_record.qos_ptr p = None \<Longrightarrow> set_qos_order s (validate_job_rec None (Some p)) = (None, None)"
  by (simp add: set_qos_order_def validate_job_rec_def part_qos_ptr_def)

lemma ex_no_limits:
  "assoc_no_grp_limits ctld0 assoc45" "assoc_no_max_limits ctld0 assoc45"
  "list_all (assoc_no_grp_limits ctld0) [assoc_root0]"
  by (simp_all add: assoc_no_grp_limits_def assoc_no_max_limits_def assoc45_def ex_defs
      list_all_iff)

lemma ex_no_time:
  "job_desc_msg.time_limit job_desc_no_time = NO_VAL" "job_desc_msg.min_nodes job_desc_no_time = 2"
  "part_record.qos_ptr part30 = None" "max_time part30 = 30"
  "assoc_rec.max_wall_pj assoc45 = 45" "acct_policy_limit_set.time limit_set0 = 0"
  by (simp_all add: job_desc_no_time_def job_desc0_def part30_def assoc45_def ex_defs)

text \<open>
  C6. For a request submitted to the validator (\<^verbatim>\<open>update_call\<close> false) whose time limit is
  \<^verbatim>\<open>NO_VAL\<close>, with no QOS on the job or on the partition, the time limit not set by an
  administrator, an association whose wall time per job is its only finite limit and
  whose ancestors have no finite group limit, \<^verbatim>\<open>acct_policy_validate\<close> returns true, sets
  \<^verbatim>\<open>limit_set.time\<close> to 1 and sets the time limit of the request to the limit of the
  association, or to the smaller of it and the partition's \<^verbatim>\<open>max_time\<close> when that is
  finite: 30 for a limit of 45 and a partition of 30.
\<close>

theorem validate_clips_unset_time_limit:
  assumes "job_desc_msg.time_limit job_desc = NO_VAL"
    and "part_record.qos_ptr p = None"
    and "assoc_rec.max_wall_pj a \<noteq> INFINITE"
    and "assoc_no_grp_limits s a" and "assoc_no_max_limits s a"
    and "list_all (assoc_no_grp_limits s) parents"
    and "acct_policy_limit_set.time lim \<noteq> ADMIN_SET_LIMIT"
  shows "acct_policy_validate s job_desc (Some p) (a # parents) None reason lim False =
     Inr (True,
          job_desc\<lparr>job_desc_msg.time_limit :=
            (if max_time p = INFINITE then assoc_rec.max_wall_pj a
             else min (assoc_rec.max_wall_pj a) (max_time p))\<rparr>,
          reason, lim\<lparr>acct_policy_limit_set.time := 1\<rparr>)"
proof -
  define t where "t = (if max_time p = INFINITE then assoc_rec.max_wall_pj a
             else min (assoc_rec.max_wall_pj a) (max_time p))"
  define sc where "sc = (reason \<noteq> None)"
  define c where "c = (case array_bitmap job_desc of None \<Rightarrow> 1 | Some b \<Rightarrow> bit_set_count b)"
  let ?v0 = "\<lparr>v_job_desc = job_desc, v_qos_out = slurmdb_init_qos_rec,
                   v_reason = reason, v_limit_set = lim\<rparr>"
  let ?v2 = "\<lparr>v_job_desc = job_desc\<lparr>job_desc_msg.time_limit := t\<rparr>,
             v_qos_out = slurmdb_init_qos_rec, v_reason = reason,
             v_limit_set = lim\<lparr>acct_policy_limit_set.time := 1\<rparr>\<rparr>"
  have m: "validate_assoc_max s (Some p) a False c sc ?v0 = Inr (True, ?v2)"
    using assms(1,3,5,7) unfolding t_def
    by (simp add: validate_assoc_max_def assoc_no_max_limits_def Let_def tres_limits_no_limits
        init_qos_fields clip_time_limit_def)
  have ch: "validate_assoc_chain s (Some p) False c sc False (a # parents) ?v0 = Inr (True, ?v2)"
    using assms(4,6) by (simp add: validate_assoc_grp_no_limits m validate_assoc_chain_parents)
  have "acct_policy_validate s job_desc (Some p) (a # parents) None reason lim False =
     Inr (True, job_desc\<lparr>job_desc_msg.time_limit := t\<rparr>, reason,
          lim\<lparr>acct_policy_limit_set.time := 1\<rparr>)"
    using ch [unfolded c_def sc_def] assms(2)
    by (simp add: acct_policy_validate_def set_qos_order_no_qos Let_def)
  then show ?thesis unfolding t_def .
qed

text \<open>The request of the scenario: 2 nodes, no time limit, an association of 45 minutes
  and a partition of 30.\<close>

theorem validate_clips_unset_time_limit_witness:
  "job_desc_msg.time_limit job_desc_no_time = NO_VAL
   \<and> job_desc_msg.min_nodes job_desc_no_time = 2
   \<and> acct_policy_validate ctld0 job_desc_no_time (Some part30) [assoc45, assoc_root0] None
        (Some WAIT_NO_REASON) limit_set0 False
      = Inr (True, job_desc_no_time\<lparr>job_desc_msg.time_limit := 30\<rparr>, Some WAIT_NO_REASON,
             limit_set0\<lparr>acct_policy_limit_set.time := 1\<rparr>)"
proof -
  have h3: "assoc_rec.max_wall_pj assoc45 \<noteq> INFINITE" by (simp add: ex_no_time INFINITE_def)
  have h7: "acct_policy_limit_set.time limit_set0 \<noteq> ADMIN_SET_LIMIT"
    by (simp add: ex_no_time ADMIN_SET_LIMIT_def)
  note t = validate_clips_unset_time_limit [where reason = "Some WAIT_NO_REASON",
      OF ex_no_time(1) ex_no_time(3) h3 ex_no_limits(1) ex_no_limits(2) ex_no_limits(3) h7]
  have "acct_policy_validate ctld0 job_desc_no_time (Some part30) [assoc45, assoc_root0] None
        (Some WAIT_NO_REASON) limit_set0 False
      = Inr (True, job_desc_no_time\<lparr>job_desc_msg.time_limit := 30\<rparr>, Some WAIT_NO_REASON,
             limit_set0\<lparr>acct_policy_limit_set.time := 1\<rparr>)"
    unfolding t by (simp add: ex_no_time INFINITE_def)
  then show ?thesis using ex_no_time(1,2) by blast
qed

text \<open>When a job is updated and the update names no time limit (\<^verbatim>\<open>update_call\<close> true), the
  guard \<^verbatim>\<open>update_call && job_desc->time_limit == NO_VAL\<close> skips the clipping: nothing is
  written.\<close>

lemma ex_validate_update_keeps_time_limit:
  "job_desc_msg.time_limit job_desc_no_time = NO_VAL
   \<and> job_desc_msg.min_nodes job_desc_no_time = 2
   \<and> acct_policy_limit_set.time limit_set0 = 0
   \<and> acct_policy_validate ctld0 job_desc_no_time (Some part30) [assoc45, assoc_root0] None
        (Some WAIT_NO_REASON) limit_set0 True
      = Inr (True, job_desc_no_time, Some WAIT_NO_REASON, limit_set0)"
proof -
  have "acct_policy_validate ctld0 job_desc_no_time (Some part30) [assoc45, assoc_root0] None
        (Some WAIT_NO_REASON) limit_set0 True
      = Inr (True, job_desc_no_time, Some WAIT_NO_REASON, limit_set0)"
    by (simp add: validate_defs ex_defs job_desc_no_time_def job_desc0_def part30_def assoc45_def
        ex_tres_scan Let_def INFINITE_def NO_VAL_def ADMIN_SET_LIMIT_def TRES_ARRAY_CPU_def
        TRES_ARRAY_MEM_def)
  then show ?thesis using ex_no_time(1,2,6) by blast
qed

subsection \<open>The max-nodes query: the merge of the two QOS\<close>

lemma get_max_nodes_qos_rec_fields:
  "get_max_nodes_qos_rec q1 (Some q2) =
     q1\<lparr>qos_rec.max_nodes_pj := first_finite (qos_rec.max_nodes_pj q1) (qos_rec.max_nodes_pj q2),
        max_nodes_pu := first_finite (max_nodes_pu q1) (max_nodes_pu q2),
        qos_rec.grp_nodes := first_finite (qos_rec.grp_nodes q1) (qos_rec.grp_nodes q2)\<rparr>"
  by (simp add: get_max_nodes_qos_rec_def first_finite_def Let_def)

lemma first_finite_min:
  "(first_finite x y = min x y) = (x = INFINITE \<or> x \<le> y)"
proof -
  have "y \<le> INFINITE" by (simp add: INFINITE_def word_le_def) (use uint_lt2p [of y] in simp)
  then show ?thesis by (auto simp add: first_finite_def min_def)
qed

lemma ex_nodes_heap:
  "qos_heap ctld_nodes 4 = qos0\<lparr>qos_rec.name := ''part4'', qos_rec.max_nodes_pj := 4\<rparr>"
  "qos_heap ctld_nodes 5 = qos0\<lparr>qos_rec.name := ''over8'', flags := {QOS_FLAG_PART_QOS},
                  qos_rec.max_nodes_pj := 8\<rparr>"
  "qos_heap ctld_nodes 6 = qos0\<lparr>qos_rec.name := ''plain8'', qos_rec.max_nodes_pj := 8\<rparr>"
  "ACCOUNTING_ENFORCE_LIMITS \<in> accounting_enforce ctld_nodes"
  by (simp_all add: ctld_nodes_def ctld0_def)

lemma ex_nodes_order:
  "set_qos_order ctld_nodes job_over8 = (Some 5, Some 4)"
  "set_qos_order ctld_nodes job_plain8 = (Some 4, Some 6)"
  by (simp_all add: set_qos_order_def part_qos_ptr_def job_over8_def job_plain8_def job0_def
      ex_nodes_heap qos0_def slurmdb_init_qos_rec_def)

lemma ex_nodes_chain:
  "get_max_nodes_assoc_chain g l False (assoc_ptr job_over8) r = r"
  "get_max_nodes_assoc_chain g l False (assoc_ptr job_plain8) r = r"
  by (cases r; simp add: job_over8_def job_plain8_def ex_defs)+

text \<open>
  C3 (amended). In \<^verbatim>\<open>acct_policy_get_max_nodes\<close>, under enforced limits, for every job with a
  primary and a secondary QOS, the values of \<^verbatim>\<open>max_nodes_pj\<close>, \<^verbatim>\<open>max_nodes_pu\<close> and \<^verbatim>\<open>grp_nodes\<close>
  from which the cap is computed are each the value of the primary QOS unless that is
  \<^verbatim>\<open>INFINITE\<close>, and the value of the secondary QOS then. This is the minimum of the two
  values exactly when the primary value is \<^verbatim>\<open>INFINITE\<close> or not above the secondary one.
\<close>

theorem get_max_nodes_first_finite:
  assumes "ACCOUNTING_ENFORCE_LIMITS \<in> accounting_enforce s"
    and "set_qos_order s job_ptr = (Some p1, Some p2)"
  shows
    "acct_policy_get_max_nodes s job_ptr wait_reason =
       (let qrec = (qos_heap s p1)
              \<lparr>qos_rec.max_nodes_pj := first_finite (qos_rec.max_nodes_pj (qos_heap s p1))
                                         (qos_rec.max_nodes_pj (qos_heap s p2)),
               max_nodes_pu := first_finite (max_nodes_pu (qos_heap s p1))
                                 (max_nodes_pu (qos_heap s p2)),
               qos_rec.grp_nodes := first_finite (qos_rec.grp_nodes (qos_heap s p1))
                                      (qos_rec.grp_nodes (qos_heap s p2))\<rparr>;
            (lim, qos_max_p_limit, wr) = get_max_nodes_qos qrec wait_reason
        in get_max_nodes_assoc_chain (qos_rec.grp_nodes qrec = INFINITE) qos_max_p_limit False
             (assoc_ptr job_ptr) (lim, wr))
     \<and> (first_finite x y = min x y) = (x = INFINITE \<or> x \<le> y)"
  using assms
  by (simp add: acct_policy_get_max_nodes_def get_max_nodes_qos_rec_fields first_finite_min)

text \<open>A partition QOS of 4 nodes per job and a job QOS of 8: the cap is 8 when the job QOS
  carries \<^verbatim>\<open>QOS_FLAG_PART_QOS\<close> and so comes first, 4 when it does not.\<close>

theorem get_max_nodes_first_finite_witness:
  "acct_policy_get_max_nodes ctld_nodes job_over8 WAIT_NO_REASON = (8, WAIT_QOS_MAX_NODE_PER_JOB)
   \<and> acct_policy_get_max_nodes ctld_nodes job_plain8 WAIT_NO_REASON
       = (4, WAIT_QOS_MAX_NODE_PER_JOB)"
proof -
  have a: "acct_policy_get_max_nodes ctld_nodes job_over8 WAIT_NO_REASON
      = (8, WAIT_QOS_MAX_NODE_PER_JOB)"
    unfolding get_max_nodes_first_finite [OF ex_nodes_heap(4) ex_nodes_order(1), THEN conjunct1]
    by (simp add: ex_nodes_heap ex_nodes_chain first_finite_def get_max_nodes_qos_def qos0_def
        slurmdb_init_qos_rec_def INFINITE_def)
  have b: "acct_policy_get_max_nodes ctld_nodes job_plain8 WAIT_NO_REASON
      = (4, WAIT_QOS_MAX_NODE_PER_JOB)"
    unfolding get_max_nodes_first_finite [OF ex_nodes_heap(4) ex_nodes_order(2), THEN conjunct1]
    by (simp add: ex_nodes_heap ex_nodes_chain first_finite_def get_max_nodes_qos_def qos0_def
        slurmdb_init_qos_rec_def INFINITE_def)
  show ?thesis using a b by blast
qed

text \<open>
  C3 as stated fails: with the primary QOS at 8 nodes per job and the secondary at 4, the
  value used is 8 and the cap returned is 8, where the field-wise minimum is 4.
\<close>

theorem get_max_nodes_not_minimum_counterexample:
  "set_qos_order ctld_nodes job_over8 = (Some 5, Some 4)
   \<and> qos_rec.max_nodes_pj (qos_heap ctld_nodes 5) = 8
   \<and> qos_rec.max_nodes_pj (qos_heap ctld_nodes 4) = 4
   \<and> qos_rec.max_nodes_pj
        (get_max_nodes_qos_rec (qos_heap ctld_nodes 5) (Some (qos_heap ctld_nodes 4))) = 8
   \<and> min (8 :: uint32) 4 = 4
   \<and> fst (acct_policy_get_max_nodes ctld_nodes job_over8 WAIT_NO_REASON) = 8"
  by (simp add: ex_nodes_order acct_policy_get_max_nodes_def ex_nodes_heap ex_nodes_chain
      get_max_nodes_qos_rec_def get_max_nodes_qos_def qos0_def slurmdb_init_qos_rec_def
      INFINITE_def Let_def)

subsection \<open>The post-select check: safe mode\<close>

lemma grp_cpu_mins_safe_mono:
  "fst (qos_post_grp_cpu_mins True t q out) = None \<Longrightarrow>
   qos_post_grp_cpu_mins False t q out = qos_post_grp_cpu_mins True t q out"
  by (simp add: qos_post_grp_cpu_mins_def Let_def split: if_splits)

lemma qos_post_select_first:
  "fst (qos_job_runnable_post_select s job_ptr q out n c m t adm) \<Longrightarrow>
   fst (qos_post_grp_cpu_mins (ACCOUNTING_ENFORCE_SAFE \<in> accounting_enforce s) t q out) = None"
  by (cases "qos_post_grp_cpu_mins (ACCOUNTING_ENFORCE_SAFE \<in> accounting_enforce s) t q out")
    (auto simp add: qos_job_runnable_post_select_def Let_def split_beta split: option.splits)

lemma qos_post_select_safe_mono:
  assumes "ACCOUNTING_ENFORCE_SAFE \<in> accounting_enforce s1"
    and "ACCOUNTING_ENFORCE_SAFE \<notin> accounting_enforce s2"
    and "fst (qos_job_runnable_post_select s1 job_ptr q out n c m t adm)"
  shows "qos_job_runnable_post_select s2 job_ptr q out n c m t adm =
         qos_job_runnable_post_select s1 job_ptr q out n c m t adm"
proof -
  have "fst (qos_post_grp_cpu_mins True t q out) = None"
    using qos_post_select_first [OF assms(3)] assms(1) by simp
  then have e: "qos_post_grp_cpu_mins False t q out = qos_post_grp_cpu_mins True t q out"
    by (rule grp_cpu_mins_safe_mono)
  show ?thesis
    unfolding qos_job_runnable_post_select_def using assms(1,2) by (simp add: e)
qed

lemma assoc_grp_cpu_mins_safe_mono:
  "post_select_assoc_grp_cpu_mins s1 qrec True t a = None \<Longrightarrow>
   slurmdb_find_tres_count_in_string s2 = slurmdb_find_tres_count_in_string s1 \<Longrightarrow>
   post_select_assoc_grp_cpu_mins s2 qrec False t a = None"
  by (simp add: post_select_assoc_grp_cpu_mins_def Let_def split: if_splits)

lemma post_select_assoc_others_cong:
  "slurmdb_find_tres_count_in_string s2 = slurmdb_find_tres_count_in_string s1 \<Longrightarrow>
   post_select_assoc_others s2 job_ptr qrec n c m t adm parent a =
   post_select_assoc_others s1 job_ptr qrec n c m t adm parent a"
  by (simp add: post_select_assoc_others_def)

lemma post_select_assoc_safe_mono:
  assumes "post_select_assoc s1 job_ptr qrec True n c m t adm parent a = None"
    and "slurmdb_find_tres_count_in_string s2 = slurmdb_find_tres_count_in_string s1"
  shows "post_select_assoc s2 job_ptr qrec False n c m t adm parent a = None"
proof -
  have a: "post_select_assoc_grp_cpu_mins s1 qrec True t a = None"
    and b: "post_select_assoc_others s1 job_ptr qrec n c m t adm parent a = None"
    using assms(1) by (auto simp add: post_select_assoc_def split: option.splits)
  show ?thesis
    by (simp add: post_select_assoc_def assoc_grp_cpu_mins_safe_mono [OF a assms(2)]
        post_select_assoc_others_cong [OF assms(2)] b)
qed

lemma select_assoc_chain_safe_mono:
  "select_assoc_chain (post_select_assoc s1 job_ptr qrec True n c m t adm) parent chain = None \<Longrightarrow>
   slurmdb_find_tres_count_in_string s2 = slurmdb_find_tres_count_in_string s1 \<Longrightarrow>
   select_assoc_chain (post_select_assoc s2 job_ptr qrec False n c m t adm) parent chain = None"
proof (induction chain arbitrary: parent)
  case Nil
  then show ?case by simp
next
  case (Cons a parents)
  have h: "post_select_assoc s1 job_ptr qrec True n c m t adm parent a = None"
    and r: "select_assoc_chain (post_select_assoc s1 job_ptr qrec True n c m t adm) True parents
            = None"
    using Cons.prems(1) by (auto split: option.splits)
  show ?case
    by (simp add: post_select_assoc_safe_mono [OF h Cons.prems(2)] Cons.IH [OF r Cons.prems(2)])
qed

lemma post_select_stages:
  assumes "ACCOUNTING_ENFORCE_LIMITS \<in> accounting_enforce s"
  shows "acct_policy_job_runnable_post_select s job_ptr n c pn =
     (if \<not> fst (post_select_qos1 s job_ptr n c pn)
      then (False, fst (snd (post_select_qos1 s job_ptr n c pn)), s)
      else if \<not> fst (post_select_qos2 s job_ptr n c pn)
      then (False, fst (snd (post_select_qos2 s job_ptr n c pn)), s)
      else (case post_select_chain s job_ptr n c pn of
              Some r \<Rightarrow> (False, hold_job r (fst (snd (post_select_qos2 s job_ptr n c pn))), s)
            | None \<Rightarrow> (True, fst (snd (post_select_qos2 s job_ptr n c pn)), s)))"
proof -
  have ne: "accounting_enforce s \<noteq> {}" using assms by auto
  show ?thesis
    unfolding acct_policy_job_runnable_post_select_def post_select_chain_def
      post_select_qos2_def post_select_qos1_def
      post_select_job_memory_def [symmetric] post_select_admin_set_def [symmetric]
    using assms ne
    by (simp add: Let_def split_beta split: option.splits)
qed


lemma safe_fields [simp]:
  "ACCOUNTING_ENFORCE_SAFE \<in> accounting_enforce (safe_on s)"
  "ACCOUNTING_ENFORCE_SAFE \<notin> accounting_enforce (safe_off s)"
  "(ACCOUNTING_ENFORCE_LIMITS \<in> accounting_enforce (safe_on s)) =
     (ACCOUNTING_ENFORCE_LIMITS \<in> accounting_enforce s)"
  "(ACCOUNTING_ENFORCE_LIMITS \<in> accounting_enforce (safe_off s)) =
     (ACCOUNTING_ENFORCE_LIMITS \<in> accounting_enforce s)"
  "qos_heap (safe_on s) = qos_heap s" "qos_heap (safe_off s) = qos_heap s"
  "slurmdb_find_tres_count_in_string (safe_on s) = slurmdb_find_tres_count_in_string s"
  "slurmdb_find_tres_count_in_string (safe_off s) = slurmdb_find_tres_count_in_string s"
  "clear_old_state_reason (safe_on s) job_ptr = clear_old_state_reason s job_ptr"
  "clear_old_state_reason (safe_off s) job_ptr = clear_old_state_reason s job_ptr"
  by (simp_all add: safe_on_def safe_off_def clear_old_state_reason_def
      acct_policy_job_runnable_state_def)

lemma safe_qos_order [simp]:
  "set_qos_order (safe_on s) job_ptr = set_qos_order s job_ptr"
  "set_qos_order (safe_off s) job_ptr = set_qos_order s job_ptr"
  by (rule set_qos_order_cong; simp)+

lemma post_select_qos1_safe_mono:
  assumes "fst (post_select_qos1 (safe_on s) job_ptr n c pn)"
  shows "post_select_qos1 (safe_off s) job_ptr n c pn = post_select_qos1 (safe_on s) job_ptr n c pn"
proof (cases "fst (set_qos_order s (clear_old_state_reason s job_ptr))")
  case None
  then show ?thesis by (simp add: post_select_qos1_def Let_def)
next
  case (Some p)
  have "fst (qos_job_runnable_post_select (safe_on s) (clear_old_state_reason s job_ptr)
          (qos_heap s p) slurmdb_init_qos_rec n c (post_select_job_memory pn c n)
          (ucast (job_record.time_limit (clear_old_state_reason s job_ptr)) * ucast c)
          (post_select_admin_set (clear_old_state_reason s job_ptr) pn))"
    using assms Some by (simp add: post_select_qos1_def Let_def)
  then show ?thesis
    using Some
    by (simp add: post_select_qos1_def Let_def
        qos_post_select_safe_mono [where ?s1.0 = "safe_on s" and ?s2.0 = "safe_off s"])
qed

lemma post_select_qos2_safe_mono:
  assumes "fst (post_select_qos1 (safe_on s) job_ptr n c pn)"
    and "fst (post_select_qos2 (safe_on s) job_ptr n c pn)"
  shows "post_select_qos2 (safe_off s) job_ptr n c pn = post_select_qos2 (safe_on s) job_ptr n c pn"
proof (cases "snd (set_qos_order s (clear_old_state_reason s job_ptr))")
  case None
  then show ?thesis by (simp add: post_select_qos2_def Let_def post_select_qos1_safe_mono [OF assms(1)])
next
  case (Some p)
  let ?r1 = "post_select_qos1 (safe_on s) job_ptr n c pn"
  have "fst (qos_job_runnable_post_select (safe_on s) (fst (snd ?r1))
          (qos_heap s p) (snd (snd ?r1)) n c (post_select_job_memory pn c n)
          (ucast (job_record.time_limit (clear_old_state_reason s job_ptr)) * ucast c)
          (post_select_admin_set (clear_old_state_reason s job_ptr) pn))"
    using assms(2) Some by (simp add: post_select_qos2_def Let_def)
  then show ?thesis
    using Some
    by (simp add: post_select_qos2_def Let_def post_select_qos1_safe_mono [OF assms(1)]
        qos_post_select_safe_mono [where ?s1.0 = "safe_on s" and ?s2.0 = "safe_off s"])
qed

lemma post_select_chain_safe_mono:
  assumes "fst (post_select_qos1 (safe_on s) job_ptr n c pn)"
    and "fst (post_select_qos2 (safe_on s) job_ptr n c pn)"
    and "post_select_chain (safe_on s) job_ptr n c pn = None"
  shows "post_select_chain (safe_off s) job_ptr n c pn = None"
proof -
  let ?r2 = "post_select_qos2 (safe_on s) job_ptr n c pn"
  have "select_assoc_chain
           (post_select_assoc (safe_on s) (fst (snd ?r2)) (snd (snd ?r2)) True n c
              (post_select_job_memory pn c n)
              (ucast (job_record.time_limit (clear_old_state_reason s job_ptr)) * ucast c)
              (post_select_admin_set (clear_old_state_reason s job_ptr) pn))
           False (assoc_ptr (fst (snd ?r2))) = None"
    using assms(3) by (simp add: post_select_chain_def Let_def)
  then have "select_assoc_chain
           (post_select_assoc (safe_off s) (fst (snd ?r2)) (snd (snd ?r2)) False n c
              (post_select_job_memory pn c n)
              (ucast (job_record.time_limit (clear_old_state_reason s job_ptr)) * ucast c)
              (post_select_admin_set (clear_old_state_reason s job_ptr) pn))
           False (assoc_ptr (fst (snd ?r2))) = None"
    by (rule select_assoc_chain_safe_mono) simp
  then show ?thesis
    by (simp add: post_select_chain_def Let_def post_select_qos2_safe_mono [OF assms(1,2)])
qed

lemma post_select_safe_implies_unsafe:
  assumes "fst (acct_policy_job_runnable_post_select (safe_on s) job_ptr n c pn)"
  shows "fst (acct_policy_job_runnable_post_select (safe_off s) job_ptr n c pn)"
proof (cases "ACCOUNTING_ENFORCE_LIMITS \<in> accounting_enforce s")
  case False
  then show ?thesis by (simp add: acct_policy_job_runnable_post_select_def)
next
  case True
  have l1: "ACCOUNTING_ENFORCE_LIMITS \<in> accounting_enforce (safe_on s)"
    and l2: "ACCOUNTING_ENFORCE_LIMITS \<in> accounting_enforce (safe_off s)"
    using True by simp_all
  have a: "fst (post_select_qos1 (safe_on s) job_ptr n c pn)"
    and b: "fst (post_select_qos2 (safe_on s) job_ptr n c pn)"
    and d: "post_select_chain (safe_on s) job_ptr n c pn = None"
    using assms unfolding post_select_stages [OF l1]
    by (auto split: if_splits option.splits)
  show ?thesis
    unfolding post_select_stages [OF l2]
    using a b
    by (simp add: post_select_qos1_safe_mono [OF a] post_select_qos2_safe_mono [OF a b]
        post_select_chain_safe_mono [OF a b d])
qed

lemma clear_old_state_reason_fields [simp]:
  "job_record.time_limit (clear_old_state_reason s job_ptr) = job_record.time_limit job_ptr"
  "job_record.user_id (clear_old_state_reason s job_ptr) = job_record.user_id job_ptr"
  "limit_set (clear_old_state_reason s job_ptr) = limit_set job_ptr"
  "assoc_ptr (clear_old_state_reason s job_ptr) = assoc_ptr job_ptr"
  "job_record.qos_ptr (clear_old_state_reason s job_ptr) = job_record.qos_ptr job_ptr"
  "part_ptr (clear_old_state_reason s job_ptr) = part_ptr job_ptr"
  by (simp_all add: clear_old_state_reason_def hold_job_def)

lemma set_qos_order_clear [simp]:
  "set_qos_order s (clear_old_state_reason s job_ptr) = set_qos_order s job_ptr"
  by (rule set_qos_order_cong) simp_all

lemma hold_job_fields [simp]:
  "state_reason (hold_job r job_ptr) = r"
  "assoc_ptr (hold_job r job_ptr) = assoc_ptr job_ptr"
  by (simp_all add: hold_job_def)

lemma scenario_cpu_mins_values:
  assumes "grp_cpu_mins q = 1000" "qos_usage.usage_raw (qos_rec.usage q) div 60 = 900"
    "qos_usage.grp_used_cpu_run_secs (qos_rec.usage q) = 0"
  shows "qos_post_grp_cpu_mins True 200 q slurmdb_init_qos_rec =
           (Some WAIT_QOS_GRP_CPU_MIN, slurmdb_init_qos_rec\<lparr>grp_cpu_mins := 1000\<rparr>)"
    and "qos_post_grp_cpu_mins False 200 q slurmdb_init_qos_rec =
           (None, slurmdb_init_qos_rec\<lparr>grp_cpu_mins := 1000\<rparr>)"
  using assms
  by (simp_all add: qos_post_grp_cpu_mins_def Let_def slurmdb_init_qos_rec_def INFINITE_def)

lemma scenario_safe_on:
  assumes "ACCOUNTING_ENFORCE_LIMITS \<in> accounting_enforce s"
    and "ACCOUNTING_ENFORCE_SAFE \<in> accounting_enforce s"
    and "set_qos_order s job_ptr = (Some p, q2)"
    and "grp_cpu_mins (qos_heap s p) = 1000"
    and "qos_usage.usage_raw (qos_rec.usage (qos_heap s p)) div 60 = 900"
    and "qos_usage.grp_used_cpu_run_secs (qos_rec.usage (qos_heap s p)) = 0"
    and "job_record.time_limit job_ptr = 20"
  shows "\<not> fst (acct_policy_job_runnable_post_select s job_ptr n 10 pn)"
    and "state_reason (fst (snd (acct_policy_job_runnable_post_select s job_ptr n 10 pn)))
         = WAIT_QOS_GRP_CPU_MIN"
proof -
  have t: "(ucast (20 :: uint32) :: uint64) * ucast (10 :: uint32) = 200" by simp
  have q1: "post_select_qos1 s job_ptr n 10 pn =
      (False, hold_job WAIT_QOS_GRP_CPU_MIN (clear_old_state_reason s job_ptr),
       slurmdb_init_qos_rec\<lparr>grp_cpu_mins := 1000\<rparr>)"
    using assms(2,3,7)
    by (simp add: post_select_qos1_def Let_def qos_job_runnable_post_select_def t
        scenario_cpu_mins_values [OF assms(4,5,6)] split_beta)
  show "\<not> fst (acct_policy_job_runnable_post_select s job_ptr n 10 pn)"
    and "state_reason (fst (snd (acct_policy_job_runnable_post_select s job_ptr n 10 pn)))
         = WAIT_QOS_GRP_CPU_MIN"
    unfolding post_select_stages [OF assms(1)] by (simp_all add: q1)
qed

lemma qos_post_no_other_limits:
  assumes "qos_no_other_select_limits q"
  shows "qos_post_grp_cpus job_ptr c q out = (None, out)"
    and "qos_post_grp_mem adm m q out = (None, out)"
    and "qos_post_grp_cpu_run_mins t q out = (None, out)"
    and "qos_post_grp_nodes job_ptr n q out = (None, out)"
    and "qos_post_max_cpu_mins_pj job_ptr t q out = (None, out)"
    and "qos_post_max_cpus_pj job_ptr c q out = (None, out)"
    and "qos_post_min_cpus_pj job_ptr c q out = (None, out)"
    and "qos_post_max_cpus_pu job_ptr u c q out = (None, out)"
    and "qos_post_max_nodes_pj job_ptr n q out = (None, out)"
    and "qos_post_max_nodes_pu job_ptr u n q out = (None, out)"
  using assms
  by (simp_all add: qos_no_other_select_limits_def qos_post_grp_cpus_def qos_post_grp_mem_def
      qos_post_grp_cpu_run_mins_def qos_post_grp_nodes_def qos_post_max_cpu_mins_pj_def
      qos_post_max_cpus_pj_def qos_post_min_cpus_pj_def qos_post_max_cpus_pu_def
      qos_post_max_nodes_pj_def qos_post_max_nodes_pu_def Let_def)

lemma post_select_assoc_no_limits:
  "assoc_no_select_limits s a \<Longrightarrow>
   post_select_assoc s job_ptr qrec safe n c m t adm parent a = None"
  by (simp add: assoc_no_select_limits_def post_select_assoc_def
      post_select_assoc_grp_cpu_mins_def post_select_assoc_others_def Let_def)

lemma select_assoc_chain_no_limits:
  "list_all (assoc_no_select_limits s) chain \<Longrightarrow>
   select_assoc_chain (post_select_assoc s job_ptr qrec safe n c m t adm) parent chain = None"
  by (induction chain arbitrary: parent) (simp_all add: post_select_assoc_no_limits)

lemma post_select_only_grp_cpu_mins:
  assumes "ACCOUNTING_ENFORCE_LIMITS \<in> accounting_enforce s"
    and "set_qos_order s job_ptr = (Some p, None)"
    and "qos_no_other_select_limits (qos_heap s p)"
    and "list_all (assoc_no_select_limits s) (assoc_ptr job_ptr)"
    and "fst (qos_post_grp_cpu_mins (ACCOUNTING_ENFORCE_SAFE \<in> accounting_enforce s)
               (ucast (job_record.time_limit job_ptr) * ucast c) (qos_heap s p)
               slurmdb_init_qos_rec) = None"
  shows "fst (acct_policy_job_runnable_post_select s job_ptr n c pn)"
proof -
  obtain out where o: "qos_post_grp_cpu_mins (ACCOUNTING_ENFORCE_SAFE \<in> accounting_enforce s)
               (ucast (job_record.time_limit job_ptr) * ucast c) (qos_heap s p)
               slurmdb_init_qos_rec = (None, out)"
    using assms(5) by (cases "qos_post_grp_cpu_mins (ACCOUNTING_ENFORCE_SAFE \<in> accounting_enforce s)
               (ucast (job_record.time_limit job_ptr) * ucast c) (qos_heap s p)
               slurmdb_init_qos_rec") simp
  have q1: "post_select_qos1 s job_ptr n c pn = (True, clear_old_state_reason s job_ptr, out)"
    using assms(2)
    by (simp add: post_select_qos1_def Let_def qos_job_runnable_post_select_def o split_beta
        qos_post_no_other_limits [OF assms(3)])
  have q2: "post_select_qos2 s job_ptr n c pn = post_select_qos1 s job_ptr n c pn"
    using assms(2) by (simp add: post_select_qos2_def Let_def q1)
  have ch: "post_select_chain s job_ptr n c pn = None"
    using assms(4) by (simp add: post_select_chain_def Let_def q2 q1 select_assoc_chain_no_limits)
  show ?thesis
    unfolding post_select_stages [OF assms(1)] by (simp add: q1 q2 ch)
qed

lemma scenario_safe_off:
  assumes "ACCOUNTING_ENFORCE_LIMITS \<in> accounting_enforce s"
    and "ACCOUNTING_ENFORCE_SAFE \<notin> accounting_enforce s"
    and "set_qos_order s job_ptr = (Some p, None)"
    and "grp_cpu_mins (qos_heap s p) = 1000"
    and "qos_usage.usage_raw (qos_rec.usage (qos_heap s p)) div 60 = 900"
    and "qos_usage.grp_used_cpu_run_secs (qos_rec.usage (qos_heap s p)) = 0"
    and "job_record.time_limit job_ptr = 20"
    and "qos_no_other_select_limits (qos_heap s p)"
    and "list_all (assoc_no_select_limits s) (assoc_ptr job_ptr)"
  shows "fst (acct_policy_job_runnable_post_select s job_ptr n 10 pn)"
proof -
  have t: "(ucast (20 :: uint32) :: uint64) * ucast (10 :: uint32) = 200" by simp
  show ?thesis
    by (rule post_select_only_grp_cpu_mins [OF assms(1,3,8,9)])
      (simp add: assms(2,7) t scenario_cpu_mins_values [OF assms(4,5,6)])
qed

lemma assoc_no_select_limits_safe [simp]:
  "assoc_no_select_limits (safe_on s) = assoc_no_select_limits s"
  "assoc_no_select_limits (safe_off s) = assoc_no_select_limits s"
  by (simp_all add: assoc_no_select_limits_def fun_eq_iff)

lemma ex_mins:
  "ACCOUNTING_ENFORCE_LIMITS \<in> accounting_enforce ctld_mins"
  "set_qos_order ctld_mins job_mins = (Some 7, None)"
  "qos_heap ctld_mins 7 = qos_mins"
  "grp_cpu_mins qos_mins = 1000"
  "qos_usage.usage_raw (qos_rec.usage qos_mins) div 60 = 900"
  "qos_usage.grp_used_cpu_run_secs (qos_rec.usage qos_mins) = 0"
  "qos_no_other_select_limits qos_mins"
  "list_all (assoc_no_select_limits ctld_mins) (assoc_ptr job_mins)"
  "job_record.time_limit job_mins = 20"
  by (simp_all add: ctld_mins_def job_mins_def qos_mins_def ex_defs set_qos_order_def
      part_qos_ptr_def qos_no_other_select_limits_def assoc_no_select_limits_def)

lemma ex_mins_one_cpu:
  "fst (acct_policy_job_runnable_post_select (safe_on ctld_mins) job_mins 1 1 0)"
proof (rule post_select_only_grp_cpu_mins [where p = 7])
  show "fst (qos_post_grp_cpu_mins
          (ACCOUNTING_ENFORCE_SAFE \<in> accounting_enforce (safe_on ctld_mins))
          (ucast (job_record.time_limit job_mins) * ucast (1 :: uint32))
          (qos_heap (safe_on ctld_mins) 7) slurmdb_init_qos_rec) = None"
    by (simp add: ex_mins qos_post_grp_cpu_mins_def Let_def slurmdb_init_qos_rec_def
        INFINITE_def)
qed (simp_all add: ex_mins)

text \<open>
  C5. (1) Under enforced limits, for a job of 20 minutes checked with 10 cpus whose only
  QOS has 1000 group cpu minutes, 900 of them used and no cpu seconds of running jobs
  (every other limit of the QOS and of the association chain being infinite), the
  post-select check returns true when \<^verbatim>\<open>ACCOUNTING_ENFORCE_SAFE\<close> is off, and returns false with
  \<^verbatim>\<open>state_reason = WAIT_QOS_GRP_CPU_MIN\<close> when it is on, since \<open>200 + 0 > 1000 - 900\<close>. (2) For
  every job, state and request: if the check admits the job with the flag on, it admits
  it with the flag off.
\<close>

theorem safe_mode_cpu_minutes:
  "(ACCOUNTING_ENFORCE_LIMITS \<in> accounting_enforce s
     \<and> set_qos_order s job_ptr = (Some p, None)
     \<and> grp_cpu_mins (qos_heap s p) = 1000
     \<and> qos_usage.usage_raw (qos_rec.usage (qos_heap s p)) div 60 = 900
     \<and> qos_usage.grp_used_cpu_run_secs (qos_rec.usage (qos_heap s p)) = 0
     \<and> qos_no_other_select_limits (qos_heap s p)
     \<and> list_all (assoc_no_select_limits s) (assoc_ptr job_ptr)
     \<and> job_record.time_limit job_ptr = 20
    \<longrightarrow> fst (acct_policy_job_runnable_post_select (safe_off s) job_ptr n 10 pn)
        \<and> \<not> fst (acct_policy_job_runnable_post_select (safe_on s) job_ptr n 10 pn)
        \<and> state_reason (fst (snd (acct_policy_job_runnable_post_select (safe_on s) job_ptr
                                      n 10 pn))) = WAIT_QOS_GRP_CPU_MIN)
   \<and> (fst (acct_policy_job_runnable_post_select (safe_on s) job_ptr n c pn)
        \<longrightarrow> fst (acct_policy_job_runnable_post_select (safe_off s) job_ptr n c pn))"
proof (intro conjI impI)
  assume h: "ACCOUNTING_ENFORCE_LIMITS \<in> accounting_enforce s
     \<and> set_qos_order s job_ptr = (Some p, None)
     \<and> grp_cpu_mins (qos_heap s p) = 1000
     \<and> qos_usage.usage_raw (qos_rec.usage (qos_heap s p)) div 60 = 900
     \<and> qos_usage.grp_used_cpu_run_secs (qos_rec.usage (qos_heap s p)) = 0
     \<and> qos_no_other_select_limits (qos_heap s p)
     \<and> list_all (assoc_no_select_limits s) (assoc_ptr job_ptr)
     \<and> job_record.time_limit job_ptr = 20"
  show "fst (acct_policy_job_runnable_post_select (safe_off s) job_ptr n 10 pn)"
    by (rule scenario_safe_off [where p = p]) (use h in simp_all)
  show "\<not> fst (acct_policy_job_runnable_post_select (safe_on s) job_ptr n 10 pn)"
    by (rule scenario_safe_on(1) [where p = p and ?q2.0 = None]) (use h in simp_all)
  show "state_reason (fst (snd (acct_policy_job_runnable_post_select (safe_on s) job_ptr
                                      n 10 pn))) = WAIT_QOS_GRP_CPU_MIN"
    by (rule scenario_safe_on(2) [where p = p and ?q2.0 = None]) (use h in simp_all)
next
  assume "fst (acct_policy_job_runnable_post_select (safe_on s) job_ptr n c pn)"
  then show "fst (acct_policy_job_runnable_post_select (safe_off s) job_ptr n c pn)"
    by (rule post_select_safe_implies_unsafe)
qed

text \<open>The QOS of the scenario in the example state: 10 cpus are admitted without the flag
  and held with it; 1 cpu (20 cpu minutes) is admitted with the flag, hence without.\<close>

theorem safe_mode_cpu_minutes_witness:
  "fst (acct_policy_job_runnable_post_select (safe_off ctld_mins) job_mins 1 10 0)
   \<and> \<not> fst (acct_policy_job_runnable_post_select (safe_on ctld_mins) job_mins 1 10 0)
   \<and> state_reason (fst (snd (acct_policy_job_runnable_post_select (safe_on ctld_mins) job_mins
                                1 10 0))) = WAIT_QOS_GRP_CPU_MIN
   \<and> fst (acct_policy_job_runnable_post_select (safe_on ctld_mins) job_mins 1 1 0)
   \<and> fst (acct_policy_job_runnable_post_select (safe_off ctld_mins) job_mins 1 1 0)"
proof -
  have h: "ACCOUNTING_ENFORCE_LIMITS \<in> accounting_enforce ctld_mins
     \<and> set_qos_order ctld_mins job_mins = (Some 7, None)
     \<and> grp_cpu_mins (qos_heap ctld_mins 7) = 1000
     \<and> qos_usage.usage_raw (qos_rec.usage (qos_heap ctld_mins 7)) div 60 = 900
     \<and> qos_usage.grp_used_cpu_run_secs (qos_rec.usage (qos_heap ctld_mins 7)) = 0
     \<and> qos_no_other_select_limits (qos_heap ctld_mins 7)
     \<and> list_all (assoc_no_select_limits ctld_mins) (assoc_ptr job_mins)
     \<and> job_record.time_limit job_mins = 20"
    by (simp add: ex_mins)
  note a = safe_mode_cpu_minutes [where s = ctld_mins and job_ptr = job_mins and p = 7
      and n = 1 and pn = 0 and c = 1, THEN conjunct1, THEN mp, OF h]
  note b = safe_mode_cpu_minutes [where s = ctld_mins and job_ptr = job_mins and p = 7
      and n = 1 and pn = 0 and c = 1, THEN conjunct2, THEN mp, OF ex_mins_one_cpu]
  show ?thesis using a b ex_mins_one_cpu by blast
qed

subsection \<open>The runnable checks: the record of a user the list does not hold\<close>

lemma scratch_record:
  assumes "get_used_limits_for_user (user_limit_list (qos_rec.usage q)) u = None"
  shows "used_limits_or_scratch q u = (new_used_limits u, True)"
    and "fst (used_limits_or_scratch (with_user_record q u) u) = new_used_limits u"
proof -
  show "used_limits_or_scratch q u = (new_used_limits u, True)"
    using assms by (simp add: used_limits_or_scratch_def)
  have f: "list_find_uid (ensure_user (user_limit_list (qos_rec.usage q)) u) u
        = Some (user_index (user_limit_list (qos_rec.usage q)) u)"
    by (rule ensure_user_find)
  have e: "ensure_user (user_limit_list (qos_rec.usage q)) u
             ! user_index (user_limit_list (qos_rec.usage q)) u = new_used_limits u"
    using assms by (simp add: ensure_user_entry)
  show "fst (used_limits_or_scratch (with_user_record q u) u) = new_used_limits u"
    by (simp add: used_limits_or_scratch_def with_user_record_def get_used_limits_for_user_def
        f e)
qed

lemma with_user_record_checks [simp]:
  "qos_pre_grp_jobs (with_user_record q u) out = qos_pre_grp_jobs q out"
  "qos_pre_grp_wall (with_user_record q u) out = qos_pre_grp_wall q out"
  "qos_pre_max_jobs_pu used (with_user_record q u) out = qos_pre_max_jobs_pu used q out"
  "qos_pre_max_wall_pj job_ptr (with_user_record q u) out = qos_pre_max_wall_pj job_ptr q out"
  "qos_post_grp_cpu_mins safe t (with_user_record q u) out = qos_post_grp_cpu_mins safe t q out"
  "qos_post_grp_cpus job_ptr c (with_user_record q u) out = qos_post_grp_cpus job_ptr c q out"
  "qos_post_grp_mem adm m (with_user_record q u) out = qos_post_grp_mem adm m q out"
  "qos_post_grp_cpu_run_mins t (with_user_record q u) out = qos_post_grp_cpu_run_mins t q out"
  "qos_post_grp_nodes job_ptr n (with_user_record q u) out = qos_post_grp_nodes job_ptr n q out"
  "qos_post_max_cpu_mins_pj job_ptr t (with_user_record q u) out
     = qos_post_max_cpu_mins_pj job_ptr t q out"
  "qos_post_max_cpus_pj job_ptr c (with_user_record q u) out = qos_post_max_cpus_pj job_ptr c q out"
  "qos_post_min_cpus_pj job_ptr c (with_user_record q u) out = qos_post_min_cpus_pj job_ptr c q out"
  "qos_post_max_cpus_pu job_ptr used c (with_user_record q u) out
     = qos_post_max_cpus_pu job_ptr used c q out"
  "qos_post_max_nodes_pj job_ptr n (with_user_record q u) out
     = qos_post_max_nodes_pj job_ptr n q out"
  "qos_post_max_nodes_pu job_ptr used n (with_user_record q u) out
     = qos_post_max_nodes_pu job_ptr used n q out"
  by (simp_all add: with_user_record_def qos_pre_grp_jobs_def qos_pre_grp_wall_def
      qos_pre_max_jobs_pu_def qos_pre_max_wall_pj_def qos_post_grp_cpu_mins_def
      qos_post_grp_cpus_def qos_post_grp_mem_def qos_post_grp_cpu_run_mins_def
      qos_post_grp_nodes_def qos_post_max_cpu_mins_pj_def qos_post_max_cpus_pj_def
      qos_post_min_cpus_pj_def qos_post_max_cpus_pu_def qos_post_max_nodes_pj_def
      qos_post_max_nodes_pu_def Let_def)

lemma pre_select_scratch:
  assumes "get_used_limits_for_user (user_limit_list (qos_rec.usage q))
             (job_record.user_id job_ptr) = None"
  shows "qos_job_runnable_pre_select job_ptr q out =
         qos_job_runnable_pre_select job_ptr (with_user_record q (job_record.user_id job_ptr)) out"
  unfolding qos_job_runnable_pre_select_def
  by (simp add: split_beta scratch_record [OF assms] cong: prod.case_cong option.case_cong)

lemma post_select_scratch:
  assumes "get_used_limits_for_user (user_limit_list (qos_rec.usage q))
             (job_record.user_id job_ptr) = None"
  shows "qos_job_runnable_post_select s job_ptr q out n c m t adm =
         qos_job_runnable_post_select s job_ptr
           (with_user_record q (job_record.user_id job_ptr)) out n c m t adm"
  unfolding qos_job_runnable_post_select_def
  by (simp add: split_beta scratch_record [OF assms] cong: prod.case_cong option.case_cong)

lemma post_select_frame: "snd (snd (acct_policy_job_runnable_post_select s job_ptr n c pn)) = s"
proof (cases "ACCOUNTING_ENFORCE_LIMITS \<in> accounting_enforce s")
  case True
  show ?thesis unfolding post_select_stages [OF True] by (simp split: option.splits)
next
  case False
  then show ?thesis by (simp add: acct_policy_job_runnable_post_select_def)
qed

lemma pre_select_frame: "snd (snd (acct_policy_job_runnable_pre_select s job_ptr)) = s"
proof (cases "valid_job_assoc s job_ptr")
  case (Pair ok job1)
  show ?thesis
  proof (cases "accounting_enforce s = {} \<or> \<not> ok \<or> ACCOUNTING_ENFORCE_LIMITS \<notin> accounting_enforce s")
    case True
    then show ?thesis using Pair
      by (cases ok) (auto simp add: acct_policy_job_runnable_pre_select_def)
  next
    case False
    let ?job2 = "clear_old_state_reason s job1"
    obtain q1 q2 where o: "set_qos_order s job1 = (q1, q2)" by (cases "set_qos_order s job1")
    obtain rc1 job3 qrec1 where r1: "(case q1 of
                         None \<Rightarrow> (True, ?job2, slurmdb_init_qos_rec)
                       | Some p \<Rightarrow>
                           qos_job_runnable_pre_select ?job2 (qos_heap s p) slurmdb_init_qos_rec)
         = (rc1, job3, qrec1)"
      by (metis prod_cases3)
    obtain rc2 job4 qrec2 where r2: "(case q2 of
                               None \<Rightarrow> (True, job3, qrec1)
                             | Some p \<Rightarrow> qos_job_runnable_pre_select job3 (qos_heap s p) qrec1)
         = (rc2, job4, qrec2)"
      by (metis prod_cases3)
    show ?thesis using False Pair
      by (cases ok)
        (simp_all add: acct_policy_job_runnable_pre_select_def Let_def o r1 r2
          split: option.splits)
  qed
qed

lemma ex_pu:
  "get_used_limits_for_user (user_limit_list (qos_rec.usage qos_pu)) (job_record.user_id job_pu)
     = None"
  "job_record.user_id job_pu = 1000"
  "qos_heap ctld_pu 8 = qos_pu"
  "user_limit_list (qos_rec.usage qos_pu) = None"
  "max_jobs_pu qos_pu = 1" "max_cpus_pu qos_pu = 4" "max_nodes_pu qos_pu = 2"
  by (simp_all add: qos_pu_def job_pu_def ctld_pu_def ex_defs get_used_limits_for_user_def)

lemma ex_pu_pre:
  "fst (qos_job_runnable_pre_select job_pu qos_pu slurmdb_init_qos_rec)"
proof -
  have c1: "qos_pre_grp_jobs qos_pu out = (None, out)" for out
    by (simp add: qos_pre_grp_jobs_def qos_pu_def ex_defs)
  have c2: "qos_pre_grp_wall qos_pu out = (None, out)" for out
    by (simp add: qos_pre_grp_wall_def qos_pu_def ex_defs)
  have c3: "qos_pre_max_jobs_pu (new_used_limits 1000) qos_pu slurmdb_init_qos_rec =
      (None, slurmdb_init_qos_rec\<lparr>max_jobs_pu := 1\<rparr>)"
    by (simp add: qos_pre_max_jobs_pu_def qos_pu_def ex_defs new_used_limits_def INFINITE_def)
  have c4: "qos_pre_max_wall_pj job_pu qos_pu out = (None, out)" for out
    by (simp add: qos_pre_max_wall_pj_def qos_pu_def ex_defs)
  have u: "used_limits_or_scratch qos_pu (job_record.user_id job_pu) = (new_used_limits 1000, True)"
    by (simp add: used_limits_or_scratch_def ex_pu get_used_limits_for_user_def)
  show ?thesis
    by (simp add: qos_job_runnable_pre_select_def u c1 c2 c3 c4)
qed

lemma per_user_checks_zero:
  assumes "get_used_limits_for_user (user_limit_list (qos_rec.usage q)) u = None"
  shows "qos_pre_max_jobs_pu (fst (used_limits_or_scratch q u)) q out =
           (if max_jobs_pu out = INFINITE \<and> max_jobs_pu q \<noteq> INFINITE
            then (if max_jobs_pu q = 0 then Some WAIT_QOS_MAX_JOB_PER_USER else None,
                  out\<lparr>max_jobs_pu := max_jobs_pu q\<rparr>)
            else (None, out))"
    and "qos_post_max_cpus_pu job_ptr (fst (used_limits_or_scratch q u)) c q out =
           (if min_tres (limit_set job_ptr) TRES_ARRAY_CPU \<noteq> ADMIN_SET_LIMIT
               \<and> max_cpus_pu out = INFINITE \<and> max_cpus_pu q \<noteq> INFINITE
            then (if c > max_cpus_pu q then Some WAIT_QOS_MAX_CPU_PER_USER else None,
                  out\<lparr>max_cpus_pu := max_cpus_pu q\<rparr>)
            else (None, out))"
    and "qos_post_max_nodes_pu job_ptr (fst (used_limits_or_scratch q u)) n q out =
           (if acct_policy_limit_set.min_nodes (limit_set job_ptr) \<noteq> ADMIN_SET_LIMIT
               \<and> max_nodes_pu out = INFINITE \<and> max_nodes_pu q \<noteq> INFINITE
            then (if n > max_nodes_pu q then Some WAIT_QOS_MAX_NODE_PER_USER else None,
                  out\<lparr>max_nodes_pu := max_nodes_pu q\<rparr>)
            else (None, out))"
  by (simp_all add: scratch_record(1) [OF assms] new_used_limits_def qos_pre_max_jobs_pu_def
      qos_post_max_cpus_pu_def qos_post_max_nodes_pu_def)

lemma qos_pre_no_limits:
  assumes "qos_no_group_or_job_limits q"
  shows "qos_pre_grp_jobs q out = (None, out)"
    and "qos_pre_grp_wall q out = (None, out)"
    and "qos_pre_max_wall_pj job_ptr q out = (None, out)"
  using assms
  by (simp_all add: qos_no_group_or_job_limits_def qos_pre_grp_jobs_def qos_pre_grp_wall_def
      qos_pre_max_wall_pj_def Let_def)

lemma qos_post_no_limits:
  assumes "qos_no_group_or_job_limits q"
  shows "qos_post_grp_cpu_mins safe t q out = (None, out)"
    and "qos_post_grp_cpus job_ptr c q out = (None, out)"
    and "qos_post_grp_mem adm m q out = (None, out)"
    and "qos_post_grp_cpu_run_mins t q out = (None, out)"
    and "qos_post_grp_nodes job_ptr n q out = (None, out)"
    and "qos_post_max_cpu_mins_pj job_ptr t q out = (None, out)"
    and "qos_post_max_cpus_pj job_ptr c q out = (None, out)"
    and "qos_post_min_cpus_pj job_ptr c q out = (None, out)"
    and "qos_post_max_nodes_pj job_ptr n q out = (None, out)"
  using assms
  by (simp_all add: qos_no_group_or_job_limits_def qos_post_grp_cpu_mins_def
      qos_post_grp_cpus_def qos_post_grp_mem_def
      qos_post_grp_cpu_run_mins_def qos_post_grp_nodes_def qos_post_max_cpu_mins_pj_def
      qos_post_max_cpus_pj_def qos_post_min_cpus_pj_def qos_post_max_nodes_pj_def Let_def)

lemma init_per_user [simp]:
  "max_jobs_pu slurmdb_init_qos_rec = INFINITE"
  "max_cpus_pu slurmdb_init_qos_rec = INFINITE"
  "max_nodes_pu slurmdb_init_qos_rec = INFINITE"
  by (simp_all add: slurmdb_init_qos_rec_def)

lemma pre_select_per_user:
  assumes "get_used_limits_for_user (user_limit_list (qos_rec.usage q))
             (job_record.user_id job_ptr) = None"
    and "qos_no_group_or_job_limits q"
  shows "fst (qos_job_runnable_pre_select job_ptr q slurmdb_init_qos_rec) = (max_jobs_pu q \<noteq> 0)"
    and "max_jobs_pu q = 0 \<Longrightarrow>
         fst (snd (qos_job_runnable_pre_select job_ptr q slurmdb_init_qos_rec))
           = hold_job WAIT_QOS_MAX_JOB_PER_USER job_ptr"
    and "max_jobs_pu q \<noteq> 0 \<Longrightarrow>
         fst (snd (qos_job_runnable_pre_select job_ptr q slurmdb_init_qos_rec)) = job_ptr"
proof -
  have z: "(0 :: uint32) \<noteq> INFINITE" by (simp add: INFINITE_def)
  have e: "qos_job_runnable_pre_select job_ptr q slurmdb_init_qos_rec =
      (case qos_pre_max_jobs_pu (fst (used_limits_or_scratch q (job_record.user_id job_ptr))) q
              slurmdb_init_qos_rec of
         (Some r, out3) \<Rightarrow> (False, hold_job r job_ptr, out3)
       | (None, out3) \<Rightarrow> (True, job_ptr, out3))"
    by (simp add: qos_job_runnable_pre_select_def split_beta qos_pre_no_limits [OF assms(2)]
        cong: prod.case_cong option.case_cong)
  show "fst (qos_job_runnable_pre_select job_ptr q slurmdb_init_qos_rec) = (max_jobs_pu q \<noteq> 0)"
    unfolding e per_user_checks_zero(1) [OF assms(1)] using z by auto
  show "fst (snd (qos_job_runnable_pre_select job_ptr q slurmdb_init_qos_rec))
           = hold_job WAIT_QOS_MAX_JOB_PER_USER job_ptr" if "max_jobs_pu q = 0"
    unfolding e per_user_checks_zero(1) [OF assms(1)] using z that by auto
  show "fst (snd (qos_job_runnable_pre_select job_ptr q slurmdb_init_qos_rec)) = job_ptr"
    if "max_jobs_pu q \<noteq> 0"
    unfolding e per_user_checks_zero(1) [OF assms(1)] using that by auto
qed

lemma word_gt_infinite [simp]: "\<not> (c :: uint32) > INFINITE"
proof -
  have "c \<le> INFINITE" by (simp add: INFINITE_def word_le_def) (use uint_lt2p [of c] in simp)
  then show ?thesis by simp
qed

lemma post_select_per_user:
  assumes "get_used_limits_for_user (user_limit_list (qos_rec.usage q))
             (job_record.user_id job_ptr) = None"
    and "qos_no_group_or_job_limits q"
  shows "fst (qos_job_runnable_post_select s job_ptr q slurmdb_init_qos_rec n c m t adm) =
           (\<not> (min_tres (limit_set job_ptr) TRES_ARRAY_CPU \<noteq> ADMIN_SET_LIMIT
               \<and> c > max_cpus_pu q)
            \<and> \<not> (acct_policy_limit_set.min_nodes (limit_set job_ptr) \<noteq> ADMIN_SET_LIMIT
                 \<and> n > max_nodes_pu q))"
    and "min_tres (limit_set job_ptr) TRES_ARRAY_CPU \<noteq> ADMIN_SET_LIMIT \<and> c > max_cpus_pu q \<Longrightarrow>
         fst (snd (qos_job_runnable_post_select s job_ptr q slurmdb_init_qos_rec n c m t adm))
           = hold_job WAIT_QOS_MAX_CPU_PER_USER job_ptr"
    and "\<not> (min_tres (limit_set job_ptr) TRES_ARRAY_CPU \<noteq> ADMIN_SET_LIMIT \<and> c > max_cpus_pu q)
         \<Longrightarrow> acct_policy_limit_set.min_nodes (limit_set job_ptr) \<noteq> ADMIN_SET_LIMIT
             \<and> n > max_nodes_pu q \<Longrightarrow>
         fst (snd (qos_job_runnable_post_select s job_ptr q slurmdb_init_qos_rec n c m t adm))
           = hold_job WAIT_QOS_MAX_NODE_PER_USER job_ptr"
    and "\<not> (min_tres (limit_set job_ptr) TRES_ARRAY_CPU \<noteq> ADMIN_SET_LIMIT \<and> c > max_cpus_pu q)
         \<Longrightarrow> \<not> (acct_policy_limit_set.min_nodes (limit_set job_ptr) \<noteq> ADMIN_SET_LIMIT
                 \<and> n > max_nodes_pu q) \<Longrightarrow>
         fst (snd (qos_job_runnable_post_select s job_ptr q slurmdb_init_qos_rec n c m t adm))
           = job_ptr"
proof -
  let ?u = "fst (used_limits_or_scratch q (job_record.user_id job_ptr))"
  have e: "qos_job_runnable_post_select s job_ptr q slurmdb_init_qos_rec n c m t adm =
      (case qos_post_max_cpus_pu job_ptr ?u c q slurmdb_init_qos_rec of
         (Some r, out9) \<Rightarrow> (False, hold_job r job_ptr, out9)
       | (None, out9) \<Rightarrow>
           (case qos_post_max_nodes_pu job_ptr ?u n q out9 of
              (Some r, out11) \<Rightarrow> (False, hold_job r job_ptr, out11)
            | (None, out11) \<Rightarrow> (True, job_ptr, out11)))"
    by (simp add: qos_job_runnable_post_select_def split_beta qos_post_no_limits [OF assms(2)]
        Let_def cong: prod.case_cong option.case_cong)
  note p = per_user_checks_zero(2,3) [OF assms(1)]
  show "fst (qos_job_runnable_post_select s job_ptr q slurmdb_init_qos_rec n c m t adm) =
           (\<not> (min_tres (limit_set job_ptr) TRES_ARRAY_CPU \<noteq> ADMIN_SET_LIMIT
               \<and> c > max_cpus_pu q)
            \<and> \<not> (acct_policy_limit_set.min_nodes (limit_set job_ptr) \<noteq> ADMIN_SET_LIMIT
                 \<and> n > max_nodes_pu q))"
    unfolding e p by (cases "max_cpus_pu q = INFINITE"; cases "max_nodes_pu q = INFINITE") auto
  show "fst (snd (qos_job_runnable_post_select s job_ptr q slurmdb_init_qos_rec n c m t adm))
           = hold_job WAIT_QOS_MAX_CPU_PER_USER job_ptr"
    if "min_tres (limit_set job_ptr) TRES_ARRAY_CPU \<noteq> ADMIN_SET_LIMIT \<and> c > max_cpus_pu q"
    using that unfolding e p
    by (cases "max_cpus_pu q = INFINITE"; cases "max_nodes_pu q = INFINITE") auto
  show "fst (snd (qos_job_runnable_post_select s job_ptr q slurmdb_init_qos_rec n c m t adm))
           = hold_job WAIT_QOS_MAX_NODE_PER_USER job_ptr"
    if "\<not> (min_tres (limit_set job_ptr) TRES_ARRAY_CPU \<noteq> ADMIN_SET_LIMIT \<and> c > max_cpus_pu q)"
      and "acct_policy_limit_set.min_nodes (limit_set job_ptr) \<noteq> ADMIN_SET_LIMIT
             \<and> n > max_nodes_pu q"
    using that unfolding e p
    by (cases "max_cpus_pu q = INFINITE"; cases "max_nodes_pu q = INFINITE") auto
  show "fst (snd (qos_job_runnable_post_select s job_ptr q slurmdb_init_qos_rec n c m t adm))
           = job_ptr"
    if "\<not> (min_tres (limit_set job_ptr) TRES_ARRAY_CPU \<noteq> ADMIN_SET_LIMIT \<and> c > max_cpus_pu q)"
      and "\<not> (acct_policy_limit_set.min_nodes (limit_set job_ptr) \<noteq> ADMIN_SET_LIMIT
                 \<and> n > max_nodes_pu q)"
    using that unfolding e p
    by (cases "max_cpus_pu q = INFINITE"; cases "max_nodes_pu q = INFINITE") auto
qed

lemma pre_select_assoc_no_limits:
  "assoc_no_pre_select_limits a \<Longrightarrow> pre_select_assoc job_ptr qrec parent a = None"
  by (simp add: assoc_no_pre_select_limits_def pre_select_assoc_def Let_def)

lemma pre_select_chain_no_limits:
  "list_all assoc_no_pre_select_limits chain \<Longrightarrow>
   select_assoc_chain (pre_select_assoc job_ptr qrec) parent chain = None"
  by (induction chain arbitrary: parent) (simp_all add: pre_select_assoc_no_limits)

lemma pre_select_entry_per_user:
  assumes "ACCOUNTING_ENFORCE_LIMITS \<in> accounting_enforce s"
    and "job_assoc_bound job_ptr"
    and "set_qos_order s job_ptr = (Some p, None)"
    and "get_used_limits_for_user (user_limit_list (qos_rec.usage (qos_heap s p)))
             (job_record.user_id job_ptr) = None"
    and "qos_no_group_or_job_limits (qos_heap s p)"
    and "list_all assoc_no_pre_select_limits (assoc_ptr job_ptr)"
  shows "acct_policy_job_runnable_pre_select s job_ptr =
           (if max_jobs_pu (qos_heap s p) = 0
            then (False, hold_job WAIT_QOS_MAX_JOB_PER_USER (clear_old_state_reason s job_ptr), s)
            else (True, clear_old_state_reason s job_ptr, s))"
proof -
  let ?job = "clear_old_state_reason s job_ptr"
  have ne: "accounting_enforce s \<noteq> {}" using assms(1) by auto
  have u: "get_used_limits_for_user (user_limit_list (qos_rec.usage (qos_heap s p)))
             (job_record.user_id ?job) = None"
    using assms(4) by simp
  obtain out where o: "qos_job_runnable_pre_select ?job (qos_heap s p) slurmdb_init_qos_rec
      = (max_jobs_pu (qos_heap s p) \<noteq> 0,
         if max_jobs_pu (qos_heap s p) = 0 then hold_job WAIT_QOS_MAX_JOB_PER_USER ?job else ?job,
         out)"
    using pre_select_per_user [OF u assms(5)]
    by (cases "qos_job_runnable_pre_select ?job (qos_heap s p) slurmdb_init_qos_rec") auto
  show ?thesis
    using assms(1,3,6) ne
    by (simp add: acct_policy_job_runnable_pre_select_def valid_job_assoc_bound [OF assms(2)]
        Let_def o pre_select_chain_no_limits)
qed

lemma post_select_entry_per_user:
  assumes "ACCOUNTING_ENFORCE_LIMITS \<in> accounting_enforce s"
    and "set_qos_order s job_ptr = (Some p, None)"
    and "get_used_limits_for_user (user_limit_list (qos_rec.usage (qos_heap s p)))
             (job_record.user_id job_ptr) = None"
    and "qos_no_group_or_job_limits (qos_heap s p)"
    and "list_all (assoc_no_select_limits s) (assoc_ptr job_ptr)"
  shows "acct_policy_job_runnable_post_select s job_ptr n c pn =
           (if min_tres (limit_set job_ptr) TRES_ARRAY_CPU \<noteq> ADMIN_SET_LIMIT
               \<and> c > max_cpus_pu (qos_heap s p)
            then (False, hold_job WAIT_QOS_MAX_CPU_PER_USER (clear_old_state_reason s job_ptr), s)
            else if acct_policy_limit_set.min_nodes (limit_set job_ptr) \<noteq> ADMIN_SET_LIMIT
                    \<and> n > max_nodes_pu (qos_heap s p)
            then (False, hold_job WAIT_QOS_MAX_NODE_PER_USER (clear_old_state_reason s job_ptr), s)
            else (True, clear_old_state_reason s job_ptr, s))"
proof -
  let ?job = "clear_old_state_reason s job_ptr"
  let ?q = "qos_heap s p"
  let ?cpu = "min_tres (limit_set job_ptr) TRES_ARRAY_CPU \<noteq> ADMIN_SET_LIMIT \<and> c > max_cpus_pu ?q"
  let ?node = "acct_policy_limit_set.min_nodes (limit_set job_ptr) \<noteq> ADMIN_SET_LIMIT
                    \<and> n > max_nodes_pu ?q"
  have u: "get_used_limits_for_user (user_limit_list (qos_rec.usage ?q))
             (job_record.user_id ?job) = None"
    using assms(3) by simp
  note r = post_select_per_user [OF u assms(4), where s = s and n = n and c = c
      and m = "post_select_job_memory pn c n"
      and t = "ucast (job_record.time_limit ?job) * ucast c"
      and adm = "post_select_admin_set ?job pn", simplified clear_old_state_reason_fields]
  obtain out where q1: "post_select_qos1 s job_ptr n c pn =
      (\<not> ?cpu \<and> \<not> ?node,
       if ?cpu then hold_job WAIT_QOS_MAX_CPU_PER_USER ?job
       else if ?node then hold_job WAIT_QOS_MAX_NODE_PER_USER ?job else ?job, out)"
    using r assms(2)
    by (cases "post_select_qos1 s job_ptr n c pn")
      (auto simp add: post_select_qos1_def Let_def)
  have q2: "fst (post_select_qos1 s job_ptr n c pn) \<Longrightarrow>
      post_select_qos2 s job_ptr n c pn = post_select_qos1 s job_ptr n c pn"
    using assms(2) by (simp add: post_select_qos2_def Let_def q1)
  have ch: "fst (post_select_qos1 s job_ptr n c pn) \<Longrightarrow> post_select_chain s job_ptr n c pn = None"
    using assms(5) q2 by (simp add: post_select_chain_def Let_def q1 select_assoc_chain_no_limits)
  show ?thesis
    unfolding post_select_stages [OF assms(1)]
    using q2 ch by (auto simp add: q1)
qed

lemma ex_pu_state:
  "ACCOUNTING_ENFORCE_LIMITS \<in> accounting_enforce ctld_pu"
  "job_assoc_bound job_pu"
  "set_qos_order ctld_pu job_pu = (Some 8, None)"
  "qos_no_group_or_job_limits qos_pu"
  "list_all assoc_no_pre_select_limits (assoc_ptr job_pu)"
  "list_all (assoc_no_select_limits ctld_pu) (assoc_ptr job_pu)"
  "clear_old_state_reason ctld_pu job_pu = job_pu"
  "min_tres (limit_set job_pu) TRES_ARRAY_CPU \<noteq> ADMIN_SET_LIMIT"
  "acct_policy_limit_set.min_nodes (limit_set job_pu) \<noteq> ADMIN_SET_LIMIT"
  by (simp_all add: ctld_pu_def job_pu_def qos_pu_def ex_defs set_qos_order_def
      part_qos_ptr_def qos_no_group_or_job_limits_def assoc_no_select_limits_def
      assoc_no_pre_select_limits_def job_assoc_bound_def clear_old_state_reason_def
      acct_policy_job_runnable_state_def ADMIN_SET_LIMIT_def TRES_ARRAY_CPU_def)

lemma ex_nojobs:
  "ACCOUNTING_ENFORCE_LIMITS \<in> accounting_enforce ctld_nojobs"
  "job_assoc_bound job_nojobs"
  "set_qos_order ctld_nojobs job_nojobs = (Some 10, None)"
  "qos_heap ctld_nojobs 10 = qos_nojobs"
  "get_used_limits_for_user (user_limit_list (qos_rec.usage qos_nojobs))
     (job_record.user_id job_nojobs) = None"
  "qos_no_group_or_job_limits qos_nojobs"
  "list_all assoc_no_pre_select_limits (assoc_ptr job_nojobs)"
  "clear_old_state_reason ctld_nojobs job_nojobs = job_nojobs"
  "max_jobs_pu qos_nojobs = 0"
  by (simp_all add: ctld_nojobs_def job_nojobs_def qos_nojobs_def ex_defs set_qos_order_def
      part_qos_ptr_def qos_no_group_or_job_limits_def get_used_limits_for_user_def
      assoc_no_pre_select_limits_def job_assoc_bound_def clear_old_state_reason_def
      acct_policy_job_runnable_state_def)

text \<open>
  C10. For every job whose user has no record in the list of a QOS, the pre-select and the
  post-select check of that QOS work on a record allocated for the call, all of whose
  counters are 0 and which is marked to be freed. With it the check of \<^verbatim>\<open>max_jobs_pu\<close>
  holds the job exactly when the limit is 0 (the user runs 0 jobs), the check of
  \<^verbatim>\<open>max_cpus_pu\<close> exactly when the cpus of the job alone exceed the limit and the check of
  \<^verbatim>\<open>max_nodes_pu\<close> exactly when its nodes alone do (each when the scratch QOS has no value
  yet, and for cpus and nodes when the administrator has not set the job's limit); the
  results of both checks are those for the QOS with such a record linked into its list.
  For a QOS whose only finite limits are the limits per user, this decides both checks of
  the QOS, and, when it is the job's only QOS and the association chain has no limit,
  \<^verbatim>\<open>acct_policy_job_runnable_pre_select\<close> and \<^verbatim>\<open>acct_policy_job_runnable_post_select\<close>: the
  job is held with \<^verbatim>\<open>WAIT_QOS_MAX_JOB_PER_USER\<close>, \<^verbatim>\<open>WAIT_QOS_MAX_CPU_PER_USER\<close> or
  \<^verbatim>\<open>WAIT_QOS_MAX_NODE_PER_USER\<close>, or admitted. Neither function changes the accounting
  state, so the list of every QOS is after the call what it was before.
\<close>

theorem runnable_checks_scratch_record:
  "(get_used_limits_for_user (user_limit_list (qos_rec.usage q)) (job_record.user_id job_ptr)
      = None
    \<longrightarrow> used_limits_or_scratch q (job_record.user_id job_ptr)
          = (\<lparr>cpus = 0, jobs = 0, nodes = 0, submit_jobs = 0,
              uid = job_record.user_id job_ptr\<rparr>, True)
        \<and> qos_pre_max_jobs_pu (fst (used_limits_or_scratch q (job_record.user_id job_ptr))) q out
          = (if max_jobs_pu out = INFINITE \<and> max_jobs_pu q \<noteq> INFINITE
             then (if max_jobs_pu q = 0 then Some WAIT_QOS_MAX_JOB_PER_USER else None,
                   out\<lparr>max_jobs_pu := max_jobs_pu q\<rparr>)
             else (None, out))
        \<and> qos_post_max_cpus_pu job_ptr
            (fst (used_limits_or_scratch q (job_record.user_id job_ptr))) c q out
          = (if min_tres (limit_set job_ptr) TRES_ARRAY_CPU \<noteq> ADMIN_SET_LIMIT
                \<and> max_cpus_pu out = INFINITE \<and> max_cpus_pu q \<noteq> INFINITE
             then (if c > max_cpus_pu q then Some WAIT_QOS_MAX_CPU_PER_USER else None,
                   out\<lparr>max_cpus_pu := max_cpus_pu q\<rparr>)
             else (None, out))
        \<and> qos_post_max_nodes_pu job_ptr
            (fst (used_limits_or_scratch q (job_record.user_id job_ptr))) n q out
          = (if acct_policy_limit_set.min_nodes (limit_set job_ptr) \<noteq> ADMIN_SET_LIMIT
                \<and> max_nodes_pu out = INFINITE \<and> max_nodes_pu q \<noteq> INFINITE
             then (if n > max_nodes_pu q then Some WAIT_QOS_MAX_NODE_PER_USER else None,
                   out\<lparr>max_nodes_pu := max_nodes_pu q\<rparr>)
             else (None, out))
        \<and> qos_job_runnable_pre_select job_ptr q out
          = qos_job_runnable_pre_select job_ptr
              (with_user_record q (job_record.user_id job_ptr)) out
        \<and> qos_job_runnable_post_select s job_ptr q out n c m t adm
          = qos_job_runnable_post_select s job_ptr
              (with_user_record q (job_record.user_id job_ptr)) out n c m t adm
        \<and> (qos_no_group_or_job_limits q
            \<longrightarrow> fst (qos_job_runnable_pre_select job_ptr q slurmdb_init_qos_rec)
                  = (max_jobs_pu q \<noteq> 0)
                \<and> fst (snd (qos_job_runnable_pre_select job_ptr q slurmdb_init_qos_rec))
                  = (if max_jobs_pu q = 0
                     then job_ptr\<lparr>state_desc := None,
                                  state_reason := WAIT_QOS_MAX_JOB_PER_USER\<rparr>
                     else job_ptr)
                \<and> fst (qos_job_runnable_post_select s job_ptr q slurmdb_init_qos_rec
                          n c m t adm)
                  = (\<not> (min_tres (limit_set job_ptr) TRES_ARRAY_CPU \<noteq> ADMIN_SET_LIMIT
                         \<and> c > max_cpus_pu q)
                     \<and> \<not> (acct_policy_limit_set.min_nodes (limit_set job_ptr) \<noteq> ADMIN_SET_LIMIT
                           \<and> n > max_nodes_pu q))
                \<and> fst (snd (qos_job_runnable_post_select s job_ptr q slurmdb_init_qos_rec
                               n c m t adm))
                  = (if min_tres (limit_set job_ptr) TRES_ARRAY_CPU \<noteq> ADMIN_SET_LIMIT
                        \<and> c > max_cpus_pu q
                     then job_ptr\<lparr>state_desc := None,
                                  state_reason := WAIT_QOS_MAX_CPU_PER_USER\<rparr>
                     else if acct_policy_limit_set.min_nodes (limit_set job_ptr)
                               \<noteq> ADMIN_SET_LIMIT
                             \<and> n > max_nodes_pu q
                     then job_ptr\<lparr>state_desc := None,
                                  state_reason := WAIT_QOS_MAX_NODE_PER_USER\<rparr>
                     else job_ptr)))
   \<and> (ACCOUNTING_ENFORCE_LIMITS \<in> accounting_enforce s
       \<and> set_qos_order s job_ptr = (Some p, None)
       \<and> get_used_limits_for_user (user_limit_list (qos_rec.usage (qos_heap s p)))
           (job_record.user_id job_ptr) = None
       \<and> qos_no_group_or_job_limits (qos_heap s p)
      \<longrightarrow> (job_assoc_bound job_ptr \<and> list_all assoc_no_pre_select_limits (assoc_ptr job_ptr)
            \<longrightarrow> acct_policy_job_runnable_pre_select s job_ptr
                  = (if max_jobs_pu (qos_heap s p) = 0
                     then (False,
                           (clear_old_state_reason s job_ptr)
                             \<lparr>state_desc := None, state_reason := WAIT_QOS_MAX_JOB_PER_USER\<rparr>,
                           s)
                     else (True, clear_old_state_reason s job_ptr, s)))
          \<and> (list_all (assoc_no_select_limits s) (assoc_ptr job_ptr)
              \<longrightarrow> acct_policy_job_runnable_post_select s job_ptr n c pn
                    = (if min_tres (limit_set job_ptr) TRES_ARRAY_CPU \<noteq> ADMIN_SET_LIMIT
                          \<and> c > max_cpus_pu (qos_heap s p)
                       then (False,
                             (clear_old_state_reason s job_ptr)
                               \<lparr>state_desc := None, state_reason := WAIT_QOS_MAX_CPU_PER_USER\<rparr>,
                             s)
                       else if acct_policy_limit_set.min_nodes (limit_set job_ptr)
                                 \<noteq> ADMIN_SET_LIMIT
                               \<and> n > max_nodes_pu (qos_heap s p)
                       then (False,
                             (clear_old_state_reason s job_ptr)
                               \<lparr>state_desc := None, state_reason := WAIT_QOS_MAX_NODE_PER_USER\<rparr>,
                             s)
                       else (True, clear_old_state_reason s job_ptr, s))))
   \<and> snd (snd (acct_policy_job_runnable_pre_select s job_ptr)) = s
   \<and> snd (snd (acct_policy_job_runnable_post_select s job_ptr n c pn)) = s"
proof (intro conjI impI)
  assume h: "get_used_limits_for_user (user_limit_list (qos_rec.usage q))
      (job_record.user_id job_ptr) = None"
  show "used_limits_or_scratch q (job_record.user_id job_ptr)
          = (\<lparr>cpus = 0, jobs = 0, nodes = 0, submit_jobs = 0,
              uid = job_record.user_id job_ptr\<rparr>, True)"
    using scratch_record(1) [OF h] by (simp add: new_used_limits_def)
  show "qos_pre_max_jobs_pu (fst (used_limits_or_scratch q (job_record.user_id job_ptr))) q out
          = (if max_jobs_pu out = INFINITE \<and> max_jobs_pu q \<noteq> INFINITE
             then (if max_jobs_pu q = 0 then Some WAIT_QOS_MAX_JOB_PER_USER else None,
                   out\<lparr>max_jobs_pu := max_jobs_pu q\<rparr>)
             else (None, out))"
    using h by (rule per_user_checks_zero(1))
  show "qos_post_max_cpus_pu job_ptr
            (fst (used_limits_or_scratch q (job_record.user_id job_ptr))) c q out
          = (if min_tres (limit_set job_ptr) TRES_ARRAY_CPU \<noteq> ADMIN_SET_LIMIT
                \<and> max_cpus_pu out = INFINITE \<and> max_cpus_pu q \<noteq> INFINITE
             then (if c > max_cpus_pu q then Some WAIT_QOS_MAX_CPU_PER_USER else None,
                   out\<lparr>max_cpus_pu := max_cpus_pu q\<rparr>)
             else (None, out))"
    using h by (rule per_user_checks_zero(2))
  show "qos_post_max_nodes_pu job_ptr
            (fst (used_limits_or_scratch q (job_record.user_id job_ptr))) n q out
          = (if acct_policy_limit_set.min_nodes (limit_set job_ptr) \<noteq> ADMIN_SET_LIMIT
                \<and> max_nodes_pu out = INFINITE \<and> max_nodes_pu q \<noteq> INFINITE
             then (if n > max_nodes_pu q then Some WAIT_QOS_MAX_NODE_PER_USER else None,
                   out\<lparr>max_nodes_pu := max_nodes_pu q\<rparr>)
             else (None, out))"
    using h by (rule per_user_checks_zero(3))
  show "qos_job_runnable_pre_select job_ptr q out
          = qos_job_runnable_pre_select job_ptr
              (with_user_record q (job_record.user_id job_ptr)) out"
    using h by (rule pre_select_scratch)
  show "qos_job_runnable_post_select s job_ptr q out n c m t adm
          = qos_job_runnable_post_select s job_ptr
              (with_user_record q (job_record.user_id job_ptr)) out n c m t adm"
    using h by (rule post_select_scratch)
  assume l: "qos_no_group_or_job_limits q"
  show "fst (qos_job_runnable_pre_select job_ptr q slurmdb_init_qos_rec) = (max_jobs_pu q \<noteq> 0)"
    using h l by (rule pre_select_per_user(1))
  show "fst (snd (qos_job_runnable_pre_select job_ptr q slurmdb_init_qos_rec))
                  = (if max_jobs_pu q = 0
                     then job_ptr\<lparr>state_desc := None,
                                  state_reason := WAIT_QOS_MAX_JOB_PER_USER\<rparr>
                     else job_ptr)"
    using pre_select_per_user(2,3) [OF h l] by (simp add: hold_job_def)
  show "fst (qos_job_runnable_post_select s job_ptr q slurmdb_init_qos_rec n c m t adm)
                  = (\<not> (min_tres (limit_set job_ptr) TRES_ARRAY_CPU \<noteq> ADMIN_SET_LIMIT
                         \<and> c > max_cpus_pu q)
                     \<and> \<not> (acct_policy_limit_set.min_nodes (limit_set job_ptr) \<noteq> ADMIN_SET_LIMIT
                           \<and> n > max_nodes_pu q))"
    using h l by (rule post_select_per_user(1))
  show "fst (snd (qos_job_runnable_post_select s job_ptr q slurmdb_init_qos_rec n c m t adm))
                  = (if min_tres (limit_set job_ptr) TRES_ARRAY_CPU \<noteq> ADMIN_SET_LIMIT
                        \<and> c > max_cpus_pu q
                     then job_ptr\<lparr>state_desc := None,
                                  state_reason := WAIT_QOS_MAX_CPU_PER_USER\<rparr>
                     else if acct_policy_limit_set.min_nodes (limit_set job_ptr)
                               \<noteq> ADMIN_SET_LIMIT
                             \<and> n > max_nodes_pu q
                     then job_ptr\<lparr>state_desc := None,
                                  state_reason := WAIT_QOS_MAX_NODE_PER_USER\<rparr>
                     else job_ptr)"
    using post_select_per_user(2,3,4) [OF h l, where c = c and n = n and s = s and m = m and t = t
        and adm = adm]
    by (simp add: hold_job_def)
next
  assume e: "ACCOUNTING_ENFORCE_LIMITS \<in> accounting_enforce s
       \<and> set_qos_order s job_ptr = (Some p, None)
       \<and> get_used_limits_for_user (user_limit_list (qos_rec.usage (qos_heap s p)))
           (job_record.user_id job_ptr) = None
       \<and> qos_no_group_or_job_limits (qos_heap s p)"
  assume a: "job_assoc_bound job_ptr \<and> list_all assoc_no_pre_select_limits (assoc_ptr job_ptr)"
  show "acct_policy_job_runnable_pre_select s job_ptr
                  = (if max_jobs_pu (qos_heap s p) = 0
                     then (False,
                           (clear_old_state_reason s job_ptr)
                             \<lparr>state_desc := None, state_reason := WAIT_QOS_MAX_JOB_PER_USER\<rparr>,
                           s)
                     else (True, clear_old_state_reason s job_ptr, s))"
    using pre_select_entry_per_user [of s job_ptr p] e a by (simp add: hold_job_def)
next
  assume e: "ACCOUNTING_ENFORCE_LIMITS \<in> accounting_enforce s
       \<and> set_qos_order s job_ptr = (Some p, None)
       \<and> get_used_limits_for_user (user_limit_list (qos_rec.usage (qos_heap s p)))
           (job_record.user_id job_ptr) = None
       \<and> qos_no_group_or_job_limits (qos_heap s p)"
  assume a: "list_all (assoc_no_select_limits s) (assoc_ptr job_ptr)"
  show "acct_policy_job_runnable_post_select s job_ptr n c pn
                    = (if min_tres (limit_set job_ptr) TRES_ARRAY_CPU \<noteq> ADMIN_SET_LIMIT
                          \<and> c > max_cpus_pu (qos_heap s p)
                       then (False,
                             (clear_old_state_reason s job_ptr)
                               \<lparr>state_desc := None, state_reason := WAIT_QOS_MAX_CPU_PER_USER\<rparr>,
                             s)
                       else if acct_policy_limit_set.min_nodes (limit_set job_ptr)
                                 \<noteq> ADMIN_SET_LIMIT
                               \<and> n > max_nodes_pu (qos_heap s p)
                       then (False,
                             (clear_old_state_reason s job_ptr)
                               \<lparr>state_desc := None, state_reason := WAIT_QOS_MAX_NODE_PER_USER\<rparr>,
                             s)
                       else (True, clear_old_state_reason s job_ptr, s))"
    using post_select_entry_per_user [of s job_ptr p n c pn] e a by (simp add: hold_job_def)
next
  show "snd (snd (acct_policy_job_runnable_pre_select s job_ptr)) = s"
    by (rule pre_select_frame)
  show "snd (snd (acct_policy_job_runnable_post_select s job_ptr n c pn)) = s"
    by (rule post_select_frame)
qed

text \<open>A QOS of 1 job, 4 cpus and 2 nodes per user whose list is NULL: the user's usage
  counts as 0, so the job passes the pre-select check, passes the post-select check with
  2 cpus on 1 node, is held with \<^verbatim>\<open>WAIT_QOS_MAX_CPU_PER_USER\<close> with 5 cpus and with
  \<^verbatim>\<open>WAIT_QOS_MAX_NODE_PER_USER\<close> on 3 nodes; a QOS of 0 jobs per user holds it before
  selection with \<^verbatim>\<open>WAIT_QOS_MAX_JOB_PER_USER\<close>. The list is still NULL after the calls.\<close>

theorem runnable_checks_scratch_record_witness:
  "used_limits_or_scratch qos_pu 1000
     = (\<lparr>cpus = 0, jobs = 0, nodes = 0, submit_jobs = 0, uid = 1000\<rparr>, True)
   \<and> max_jobs_pu qos_pu = 1 \<and> max_cpus_pu qos_pu = 4 \<and> max_nodes_pu qos_pu = 2
   \<and> fst (qos_post_max_cpus_pu job_pu (fst (used_limits_or_scratch qos_pu 1000)) 5 qos_pu
            slurmdb_init_qos_rec) = Some WAIT_QOS_MAX_CPU_PER_USER
   \<and> fst (qos_post_max_cpus_pu job_pu (fst (used_limits_or_scratch qos_pu 1000)) 4 qos_pu
            slurmdb_init_qos_rec) = None
   \<and> acct_policy_job_runnable_pre_select ctld_pu job_pu = (True, job_pu, ctld_pu)
   \<and> acct_policy_job_runnable_post_select ctld_pu job_pu 1 2 0 = (True, job_pu, ctld_pu)
   \<and> acct_policy_job_runnable_post_select ctld_pu job_pu 1 5 0
     = (False, job_pu\<lparr>state_desc := None, state_reason := WAIT_QOS_MAX_CPU_PER_USER\<rparr>,
        ctld_pu)
   \<and> acct_policy_job_runnable_post_select ctld_pu job_pu 3 2 0
     = (False, job_pu\<lparr>state_desc := None, state_reason := WAIT_QOS_MAX_NODE_PER_USER\<rparr>,
        ctld_pu)
   \<and> max_jobs_pu qos_nojobs = 0
   \<and> acct_policy_job_runnable_pre_select ctld_nojobs job_nojobs
     = (False, job_nojobs\<lparr>state_desc := None, state_reason := WAIT_QOS_MAX_JOB_PER_USER\<rparr>,
        ctld_nojobs)
   \<and> user_limit_list (qos_rec.usage (qos_heap
        (snd (snd (acct_policy_job_runnable_post_select ctld_pu job_pu 1 5 0))) 8)) = None"
proof -
  have inf: "(4 :: uint32) \<noteq> INFINITE" by (simp add: INFINITE_def)
  have e: "ACCOUNTING_ENFORCE_LIMITS \<in> accounting_enforce ctld_pu
       \<and> set_qos_order ctld_pu job_pu = (Some 8, None)
       \<and> get_used_limits_for_user (user_limit_list (qos_rec.usage (qos_heap ctld_pu 8)))
           (job_record.user_id job_pu) = None
       \<and> qos_no_group_or_job_limits (qos_heap ctld_pu 8)"
    by (simp add: ex_pu ex_pu_state get_used_limits_for_user_def)
  have t: "(used_limits_or_scratch qos_pu 1000
       = (\<lparr>cpus = 0, jobs = 0, nodes = 0, submit_jobs = 0, uid = 1000\<rparr>, True)
      \<and> fst (qos_post_max_cpus_pu job_pu (fst (used_limits_or_scratch qos_pu 1000)) c qos_pu
            slurmdb_init_qos_rec) = (if c > 4 then Some WAIT_QOS_MAX_CPU_PER_USER else None))
     \<and> acct_policy_job_runnable_pre_select ctld_pu job_pu = (True, job_pu, ctld_pu)
     \<and> acct_policy_job_runnable_post_select ctld_pu job_pu n c 0
       = (if c > 4
          then (False, job_pu\<lparr>state_desc := None, state_reason := WAIT_QOS_MAX_CPU_PER_USER\<rparr>,
                ctld_pu)
          else if n > 2
          then (False, job_pu\<lparr>state_desc := None, state_reason := WAIT_QOS_MAX_NODE_PER_USER\<rparr>,
                ctld_pu)
          else (True, job_pu, ctld_pu))" for n c
  proof -
    note t = runnable_checks_scratch_record [where q = qos_pu and job_ptr = job_pu
      and out = slurmdb_init_qos_rec and s = ctld_pu and p = 8 and pn = 0
      and m = 0 and t = 20 and adm = False and n = n and c = c]
    note a = t [THEN conjunct1, THEN mp, OF ex_pu(1), unfolded ex_pu(2)]
    note b = t [THEN conjunct2, THEN conjunct1, THEN mp, OF e]
    note pre = b [THEN conjunct1, THEN mp, OF conjI [OF ex_pu_state(2) ex_pu_state(5)]]
    note post = b [THEN conjunct2, THEN mp, OF ex_pu_state(6)]
    have 1: "used_limits_or_scratch qos_pu 1000
       = (\<lparr>cpus = 0, jobs = 0, nodes = 0, submit_jobs = 0, uid = 1000\<rparr>, True)"
      using a by (rule conjunct1)
    have 2: "fst (qos_post_max_cpus_pu job_pu (fst (used_limits_or_scratch qos_pu 1000)) c qos_pu
            slurmdb_init_qos_rec) = (if c > 4 then Some WAIT_QOS_MAX_CPU_PER_USER else None)"
      using a [THEN conjunct2, THEN conjunct2, THEN conjunct1] inf
      by (simp add: ex_pu ex_pu_state)
    have 3: "acct_policy_job_runnable_pre_select ctld_pu job_pu = (True, job_pu, ctld_pu)"
      using pre by (simp add: ex_pu ex_pu_state)
    have 4: "acct_policy_job_runnable_post_select ctld_pu job_pu n c 0
       = (if c > 4
          then (False, job_pu\<lparr>state_desc := None, state_reason := WAIT_QOS_MAX_CPU_PER_USER\<rparr>,
                ctld_pu)
          else if n > 2
          then (False, job_pu\<lparr>state_desc := None, state_reason := WAIT_QOS_MAX_NODE_PER_USER\<rparr>,
                ctld_pu)
          else (True, job_pu, ctld_pu))"
      using post by (simp add: ex_pu ex_pu_state)
    show ?thesis using 1 2 3 4 by blast
  qed
  have 1: "used_limits_or_scratch qos_pu 1000
       = (\<lparr>cpus = 0, jobs = 0, nodes = 0, submit_jobs = 0, uid = 1000\<rparr>, True)"
    using t [where c = 5 and n = 1] by simp
  have 4: "acct_policy_job_runnable_pre_select ctld_pu job_pu = (True, job_pu, ctld_pu)"
    using t [where c = 5 and n = 1] by simp
  have 2: "fst (qos_post_max_cpus_pu job_pu (fst (used_limits_or_scratch qos_pu 1000)) 5 qos_pu
            slurmdb_init_qos_rec) = Some WAIT_QOS_MAX_CPU_PER_USER"
    using t [where c = 5 and n = 1, THEN conjunct1, THEN conjunct2] by simp
  have 3: "fst (qos_post_max_cpus_pu job_pu (fst (used_limits_or_scratch qos_pu 1000)) 4 qos_pu
            slurmdb_init_qos_rec) = None"
    using t [where c = 4 and n = 1, THEN conjunct1, THEN conjunct2] by simp
  have 5: "acct_policy_job_runnable_post_select ctld_pu job_pu 1 2 0 = (True, job_pu, ctld_pu)"
    using t [where c = 2 and n = 1] by simp
  have 6: "acct_policy_job_runnable_post_select ctld_pu job_pu 1 5 0
     = (False, job_pu\<lparr>state_desc := None, state_reason := WAIT_QOS_MAX_CPU_PER_USER\<rparr>,
        ctld_pu)"
    using t [where c = 5 and n = 1] by simp
  have 7: "acct_policy_job_runnable_post_select ctld_pu job_pu 3 2 0
     = (False, job_pu\<lparr>state_desc := None, state_reason := WAIT_QOS_MAX_NODE_PER_USER\<rparr>,
        ctld_pu)"
    using t [where c = 2 and n = 3] by simp
  have f: "ACCOUNTING_ENFORCE_LIMITS \<in> accounting_enforce ctld_nojobs
       \<and> set_qos_order ctld_nojobs job_nojobs = (Some 10, None)
       \<and> get_used_limits_for_user (user_limit_list (qos_rec.usage (qos_heap ctld_nojobs 10)))
           (job_record.user_id job_nojobs) = None
       \<and> qos_no_group_or_job_limits (qos_heap ctld_nojobs 10)"
    by (simp add: ex_nojobs)
  have 8: "acct_policy_job_runnable_pre_select ctld_nojobs job_nojobs
     = (False, job_nojobs\<lparr>state_desc := None, state_reason := WAIT_QOS_MAX_JOB_PER_USER\<rparr>,
        ctld_nojobs)"
    using runnable_checks_scratch_record [where s = ctld_nojobs and job_ptr = job_nojobs and p = 10,
        THEN conjunct2, THEN conjunct1, THEN mp, OF f, THEN conjunct1, THEN mp,
        OF conjI [OF ex_nojobs(2) ex_nojobs(7)]]
    by (simp add: ex_nojobs)
  have 9: "user_limit_list (qos_rec.usage (qos_heap
        (snd (snd (acct_policy_job_runnable_post_select ctld_pu job_pu 1 5 0))) 8)) = None"
    unfolding 6 by (simp add: ex_pu)
  show ?thesis using 1 2 3 4 5 6 7 8 9 ex_pu(5,6,7) ex_nojobs(9) by blast
qed
subsection \<open>The time-out evaluator\<close>

lemma time_out_guard:
  "ACCOUNTING_ENFORCE_LIMITS \<notin> accounting_enforce s
     \<or> ACCOUNTING_ENFORCE_SAFE \<in> accounting_enforce s \<Longrightarrow>
   acct_policy_job_time_out s job_ptr = (False, job_ptr, s)"
  by (simp add: acct_policy_job_time_out_def)

lemma time_out_stages:
  assumes "ACCOUNTING_ENFORCE_LIMITS \<in> accounting_enforce s"
    and "ACCOUNTING_ENFORCE_SAFE \<notin> accounting_enforce s"
  shows "acct_policy_job_time_out s job_ptr =
     (if fst (time_out_qos1 s job_ptr) \<or> fst (time_out_qos2 s job_ptr)
      then (True, job_ptr\<lparr>state_reason := FAIL_TIMEOUT\<rparr>, s\<lparr>last_job_update := time_now s\<rparr>)
      else if time_out_assoc_chain s (snd (time_out_qos2 s job_ptr))
                (time_out_cpu_usage_mins s job_ptr) (assoc_ptr job_ptr)
      then (True, job_ptr\<lparr>state_reason := FAIL_TIMEOUT\<rparr>, s)
      else (state_reason job_ptr = FAIL_TIMEOUT, job_ptr, s))"
proof -
  obtain q1 q2 where o: "set_qos_order s job_ptr = (q1, q2)" by (cases "set_qos_order s job_ptr")
  obtain t1 out1 where a: "time_out_qos1 s job_ptr = (t1, out1)"
    by (cases "time_out_qos1 s job_ptr")
  obtain t2 out2 where b: "time_out_qos2 s job_ptr = (t2, out2)"
    by (cases "time_out_qos2 s job_ptr")
  show ?thesis
  proof (cases q1)
    case None
    then have "q2 = None" using o set_qos_order_second_only [of s job_ptr] by simp
    then show ?thesis
      using assms o None a b
      by (simp add: acct_policy_job_time_out_def time_out_qos1_def time_out_qos2_def
          time_out_cpu_usage_mins_def Let_def)
  next
    case (Some p1)
    show ?thesis
    proof (cases q2)
      case None
      then show ?thesis
        using assms o Some a b
        by (cases t1)
          (simp_all add: acct_policy_job_time_out_def time_out_qos1_def time_out_qos2_def
            time_out_cpu_usage_mins_def Let_def qos_job_time_out_def)
    next
      case s2: (Some p2)
      show ?thesis
        using assms o Some s2 a b
        by (cases t1; cases t2)
          (simp_all add: acct_policy_job_time_out_def time_out_qos1_def time_out_qos2_def
            time_out_cpu_usage_mins_def Let_def qos_job_time_out_def)
    qed
  qed
qed

lemma ex_wall:
  "ACCOUNTING_ENFORCE_LIMITS \<in> accounting_enforce ctld_wall"
  "ACCOUNTING_ENFORCE_SAFE \<notin> accounting_enforce ctld_wall"
  "ACCOUNTING_ENFORCE_SAFE \<notin> accounting_enforce ctld0"
  "set_qos_order ctld_wall job_wall = (Some 9, None)"
  "qos_heap ctld_wall 9 = qos_wall"
  "state_reason job_wall = WAIT_NO_REASON"
  "state_reason job_timed_out = FAIL_TIMEOUT"
  "set_qos_order ctld0 job_timed_out = (Some 1, None)"
  "assoc_ptr job_timed_out = [assoc0, assoc_root0]"
  by (simp_all add: ctld_wall_def job_wall_def job_timed_out_def qos_wall_def ex_defs
      set_qos_order_def part_qos_ptr_def)

lemma ex_wall_reached: "time_out_limit_reached ctld_wall job_wall"
proof -
  have "fst (qos_time_out_limits t qos_wall slurmdb_init_qos_rec)" for t
    by (simp add: qos_time_out_limits_def qos_wall_def ex_defs Let_def INFINITE_def)
  then show ?thesis
    by (simp add: time_out_limit_reached_def time_out_qos1_def ex_wall)
qed

lemma ex_no_limit_reached: "\<not> time_out_limit_reached ctld0 job_timed_out"
proof -
  have q: "qos_time_out_limits t qos0 slurmdb_init_qos_rec = (False, slurmdb_init_qos_rec)" for t
    by (simp add: qos_time_out_limits_def ex_defs Let_def)
  have a: "\<not> assoc_time_out_limits ctld0 slurmdb_init_qos_rec t a"
    if "a = assoc0 \<or> a = assoc_root0" for t a
    using that by (auto simp add: assoc_time_out_limits_def ex_defs Let_def)
  show ?thesis
    by (simp add: time_out_limit_reached_def time_out_qos1_def time_out_qos2_def ex_wall
        ex_qos_usage q a)
qed

text \<open>
  C9 (amended). For every job and state: when \<^verbatim>\<open>ACCOUNTING_ENFORCE_SAFE\<close> is set or
  \<^verbatim>\<open>ACCOUNTING_ENFORCE_LIMITS\<close> is not, \<^verbatim>\<open>acct_policy_job_time_out\<close> returns false and leaves the
  job and the state unchanged. Otherwise it returns true exactly when \<^verbatim>\<open>state_reason\<close> is
  \<^verbatim>\<open>FAIL_TIMEOUT\<close> on return, that is when a wall or cpu-minute limit of a QOS or of an
  association of the chain is reached, which sets \<^verbatim>\<open>state_reason\<close> to \<^verbatim>\<open>FAIL_TIMEOUT\<close>, or when
  \<^verbatim>\<open>state_reason\<close> was \<^verbatim>\<open>FAIL_TIMEOUT\<close> already on entry; when no limit is reached the job and
  the state are unchanged.
\<close>

theorem job_time_out_returns:
  "(ACCOUNTING_ENFORCE_LIMITS \<notin> accounting_enforce s
      \<or> ACCOUNTING_ENFORCE_SAFE \<in> accounting_enforce s
    \<longrightarrow> acct_policy_job_time_out s job_ptr = (False, job_ptr, s))
   \<and> (ACCOUNTING_ENFORCE_LIMITS \<in> accounting_enforce s
        \<and> ACCOUNTING_ENFORCE_SAFE \<notin> accounting_enforce s
      \<longrightarrow> fst (acct_policy_job_time_out s job_ptr)
            = (time_out_limit_reached s job_ptr \<or> state_reason job_ptr = FAIL_TIMEOUT)
          \<and> fst (acct_policy_job_time_out s job_ptr)
            = (state_reason (fst (snd (acct_policy_job_time_out s job_ptr))) = FAIL_TIMEOUT)
          \<and> (time_out_limit_reached s job_ptr
              \<longrightarrow> fst (snd (acct_policy_job_time_out s job_ptr))
                    = job_ptr\<lparr>state_reason := FAIL_TIMEOUT\<rparr>)
          \<and> (\<not> time_out_limit_reached s job_ptr
              \<longrightarrow> snd (acct_policy_job_time_out s job_ptr) = (job_ptr, s)))"
proof (intro conjI impI)
  assume "ACCOUNTING_ENFORCE_LIMITS \<notin> accounting_enforce s
      \<or> ACCOUNTING_ENFORCE_SAFE \<in> accounting_enforce s"
  then show "acct_policy_job_time_out s job_ptr = (False, job_ptr, s)"
    by (rule time_out_guard)
next
  assume h: "ACCOUNTING_ENFORCE_LIMITS \<in> accounting_enforce s
        \<and> ACCOUNTING_ENFORCE_SAFE \<notin> accounting_enforce s"
  note st = time_out_stages [OF h [THEN conjunct1] h [THEN conjunct2], of job_ptr]
  show "fst (acct_policy_job_time_out s job_ptr)
            = (time_out_limit_reached s job_ptr \<or> state_reason job_ptr = FAIL_TIMEOUT)"
    unfolding st time_out_limit_reached_def by auto
  show "fst (acct_policy_job_time_out s job_ptr)
            = (state_reason (fst (snd (acct_policy_job_time_out s job_ptr))) = FAIL_TIMEOUT)"
    unfolding st by auto
  show "fst (snd (acct_policy_job_time_out s job_ptr)) = job_ptr\<lparr>state_reason := FAIL_TIMEOUT\<rparr>"
    if "time_out_limit_reached s job_ptr"
    using that unfolding st time_out_limit_reached_def by auto
  show "snd (acct_policy_job_time_out s job_ptr) = (job_ptr, s)"
    if "\<not> time_out_limit_reached s job_ptr"
    using that unfolding st time_out_limit_reached_def by auto
qed

text \<open>A job in a QOS whose 10 minutes of group wall time are used: with the flag set the
  call returns false and changes nothing; without it the limit is reached, the call
  returns true and the reason is \<^verbatim>\<open>FAIL_TIMEOUT\<close>.\<close>

theorem job_time_out_returns_witness:
  "acct_policy_job_time_out (safe_on ctld_wall) job_wall = (False, job_wall, safe_on ctld_wall)
   \<and> time_out_limit_reached ctld_wall job_wall
   \<and> fst (acct_policy_job_time_out ctld_wall job_wall)
   \<and> fst (snd (acct_policy_job_time_out ctld_wall job_wall))
       = job_wall\<lparr>state_reason := FAIL_TIMEOUT\<rparr>"
proof -
  have g: "ACCOUNTING_ENFORCE_LIMITS \<notin> accounting_enforce (safe_on ctld_wall)
      \<or> ACCOUNTING_ENFORCE_SAFE \<in> accounting_enforce (safe_on ctld_wall)" by simp
  have h: "ACCOUNTING_ENFORCE_LIMITS \<in> accounting_enforce ctld_wall
        \<and> ACCOUNTING_ENFORCE_SAFE \<notin> accounting_enforce ctld_wall"
    by (simp add: ex_wall)
  note a = job_time_out_returns [where s = "safe_on ctld_wall" and job_ptr = job_wall,
      THEN conjunct1, THEN mp, OF g]
  note b = job_time_out_returns [where s = ctld_wall and job_ptr = job_wall,
      THEN conjunct2, THEN mp, OF h]
  have 1: "fst (acct_policy_job_time_out ctld_wall job_wall)"
    using b [THEN conjunct1] ex_wall_reached by simp
  have 2: "fst (snd (acct_policy_job_time_out ctld_wall job_wall))
       = job_wall\<lparr>state_reason := FAIL_TIMEOUT\<rparr>"
    using b [THEN conjunct2, THEN conjunct2, THEN conjunct1] ex_wall_reached by simp
  show ?thesis using a 1 2 ex_wall_reached by blast
qed

text \<open>
  C9 as stated fails: for a job whose \<^verbatim>\<open>state_reason\<close> is \<^verbatim>\<open>FAIL_TIMEOUT\<close> on entry, under
  enforced limits without the safe flag and with no limit anywhere, the call returns
  true although no wall or cpu-minute limit is reached.
\<close>

theorem job_time_out_stale_reason_counterexample:
  "ACCOUNTING_ENFORCE_LIMITS \<in> accounting_enforce ctld0
   \<and> ACCOUNTING_ENFORCE_SAFE \<notin> accounting_enforce ctld0
   \<and> \<not> time_out_limit_reached ctld0 job_timed_out
   \<and> state_reason job_timed_out = FAIL_TIMEOUT
   \<and> acct_policy_job_time_out ctld0 job_timed_out = (True, job_timed_out, ctld0)"
proof -
  have "acct_policy_job_time_out ctld0 job_timed_out = (True, job_timed_out, ctld0)"
    unfolding time_out_stages [OF ex_limits ex_wall(3)]
    using ex_no_limit_reached by (simp add: time_out_limit_reached_def ex_wall)
  then show ?thesis using ex_limits ex_wall(3,7) ex_no_limit_reached by blast
qed


end
